theory Spec2Isabelle
  imports Complex_Main "HOL-Library.Word" "HOL-Library.AList" "HOL-Library.Log_Nat"
begin

unbundle bit_operations_syntax

section \<open>Numbers\<close>

text \<open>
  The program computes with JavaScript numbers (IEEE-754 doubles). Tile coordinates,
  tile counts, seeds and the generator's state are integers there and are integers
  here (\<open>int\<close>, \<open>nat\<close>); the 32-bit steps (\<open>Math.imul\<close>, \<open>^\<close>, \<open>|\<close>,
  \<open>>>>\<close>) are steps on \<open>32 word\<close>. Heights, world positions, velocities and
  time steps are idealised as \<open>real\<close>: no rounding, no NaN, no infinity.
\<close>

type_synonym u32 = "32 word"

text \<open>
  The double nearest to a non-negative integer, ties to even. Every integer below
  \<open>2 ^ 53\<close> is a double; the generator's state is the only integer of the program
  that can grow past that.
\<close>

definition roundToDouble :: "int \<Rightarrow> int" where
  "roundToDouble n =
     (if n < 2 ^ 53 then n
      else let e = nat (bitlen n - 53);
               q = n div 2 ^ e;
               r = n mod 2 ^ e;
               h = 2 ^ (e - 1)
           in (if r < h \<or> (r = h \<and> even q) then q else q + 1) * 2 ^ e)"

section \<open>utils/random.ts\<close>

subsection \<open>hashSeed\<close>

text \<open>
  \<open>hash = 2166136261; for value: hash ^= (value | 0); hash = Math.imul(hash, 16777619);
  return hash >>> 0\<close>.
\<close>

definition hashSeed_step :: "u32 \<Rightarrow> int \<Rightarrow> u32" where
  "hashSeed_step hash v = (hash XOR word_of_int v) * 16777619"

definition hashSeed :: "int list \<Rightarrow> int" where
  "hashSeed inputs = uint (foldl hashSeed_step 2166136261 inputs)"

subsection \<open>SeededRng\<close>

record SeededRng =
  rng_state :: int

text \<open>The constructor: \<open>state = seed >>> 0\<close>, and a zero state becomes \<open>0x9e3779b9\<close>.\<close>

definition SeededRng_new :: "int \<Rightarrow> SeededRng" where
  "SeededRng_new sd =
     (let s = sd mod 2 ^ 32
      in \<lparr>rng_state = (if s = 0 then 0x9e3779b9 else s)\<rparr>)"

text \<open>
  \<open>next()\<close>: the state is a JavaScript number and is never wrapped
  (\<open>this.state += 0x6d2b79f5\<close>); the mixing steps read it modulo \<open>2 ^ 32\<close>.
  The result is the mixed word divided by \<open>4294967296\<close>, together with the
  generator after the call.
\<close>

definition SeededRng_mix :: "u32 \<Rightarrow> u32" where
  "SeededRng_mix t0 =
     (let t1 = (t0 XOR drop_bit 15 t0) * (t0 OR 1);
          t2 = t1 XOR (t1 + (t1 XOR drop_bit 7 t1) * (t1 OR 61))
      in t2 XOR drop_bit 14 t2)"

definition SeededRng_next :: "SeededRng \<Rightarrow> real \<times> SeededRng" where
  "SeededRng_next r =
     (let s = roundToDouble (rng_state r + 0x6d2b79f5)
      in (real_of_int (uint (SeededRng_mix (word_of_int s))) / 4294967296,
          r\<lparr>rng_state := s\<rparr>))"

definition SeededRng_range :: "SeededRng \<Rightarrow> real \<Rightarrow> real \<Rightarrow> real \<times> SeededRng" where
  "SeededRng_range r lo hi =
     (let (v, r') = SeededRng_next r in (lo + (hi - lo) * v, r'))"

definition SeededRng_int :: "SeededRng \<Rightarrow> int \<Rightarrow> int \<Rightarrow> int \<times> SeededRng" where
  "SeededRng_int r lo hi =
     (let (v, r') = SeededRng_range r (real_of_int lo) (real_of_int (hi + 1))
      in (\<lfloor>v\<rfloor>, r'))"

definition SeededRng_chance :: "SeededRng \<Rightarrow> real \<Rightarrow> bool \<times> SeededRng" where
  "SeededRng_chance r p = (let (v, r') = SeededRng_next r in (v < p, r'))"

text \<open>The value returned by the \<open>(n + 1)\<close>-th call of \<open>next()\<close> on a generator.\<close>

fun SeededRng_output :: "SeededRng \<Rightarrow> nat \<Rightarrow> real" where
  "SeededRng_output r 0 = fst (SeededRng_next r)"
| "SeededRng_output r (Suc n) = SeededRng_output (snd (SeededRng_next r)) n"

section \<open>world/types.ts\<close>

datatype TileType = Grass | Road | Foundation | Water

text \<open>
  Identifiers are strings; \<open>null\<close> and a missing map entry are \<open>None\<close>. The
  source tests identifiers by truthiness (\<open>if (tile.occupantId)\<close>, \<open>if (!treeId)\<close>):
  \<open>null\<close>, \<open>undefined\<close> and the empty string are falsy.
\<close>

definition truthy :: "string option \<Rightarrow> bool" where
  "truthy s = (case s of None \<Rightarrow> False | Some v \<Rightarrow> v \<noteq> [])"

record Tile =
  tile_type :: TileType
  height :: real
  occupantId :: "string option"
  treeId :: "string option"

record TreeRecord =
  tree_id :: string
  tree_x :: int
  tree_z :: int
  trunkHeight :: real
  crownHeight :: real
  crownRadius :: real
  hueOffset :: real

datatype RoofStyle = Gabled | Hip

record BuildingRecord =
  building_id :: string
  building_seed :: int
  originX :: int
  originZ :: int
  building_width :: int
  building_depth :: int
  baseHeight :: real
  roofHeight :: real
  roofStyle :: RoofStyle
  wallColor :: string
  roofColor :: string
  hasChimney :: bool

record WorldSnapshot =
  snapshot_width :: nat
  snapshot_depth :: nat
  snapshot_seed :: int
  tileTypes :: "TileType list"
  snapshot_trees :: "TreeRecord list option"
  snapshot_buildings :: "BuildingRecord list"

section \<open>world/grid.ts\<close>

record GridConfig =
  config_width :: nat
  config_depth :: nat
  config_tileSize :: real
  config_seed :: int

record HillFeature =
  hill_x :: real
  hill_z :: real
  hill_radius :: real
  hill_height :: real

text \<open>
  The two \<open>Map\<close>s that are iterated (\<open>buildings\<close>, \<open>trees\<close>) are association
  lists in insertion order: \<open>set\<close> is \<^const>\<open>AList.update\<close> (an existing key keeps
  its place, a new one goes last), \<open>delete\<close> is \<^const>\<open>AList.delete\<close>, \<open>has\<close> and
  \<open>get\<close> are \<^const>\<open>map_of\<close>, \<open>values()\<close> is \<open>map snd\<close>. The reverse index
  \<open>treeByTile\<close> is only looked up, so it is a map.
\<close>

record GridWorld =
  width :: nat
  depth :: nat
  tileSize :: real
  seed :: int
  tiles :: "Tile list"
  heightField :: "real list"
  buildings :: "(string \<times> BuildingRecord) list"
  trees :: "(string \<times> TreeRecord) list"
  treeByTile :: "nat \<rightharpoonup> string"
  baseTileTypes :: "TileType list"
  baseTrees :: "TreeRecord list"
  streamBaseZ :: real
  streamAmplitude :: real
  streamFrequency :: real
  streamPhase :: real
  streamHalfWidth :: real
  hills :: "HillFeature list"

definition index :: "GridWorld \<Rightarrow> int \<Rightarrow> int \<Rightarrow> int" where
  "index g x z = z * int (width g) + x"

definition vertexIndex :: "GridWorld \<Rightarrow> int \<Rightarrow> int \<Rightarrow> int" where
  "vertexIndex g x z = z * (int (width g) + 1) + x"

definition inBounds :: "GridWorld \<Rightarrow> int \<Rightarrow> int \<Rightarrow> bool" where
  "inBounds g x z = (x \<ge> 0 \<and> z \<ge> 0 \<and> x < int (width g) \<and> z < int (depth g))"

definition getTile :: "GridWorld \<Rightarrow> int \<Rightarrow> int \<Rightarrow> Tile option" where
  "getTile g x z =
     (if \<not> inBounds g x z then None else Some (tiles g ! nat (index g x z)))"

text \<open>A write through a tile reference: \<open>tile.f = v\<close> for the tile at an index.\<close>

definition modifyTile :: "nat \<Rightarrow> (Tile \<Rightarrow> Tile) \<Rightarrow> GridWorld \<Rightarrow> GridWorld" where
  "modifyTile i f g = g\<lparr>tiles := (tiles g)[i := f (tiles g ! i)]\<rparr>"

definition setTileType :: "GridWorld \<Rightarrow> int \<Rightarrow> int \<Rightarrow> TileType \<Rightarrow> GridWorld" where
  "setTileType g x z ty =
     (case getTile g x z of
        None \<Rightarrow> g
      | Some tile \<Rightarrow> modifyTile (nat (index g x z)) (\<lambda>t. t\<lparr>tile_type := ty\<rparr>) g)"

definition removeTreeAt :: "GridWorld \<Rightarrow> int \<Rightarrow> int \<Rightarrow> bool \<times> GridWorld" where
  "removeTreeAt g x z =
     (if \<not> inBounds g x z then (False, g)
      else let idx = nat (index g x z);
               found = treeByTile g idx
           in if \<not> truthy found then (False, g)
              else (True,
                    modifyTile idx (\<lambda>t. t\<lparr>treeId := None\<rparr>)
                      (g\<lparr>treeByTile := (treeByTile g)(idx := None),
                         trees := AList.delete (the found) (trees g)\<rparr>)))"

definition addTree :: "GridWorld \<Rightarrow> TreeRecord \<Rightarrow> GridWorld" where
  "addTree g tree =
     (if \<not> inBounds g (tree_x tree) (tree_z tree) then g
      else case getTile g (tree_x tree) (tree_z tree) of
        None \<Rightarrow> g
      | Some tile \<Rightarrow>
          if tile_type tile \<noteq> Grass \<or> truthy (occupantId tile) then g
          else let idx = nat (index g (tree_x tree) (tree_z tree));
                   existingId = treeByTile g idx;
                   g1 = (if truthy existingId
                         then g\<lparr>trees := AList.delete (the existingId) (trees g),
                                treeByTile := (treeByTile g)(idx := None)\<rparr>
                         else g)
               in modifyTile idx (\<lambda>t. t\<lparr>treeId := Some (tree_id tree)\<rparr>)
                    (g1\<lparr>treeByTile := (treeByTile g1)(idx \<mapsto> tree_id tree),
                        trees := AList.update (tree_id tree) tree (trees g1)\<rparr>))"

definition clearTrees :: "GridWorld \<Rightarrow> GridWorld" where
  "clearTrees g =
     g\<lparr>tiles := map (\<lambda>t. t\<lparr>treeId := None\<rparr>) (tiles g),
       trees := [],
       treeByTile := Map.empty\<rparr>"

definition clearOccupantTile :: "string \<Rightarrow> Tile \<Rightarrow> Tile" where
  "clearOccupantTile buildingId t =
     (if occupantId t = Some buildingId
      then t\<lparr>occupantId := None,
             tile_type := (if tile_type t = Foundation then Grass else tile_type t)\<rparr>
      else t)"

definition clearOccupant :: "GridWorld \<Rightarrow> string \<Rightarrow> GridWorld" where
  "clearOccupant g buildingId = g\<lparr>tiles := map (clearOccupantTile buildingId) (tiles g)\<rparr>"

subsection \<open>Tree generation\<close>

text \<open>The tiles in the order of the source's loops: \<open>z\<close> outside, \<open>x\<close> inside.\<close>

definition tileCoords :: "GridWorld \<Rightarrow> (int \<times> int) list" where
  "tileCoords g = [(int x, int z). z \<leftarrow> [0..<depth g], x \<leftarrow> [0..<width g]]"

definition footprintCoords :: "int \<Rightarrow> int \<Rightarrow> int \<Rightarrow> int \<Rightarrow> (int \<times> int) list" where
  "footprintCoords ox oz w d = [(ox + dx, oz + dz). dz \<leftarrow> [0..d - 1], dx \<leftarrow> [0..w - 1]]"

text \<open>
  The centre of the stream at a column. In a world of width \<open>0\<close> the quotient is NaN in
  the program and so is the result; such a world has no tile, and the value here
  (that of a quotient \<open>0\<close>) stands for a number that the model does not have.
\<close>

definition streamCenterAt :: "GridWorld \<Rightarrow> real \<Rightarrow> real" where
  "streamCenterAt g gridX =
     (let normalizedX = gridX / real (width g);
          majorWave = sin (normalizedX * pi * streamFrequency g + streamPhase g) * streamAmplitude g;
          minorWave = sin (normalizedX * pi * streamFrequency g * 2.8 + streamPhase g * 0.68)
                        * real (depth g) * 0.035
      in streamBaseZ g + majorWave + minorWave)"

definition estimateTileSlope :: "GridWorld \<Rightarrow> int \<Rightarrow> int \<Rightarrow> real" where
  "estimateTileSlope g x z =
     (let center = (case getTile g x z of Some t \<Rightarrow> height t | None \<Rightarrow> 0)
      in foldl (\<lambda>maxDiff (nx, nz).
                  case getTile g nx nz of
                    None \<Rightarrow> maxDiff
                  | Some neighbor \<Rightarrow> max maxDiff \<bar>center - height neighbor\<bar>)
           0 [(x + 1, z), (x - 1, z), (x, z + 1), (x, z - 1)])"

text \<open>Number to string, as a template literal or \<open>toString(16)\<close> prints an integer.\<close>

fun digitsOf :: "nat \<Rightarrow> nat \<Rightarrow> string" where
  "digitsOf b n =
     (if b < 2 \<or> n < b then [''0123456789abcdef'' ! n]
      else digitsOf b (n div b) @ [''0123456789abcdef'' ! (n mod b)])"

definition numberToString :: "int \<Rightarrow> string" where
  "numberToString i = (if i < 0 then CHR ''-'' # digitsOf 10 (nat (- i)) else digitsOf 10 (nat i))"

definition toString16 :: "int \<Rightarrow> string" where
  "toString16 i = (if i < 0 then CHR ''-'' # digitsOf 16 (nat (- i)) else digitsOf 16 (nat i))"

definition generateTreeAt :: "GridWorld \<times> SeededRng \<Rightarrow> int \<times> int \<Rightarrow> GridWorld \<times> SeededRng" where
  "generateTreeAt st c =
     (let (g, rng) = st; (x, z) = c
      in case getTile g x z of
           None \<Rightarrow> (g, rng)
         | Some tile \<Rightarrow>
             if tile_type tile \<noteq> Grass then (g, rng)
             else let streamDistance = \<bar>real_of_int z + 0.5 - streamCenterAt g (real_of_int x + 0.5)\<bar>
               in if streamDistance < streamHalfWidth g + 1.4 then (g, rng)
                  else let slope = estimateTileSlope g x z
                    in if slope > 0.34 then (g, rng)
                       else let elevationBias = max 0 (height tile + 0.08) * 0.12;
                                chance = 0.075 + elevationBias - slope * 0.11;
                                (roll, rng1) = SeededRng_next rng
                         in if roll > chance then (g, rng1)
                            else let (th, rng2) = SeededRng_range rng1 0.3 0.56;
                                     (ch, rng3) = SeededRng_range rng2 0.52 0.96;
                                     (cr, rng4) = SeededRng_range rng3 0.34 0.58;
                                     (ho, rng5) = SeededRng_range rng4 (- 0.09) 0.09;
                                     tree = \<lparr>tree_id = ''t-'' @ numberToString x @ ''-'' @ numberToString z,
                                             tree_x = x, tree_z = z,
                                             trunkHeight = th, crownHeight = ch,
                                             crownRadius = cr, hueOffset = ho\<rparr>
                              in (addTree g tree, rng5))"

definition generateTrees :: "GridWorld \<Rightarrow> GridWorld" where
  "generateTrees g =
     (let g0 = clearTrees g;
          rng = SeededRng_new (hashSeed [seed g0, 0x51d3ac9])
      in fst (foldl generateTreeAt (g0, rng) (tileCoords g0)))"

subsection \<open>Snapshots\<close>

definition toSnapshot :: "GridWorld \<Rightarrow> WorldSnapshot" where
  "toSnapshot g =
     \<lparr>snapshot_width = width g,
      snapshot_depth = depth g,
      snapshot_seed = seed g,
      tileTypes = map tile_type (tiles g),
      snapshot_trees = Some (map snd (trees g)),
      snapshot_buildings = map snd (buildings g)\<rparr>"

text \<open>\<open>xs[i]\<close>, which is \<open>undefined\<close> past the end of the array.\<close>

definition elementAt :: "'a list \<Rightarrow> nat \<Rightarrow> 'a option" where
  "elementAt xs i = (if i < length xs then Some (xs ! i) else None)"

text \<open>
  \<open>applySnapshot\<close> after its guard, in the source's four steps: the tile loop, the
  water repair, the trees, the buildings.
\<close>

definition restoreTile :: "WorldSnapshot \<Rightarrow> GridWorld \<Rightarrow> nat \<Rightarrow> Tile" where
  "restoreTile snapshot g i =
     (tiles g ! i)\<lparr>tile_type :=
                      (case elementAt (tileTypes snapshot) i of
                         Some ty \<Rightarrow> ty
                       | None \<Rightarrow> (case elementAt (baseTileTypes g) i of
                                     Some ty \<Rightarrow> ty
                                   | None \<Rightarrow> Grass)),
                    occupantId := None,
                    treeId := None\<rparr>"

definition restoreTileTypes :: "WorldSnapshot \<Rightarrow> GridWorld \<Rightarrow> GridWorld" where
  "restoreTileTypes snapshot g =
     g\<lparr>tiles := map (restoreTile snapshot g) [0..<length (tiles g)]\<rparr>"

definition repairTile :: "GridWorld \<Rightarrow> nat \<Rightarrow> Tile" where
  "repairTile g i =
     (if tile_type (tiles g ! i) = Grass \<and> elementAt (baseTileTypes g) i = Some Water
      then (tiles g ! i)\<lparr>tile_type := Water\<rparr>
      else tiles g ! i)"

definition repairWater :: "WorldSnapshot \<Rightarrow> GridWorld \<Rightarrow> GridWorld" where
  "repairWater snapshot g =
     (let hasWaterInSnapshot = (\<exists>ty \<in> set (tileTypes snapshot). ty = Water)
      in if \<not> hasWaterInSnapshot
         then g\<lparr>tiles := map (repairTile g) [0..<length (tiles g)]\<rparr>
         else g)"

definition restoreTrees :: "WorldSnapshot \<Rightarrow> GridWorld \<Rightarrow> GridWorld" where
  "restoreTrees snapshot g =
     (case snapshot_trees snapshot of
        None \<Rightarrow> generateTrees g
      | Some ts \<Rightarrow> if length ts > 0 then foldl addTree g ts else generateTrees g)"

definition claimTile :: "string \<Rightarrow> GridWorld \<Rightarrow> int \<times> int \<Rightarrow> GridWorld" where
  "claimTile buildingId g c =
     (let (tx, tz) = c
      in if \<not> inBounds g tx tz then g
         else modifyTile (nat (index g tx tz))
                (\<lambda>t. t\<lparr>tile_type := Foundation, occupantId := Some buildingId\<rparr>)
                (snd (removeTreeAt g tx tz)))"

definition restoreBuilding :: "GridWorld \<Rightarrow> BuildingRecord \<Rightarrow> GridWorld" where
  "restoreBuilding g building =
     foldl (claimTile (building_id building))
       (g\<lparr>buildings := AList.update (building_id building) building (buildings g)\<rparr>)
       (footprintCoords (originX building) (originZ building)
          (building_width building) (building_depth building))"

definition applySnapshot :: "GridWorld \<Rightarrow> WorldSnapshot \<Rightarrow> GridWorld" where
  "applySnapshot g snapshot =
     (if snapshot_width snapshot \<noteq> width g \<or> snapshot_depth snapshot \<noteq> depth g then g
      else let g1 = clearTrees (g\<lparr>buildings := []\<rparr>);
               g2 = restoreTileTypes snapshot g1;
               g3 = repairWater snapshot g2;
               g4 = restoreTrees snapshot g3
           in foldl restoreBuilding g4 (snapshot_buildings snapshot))"

definition resetTile :: "GridWorld \<Rightarrow> nat \<Rightarrow> Tile" where
  "resetTile g i =
     (tiles g ! i)\<lparr>tile_type := (case elementAt (baseTileTypes g) i of
                                   Some ty \<Rightarrow> ty
                                 | None \<Rightarrow> Grass),
                    occupantId := None,
                    treeId := None\<rparr>"

definition resetTiles :: "GridWorld \<Rightarrow> GridWorld" where
  "resetTiles g =
     (let g1 = g\<lparr>tiles := map (resetTile g) [0..<length (tiles g)]\<rparr>;
          g2 = clearTrees g1;
          g3 = foldl addTree g2 (baseTrees g2)
      in g3\<lparr>buildings := []\<rparr>)"

subsection \<open>Construction\<close>

definition smoothstep :: "real \<Rightarrow> real" where
  "smoothstep t = t * t * (3 - 2 * t)"

definition clamp :: "real \<Rightarrow> real \<Rightarrow> real \<Rightarrow> real" where
  "clamp v lo hi = max lo (min hi v)"

definition hashNoise2d :: "int \<Rightarrow> int \<Rightarrow> int \<Rightarrow> real" where
  "hashNoise2d sd x z =
     real_of_int (uint ((word_of_int (hashSeed [sd, x, z]) :: u32) AND 0xfffffff)) / 0xfffffff"

definition valueNoise :: "int \<Rightarrow> real \<Rightarrow> real \<Rightarrow> real" where
  "valueNoise sd x z =
     (let x0 = \<lfloor>x\<rfloor>; z0 = \<lfloor>z\<rfloor>;
          xf = x - real_of_int x0; zf = z - real_of_int z0;
          n00 = hashNoise2d sd x0 z0;
          n10 = hashNoise2d sd (x0 + 1) z0;
          n01 = hashNoise2d sd x0 (z0 + 1);
          n11 = hashNoise2d sd (x0 + 1) (z0 + 1);
          sx = smoothstep xf; sz = smoothstep zf;
          ix0 = n00 + (n10 - n00) * sx;
          ix1 = n01 + (n11 - n01) * sx
      in ix0 + (ix1 - ix0) * sz)"

text \<open>\<open>seed ^ c\<close>: the exclusive or of the two 32-bit values, read as a signed integer.\<close>

definition xor32 :: "int \<Rightarrow> int \<Rightarrow> int" where
  "xor32 a b = sint ((word_of_int a :: u32) XOR word_of_int b)"

definition layeredNoise :: "int \<Rightarrow> real \<Rightarrow> real \<Rightarrow> real" where
  "layeredNoise sd x z =
     (let a = valueNoise sd (x * 0.21) (z * 0.21) * 0.62;
          b = valueNoise (xor32 sd 0x9e3779b9) (x * 0.53) (z * 0.53) * 0.28;
          c = valueNoise (xor32 sd 0x7f4a7c15) (x * 1.19) (z * 1.19) * 0.1;
          normalized = a + b + c;
          shifted = normalized - 0.5
      in shifted * 0.32 * 2)"

text \<open>One hill: up to \<open>attempts\<close> candidates, the first one far enough from the stream.\<close>

fun placeHill :: "GridWorld \<Rightarrow> nat \<Rightarrow> SeededRng \<Rightarrow> HillFeature option \<times> SeededRng" where
  "placeHill g 0 rng = (None, rng)"
| "placeHill g (Suc attemptsLeft) rng =
     (let (x, rng1) = SeededRng_range rng (real (width g) * 0.1) (real (width g) * 0.9);
          (z, rng2) = SeededRng_range rng1 (real (depth g) * 0.1) (real (depth g) * 0.9)
      in if \<bar>z - streamCenterAt g x\<bar> < real (depth g) * 0.12
         then placeHill g attemptsLeft rng2
         else let (r, rng3) = SeededRng_range rng2 4.5 9.8;
                  (h, rng4) = SeededRng_range rng3 0.22 0.55
              in (Some \<lparr>hill_x = x, hill_z = z, hill_radius = r, hill_height = h\<rparr>, rng4))"

fun createHills :: "GridWorld \<Rightarrow> nat \<Rightarrow> SeededRng \<Rightarrow> HillFeature list" where
  "createHills g 0 rng = []"
| "createHills g (Suc n) rng =
     (case placeHill g 8 rng of
        (None, rng') \<Rightarrow> createHills g n rng'
      | (Some hill, rng') \<Rightarrow> hill # createHills g n rng')"

definition createHillFeatures :: "GridWorld \<Rightarrow> SeededRng \<Rightarrow> HillFeature list" where
  "createHillFeatures g rng =
     (let (hillCount, rng1) = SeededRng_int rng 3 5
      in createHills g (nat hillCount) rng1)"

definition hillInfluence :: "real \<Rightarrow> real \<Rightarrow> real \<Rightarrow> HillFeature \<Rightarrow> real" where
  "hillInfluence x z h hill =
     (let dx = x - hill_x hill; dz = z - hill_z hill;
          distance = sqrt (dx * dx + dz * dz)
      in if distance \<ge> hill_radius hill then h
         else let influence = 1 - distance / hill_radius hill
              in h + hill_height hill * influence * influence)"

definition vertexCoords :: "GridWorld \<Rightarrow> (int \<times> int) list" where
  "vertexCoords g = [(int x, int z). z \<leftarrow> [0..<depth g + 1], x \<leftarrow> [0..<width g + 1]]"

definition vertexHeightAt :: "GridWorld \<Rightarrow> int \<times> int \<Rightarrow> real" where
  "vertexHeightAt g c =
     (let (x, z) = c;
          streamInfluenceWidth = streamHalfWidth g * 3.4;
          h0 = layeredNoise (seed g) (real_of_int x) (real_of_int z);
          h1 = foldl (hillInfluence (real_of_int x) (real_of_int z)) h0 (hills g);
          streamDistance = \<bar>real_of_int z - streamCenterAt g (real_of_int x)\<bar>;
          h2 = (if streamDistance < streamInfluenceWidth
                then let influence = 1 - streamDistance / streamInfluenceWidth
                     in h1 - 0.56 * influence * influence
                else h1)
      in clamp h2 (- 0.62) 1.2)"

text \<open>
  The height field is a \<open>Float32Array\<close>; the rounding of a stored height to single
  precision is not modelled.
\<close>

definition fillHeightField :: "GridWorld \<Rightarrow> GridWorld" where
  "fillHeightField g = g\<lparr>heightField := map (vertexHeightAt g) (vertexCoords g)\<rparr>"

definition vertexHeight :: "GridWorld \<Rightarrow> int \<Rightarrow> int \<Rightarrow> real" where
  "vertexHeight g x z =
     (let clampedX = max 0 (min (int (width g)) x);
          clampedZ = max 0 (min (int (depth g)) z)
      in heightField g ! nat (vertexIndex g clampedX clampedZ))"

definition freshTile :: "GridWorld \<Rightarrow> int \<times> int \<Rightarrow> Tile" where
  "freshTile g c =
     (let (x, z) = c;
          h = (vertexHeight g x z + vertexHeight g (x + 1) z
               + vertexHeight g x (z + 1) + vertexHeight g (x + 1) (z + 1)) / 4
      in \<lparr>tile_type = Grass, height = h, occupantId = None, treeId = None\<rparr>)"

definition fillTiles :: "GridWorld \<Rightarrow> GridWorld" where
  "fillTiles g = g\<lparr>tiles := map (freshTile g) (tileCoords g)\<rparr>"

definition streamWaterAt :: "GridWorld \<Rightarrow> int \<times> int \<Rightarrow> GridWorld" where
  "streamWaterAt g c =
     (let (x, z) = c
      in case getTile g x z of
           None \<Rightarrow> g
         | Some tile \<Rightarrow>
             let centerX = real_of_int x + 0.5;
                 centerZ = real_of_int z + 0.5;
                 streamDistance = \<bar>centerZ - streamCenterAt g centerX\<bar>;
                 bankJitter = hashNoise2d (hashSeed [seed g, 0x734a5f1]) x z * 0.34;
                 localWidth = streamHalfWidth g + bankJitter
             in if streamDistance \<le> localWidth \<and> height tile < - 0.18 + 0.22
                then modifyTile (nat (index g x z)) (\<lambda>t. t\<lparr>tile_type := Water\<rparr>) g
                else g)"

definition applyStreamWater :: "GridWorld \<Rightarrow> GridWorld" where
  "applyStreamWater g = foldl streamWaterAt g (tileCoords g)"

definition captureBaseState :: "GridWorld \<Rightarrow> GridWorld" where
  "captureBaseState g =
     g\<lparr>baseTileTypes := map tile_type (tiles g),
       baseTrees := map snd (trees g)\<rparr>"

definition GridWorld_new :: "GridConfig \<Rightarrow> GridWorld" where
  "GridWorld_new config =
     (let featureRng = SeededRng_new (hashSeed [config_seed config, 0x29f3a6d1]);
          (r1, rng1) = SeededRng_range featureRng 0.35 0.62;
          (r2, rng2) = SeededRng_range rng1 0.09 0.16;
          (r3, rng3) = SeededRng_range rng2 0.95 1.55;
          (r4, rng4) = SeededRng_range rng3 0 (pi * 2);
          (r5, rng5) = SeededRng_range rng4 0.85 1.45;
          g0 = \<lparr>width = config_width config,
                depth = config_depth config,
                tileSize = config_tileSize config,
                seed = config_seed config,
                tiles = [],
                heightField = [],
                buildings = [],
                trees = [],
                treeByTile = Map.empty,
                baseTileTypes = [],
                baseTrees = [],
                streamBaseZ = real (config_depth config) * r1,
                streamAmplitude = real (config_depth config) * r2,
                streamFrequency = r3,
                streamPhase = r4,
                streamHalfWidth = r5,
                hills = []\<rparr>;
          g1 = g0\<lparr>hills := createHillFeatures g0 rng5\<rparr>
      in captureBaseState (generateTrees (applyStreamWater (fillTiles (fillHeightField g1)))))"

subsection \<open>World coordinates\<close>

text \<open>
  \<open>tileToWorld\<close> is also called with the centre of a footprint, which need not be a
  whole tile. \<open>getTile\<close> then compares the coordinates with the bounds as numbers and
  reads \<open>tiles[z * width + x]\<close>, which is a tile when that index is a whole number
  below the length of the array and \<open>undefined\<close> otherwise; the height is then \<open>0\<close>.
\<close>

definition tileToWorld :: "GridWorld \<Rightarrow> real \<Rightarrow> real \<Rightarrow> real \<times> real \<times> real" where
  "tileToWorld g x z =
     (let worldX = (x - real (width g) / 2 + 0.5) * tileSize g;
          worldZ = (z - real (depth g) / 2 + 0.5) * tileSize g;
          i = z * real (width g) + x;
          y = (if x \<ge> 0 \<and> z \<ge> 0 \<and> x < real (width g) \<and> z < real (depth g) \<and>
                  real_of_int \<lfloor>i\<rfloor> = i \<and> nat \<lfloor>i\<rfloor> < length (tiles g)
               then height (tiles g ! nat \<lfloor>i\<rfloor>)
               else 0)
      in (worldX, y, worldZ))"

text \<open>
  With a tile size of \<open>0\<close> the quotients of \<open>worldToTile\<close> are infinite or NaN, which
  \<open>inBounds\<close> rejects: the result is \<open>null\<close>.
\<close>

definition worldToTile :: "GridWorld \<Rightarrow> real \<Rightarrow> real \<Rightarrow> (int \<times> int) option" where
  "worldToTile g worldX worldZ =
     (if tileSize g = 0 then None
      else let x = \<lfloor>worldX / tileSize g + real (width g) / 2\<rfloor>;
               z = \<lfloor>worldZ / tileSize g + real (depth g) / 2\<rfloor>
           in if \<not> inBounds g x z then None else Some (x, z))"

section \<open>world/placement.ts\<close>

datatype BuildTool = House | RoadTool | Erase

record PlacementResult =
  changed :: bool
  addedBuilding :: "BuildingRecord option"
  removedBuildingId :: "string option"
  message :: "string option"

definition unchanged :: PlacementResult where
  "unchanged = \<lparr>changed = False, addedBuilding = None, removedBuildingId = None, message = None\<rparr>"

text \<open>
  The controller holds the world and its \<open>placementCounter\<close>; an operation takes both
  and returns its result with both.
\<close>

type_synonym PlacementController = "GridWorld \<times> int"

definition placeRoad :: "PlacementController \<Rightarrow> int \<Rightarrow> int \<Rightarrow> PlacementResult \<times> PlacementController" where
  "placeRoad pc x z =
     (let (g, counter) = pc
      in case getTile g x z of
           None \<Rightarrow> (unchanged, pc)
         | Some tile \<Rightarrow>
             if truthy (occupantId tile)
             then (unchanged\<lparr>message := Some ''Cannot place road on building.''\<rparr>, pc)
             else if tile_type tile = Road then (unchanged, pc)
             else if tile_type tile \<noteq> Grass
             then (unchanged\<lparr>message := Some ''Road requires an empty grass tile.''\<rparr>, pc)
             else (unchanged\<lparr>changed := True\<rparr>,
                   (modifyTile (nat (index g x z)) (\<lambda>t. t\<lparr>tile_type := Road\<rparr>)
                      (snd (removeTreeAt g x z)),
                    counter)))"

definition tileFree :: "GridWorld \<Rightarrow> int \<times> int \<Rightarrow> bool" where
  "tileFree g c =
     (case getTile g (fst c) (snd c) of
        None \<Rightarrow> False
      | Some tile \<Rightarrow> \<not> (tile_type tile \<noteq> Grass \<or> truthy (occupantId tile)))"

definition isFootprintFree :: "GridWorld \<Rightarrow> int \<Rightarrow> int \<Rightarrow> int \<Rightarrow> int \<Rightarrow> bool" where
  "isFootprintFree g ox oz w d = list_all (tileFree g) (footprintCoords ox oz w d)"

text \<open>
  The search loop of \<open>placeHouse\<close>: up to \<open>n\<close> candidates, each drawn from the
  generator; the result is \<open>found\<close>, the last candidate \<open>(width, depth, originX,
  originZ)\<close> and the generator after the draws.
\<close>

fun searchFootprint ::
  "GridWorld \<Rightarrow> int \<Rightarrow> int \<Rightarrow> nat \<Rightarrow> SeededRng \<Rightarrow> int \<times> int \<times> int \<times> int
     \<Rightarrow> bool \<times> (int \<times> int \<times> int \<times> int) \<times> SeededRng" where
  "searchFootprint g x z 0 rng cand = (False, cand, rng)"
| "searchFootprint g x z (Suc n) rng cand =
     (let (w, rng1) = SeededRng_int rng 1 3;
          (d, rng2) = SeededRng_int rng1 1 3;
          (offsetX, rng3) = SeededRng_int rng2 0 (w - 1);
          (offsetZ, rng4) = SeededRng_int rng3 0 (d - 1);
          ox = x - offsetX;
          oz = z - offsetZ
      in if isFootprintFree g ox oz w d then (True, (w, d, ox, oz), rng4)
         else searchFootprint g x z n rng4 (w, d, ox, oz))"

definition occupyTile :: "string \<Rightarrow> GridWorld \<Rightarrow> int \<times> int \<Rightarrow> GridWorld" where
  "occupyTile buildingId g c =
     (let (tx, tz) = c
      in case getTile g tx tz of
           None \<Rightarrow> g
         | Some footprintTile \<Rightarrow>
             modifyTile (nat (index g tx tz))
               (\<lambda>t. t\<lparr>tile_type := Foundation, occupantId := Some buildingId\<rparr>)
               (snd (removeTreeAt g tx tz)))"

definition wallColors :: "string list" where
  "wallColors = [''#c8cfb2'', ''#d8cab4'', ''#c0d2d8'', ''#e4d4b9'', ''#d6d0be'']"

definition roofColors :: "string list" where
  "roofColors = [''#b64d3f'', ''#7b8c99'', ''#5f697f'', ''#9a5c4f'', ''#5d4e46'']"

definition placeHouse :: "PlacementController \<Rightarrow> int \<Rightarrow> int \<Rightarrow> PlacementResult \<times> PlacementController" where
  "placeHouse pc x z =
     (let (g, counter) = pc
      in case getTile g x z of
           None \<Rightarrow> (unchanged, pc)
         | Some tile \<Rightarrow>
             if tile_type tile \<noteq> Grass \<or> truthy (occupantId tile)
             then (unchanged\<lparr>message := Some ''House requires empty grass tile.''\<rparr>, pc)
             else
               let counter' = counter + 1;
                   sd = hashSeed [seed g, x, z, counter'];
                   rng = SeededRng_new sd;
                   (found, cand, rng1) = searchFootprint g x z 8 rng (1, 1, x, z)
               in if \<not> found \<and> \<not> isFootprintFree g x z 1 1
                  then (unchanged\<lparr>message := Some ''No room for house footprint.''\<rparr>, (g, counter'))
                  else
                    let (w, d, ox, oz) = (if \<not> found then (1, 1, x, z) else cand);
                        (bh, rng2) = SeededRng_range rng1 0.6 1.4;
                        (rh, rng3) = SeededRng_range rng2 0.35 0.95;
                        (gabled, rng4) = SeededRng_chance rng3 0.5;
                        (wi, rng5) = SeededRng_int rng4 0 (int (length wallColors) - 1);
                        (ri, rng6) = SeededRng_int rng5 0 (int (length roofColors) - 1);
                        (chimney, rng7) = SeededRng_chance rng6 0.18;
                        building = \<lparr>building_id = ''b-'' @ toString16 sd,
                                     building_seed = sd,
                                     originX = ox, originZ = oz,
                                     building_width = w, building_depth = d,
                                     baseHeight = bh, roofHeight = rh,
                                     roofStyle = (if gabled then Gabled else Hip),
                                     wallColor = wallColors ! nat wi,
                                     roofColor = roofColors ! nat ri,
                                     hasChimney = chimney\<rparr>;
                        g1 = g\<lparr>buildings := AList.update (building_id building) building (buildings g)\<rparr>;
                        g2 = foldl (occupyTile (building_id building)) g1 (footprintCoords ox oz w d)
                    in (unchanged\<lparr>changed := True, addedBuilding := Some building\<rparr>, (g2, counter')))"

definition erase :: "PlacementController \<Rightarrow> int \<Rightarrow> int \<Rightarrow> PlacementResult \<times> PlacementController" where
  "erase pc x z =
     (let (g, counter) = pc
      in case getTile g x z of
           None \<Rightarrow> (unchanged, pc)
         | Some tile \<Rightarrow>
             if truthy (occupantId tile)
             then let buildingId = the (occupantId tile);
                      g1 = clearOccupant g buildingId;
                      g2 = g1\<lparr>buildings := AList.delete buildingId (buildings g1)\<rparr>
                  in (unchanged\<lparr>changed := True, removedBuildingId := Some buildingId\<rparr>, (g2, counter))
             else if tile_type tile = Road
             then (unchanged\<lparr>changed := True\<rparr>,
                   (modifyTile (nat (index g x z)) (\<lambda>t. t\<lparr>tile_type := Grass\<rparr>) g, counter))
             else (unchanged, pc))"

definition apply_tool :: "PlacementController \<Rightarrow> BuildTool \<Rightarrow> int \<Rightarrow> int \<Rightarrow> PlacementResult \<times> PlacementController" where
  "apply_tool pc tool x z =
     (if \<not> inBounds (fst pc) x z then (unchanged, pc)
      else case tool of
             House \<Rightarrow> placeHouse pc x z
           | RoadTool \<Rightarrow> placeRoad pc x z
           | Erase \<Rightarrow> erase pc x z)"

section \<open>weather/tornadoSystem.ts\<close>

record TornadoView =
  view_x :: real
  view_z :: real
  view_radius :: real

text \<open>
  A tornado without its meshes: the scene objects (\<open>group\<close>, \<open>segments\<close>,
  \<open>dust\<close>, \<open>debris\<close>) are written by \<open>update\<close> and read by nothing modelled here.
\<close>

record TornadoEntity =
  tornado_id :: nat
  position :: "real \<times> real"
  velocity :: "real \<times> real"
  radius :: real
  lifetime :: real

record TornadoSystem =
  tornadoes :: "TornadoEntity list"
  idCounter :: nat

text \<open>
  \<open>Math.random()\<close> is an input: \<open>rs k\<close> is the value of the \<open>k\<close>-th call made
  during one operation, and a cursor counts the calls. \<open>createEntity\<close> makes
  \<open>18 * 7\<close> calls for the debris before it draws speed, heading and lifetime.
\<close>

definition createEntity ::
  "(nat \<Rightarrow> real) \<Rightarrow> nat \<Rightarrow> TornadoSystem \<Rightarrow> real \<Rightarrow> real \<Rightarrow> real \<Rightarrow> TornadoEntity \<times> TornadoSystem \<times> nat" where
  "createEntity rs cursor sys worldX worldZ r =
     (let sys1 = sys\<lparr>idCounter := idCounter sys + 1\<rparr>;
          c1 = cursor + 18 * 7;
          speed = 0.4 + rs c1 * 0.7;
          heading = rs (c1 + 1) * pi * 2
      in (\<lparr>tornado_id = idCounter sys1,
           position = (worldX, worldZ),
           velocity = (cos heading * speed, sin heading * speed),
           radius = r,
           lifetime = 20 + rs (c1 + 2) * 70\<rparr>,
          sys1, c1 + 3))"

definition spawnManual ::
  "GridWorld \<Rightarrow> (nat \<Rightarrow> real) \<Rightarrow> nat \<Rightarrow> TornadoSystem \<Rightarrow> real option \<Rightarrow> real option
     \<Rightarrow> TornadoView \<times> TornadoSystem \<times> nat" where
  "spawnManual g rs cursor sys worldX worldZ =
     (let (spawnX, c1) = (case worldX of
                            Some v \<Rightarrow> (v, cursor)
                          | None \<Rightarrow> ((rs cursor * 2 - 1) * (real (width g) * tileSize g * 0.45), cursor + 1));
          (spawnZ, c2) = (case worldZ of
                            Some v \<Rightarrow> (v, c1)
                          | None \<Rightarrow> ((rs c1 * 2 - 1) * (real (depth g) * tileSize g * 0.45), c1 + 1));
          (tornado, sys1, c3) = createEntity rs (c2 + 1) sys spawnX spawnZ (3 + rs c2 * 1.8)
      in (\<lparr>view_x = fst (position tornado), view_z = snd (position tornado), view_radius = radius tornado\<rparr>,
          sys1\<lparr>tornadoes := tornadoes sys1 @ [tornado]\<rparr>, c3))"

text \<open>\<open>Vector2.rotateAround\<close> of three.js, about the origin.\<close>

definition rotateAround :: "real \<times> real \<Rightarrow> real \<Rightarrow> real \<times> real" where
  "rotateAround v angle =
     (let c = cos angle; s = sin angle
      in (fst v * c - snd v * s, fst v * s + snd v * c))"

text \<open>
  One turn of the loop of \<open>update\<close> on a tornado that stays active, statement by
  statement: the steering (\<open>r\<close> is the value \<open>Math.random()\<close> returns), the
  translation, and the two boundary tests.
\<close>

definition steer :: "real \<Rightarrow> real \<Rightarrow> TornadoEntity \<Rightarrow> TornadoEntity" where
  "steer dt r tornado =
     (let steering = (r * 2 - 1) * 0.6
      in tornado\<lparr>velocity := rotateAround (velocity tornado) (steering * dt * 0.2)\<rparr>)"

definition translate :: "real \<Rightarrow> TornadoEntity \<Rightarrow> TornadoEntity" where
  "translate dt tornado =
     tornado\<lparr>position := (fst (position tornado) + fst (velocity tornado) * dt,
                           snd (position tornado) + snd (velocity tornado) * dt)\<rparr>"

definition reflectX :: "real \<Rightarrow> TornadoEntity \<Rightarrow> TornadoEntity" where
  "reflectX halfW tornado =
     (if fst (position tornado) < - halfW \<or> fst (position tornado) > halfW
      then tornado\<lparr>velocity := (fst (velocity tornado) * (- 1), snd (velocity tornado)),
                   position := (max (- halfW) (min halfW (fst (position tornado))), snd (position tornado))\<rparr>
      else tornado)"

definition reflectZ :: "real \<Rightarrow> TornadoEntity \<Rightarrow> TornadoEntity" where
  "reflectZ halfD tornado =
     (if snd (position tornado) < - halfD \<or> snd (position tornado) > halfD
      then tornado\<lparr>velocity := (fst (velocity tornado), snd (velocity tornado) * (- 1)),
                   position := (fst (position tornado), max (- halfD) (min halfD (snd (position tornado))))\<rparr>
      else tornado)"

definition advanceTornado :: "real \<Rightarrow> real \<Rightarrow> real \<Rightarrow> real \<Rightarrow> TornadoEntity \<Rightarrow> TornadoEntity" where
  "advanceTornado dt halfW halfD r tornado =
     reflectZ halfD (reflectX halfW (translate dt (steer dt r (tornado\<lparr>lifetime := lifetime tornado - dt\<rparr>))))"

definition viewOf :: "TornadoEntity \<Rightarrow> TornadoView" where
  "viewOf tornado =
     \<lparr>view_x = fst (position tornado), view_z = snd (position tornado), view_radius = radius tornado\<rparr>"

text \<open>
  One turn of the loop of \<open>update\<close>, for one tornado. The loop runs from the last
  tornado to the first; the accumulator holds the cursor, the tornadoes kept (in the
  order of the array) and the views pushed so far.
\<close>

definition stepTornado ::
  "real \<Rightarrow> real \<Rightarrow> real \<Rightarrow> (nat \<Rightarrow> real) \<Rightarrow> TornadoEntity
     \<Rightarrow> nat \<times> TornadoEntity list \<times> TornadoView list
     \<Rightarrow> nat \<times> TornadoEntity list \<times> TornadoView list" where
  "stepTornado dt halfW halfD rs tornado acc =
     (let (cursor, kept, results) = acc
      in if lifetime tornado - dt \<le> 0 then (cursor, kept, results)
         else let tornado' = advanceTornado dt halfW halfD (rs cursor) tornado
              in (cursor + 1, tornado' # kept, results @ [viewOf tornado']))"

text \<open>The automatic spawn at the start of \<open>update\<close>: the system and the cursor after it.\<close>

definition autoSpawn ::
  "GridWorld \<Rightarrow> (nat \<Rightarrow> real) \<Rightarrow> TornadoSystem \<Rightarrow> real \<Rightarrow> real \<Rightarrow> bool \<Rightarrow> TornadoSystem \<times> nat" where
  "autoSpawn g rs sys dt intensity allowAutoSpawns =
     (let intensityClamped = max 0 (min 1 intensity)
      in if allowAutoSpawns
         then (if rs 0 < intensityClamped * dt * 0.006
               then (let (view, sys', c') = spawnManual g rs 1 sys None None in (sys', c'))
               else (sys, 1))
         else (sys, 0))"

definition TornadoSystem_update ::
  "GridWorld \<Rightarrow> (nat \<Rightarrow> real) \<Rightarrow> TornadoSystem \<Rightarrow> real \<Rightarrow> real \<Rightarrow> bool
     \<Rightarrow> TornadoView list \<times> TornadoSystem" where
  "TornadoSystem_update g rs sys dt intensity allowAutoSpawns =
     (let (sys1, c1) = autoSpawn g rs sys dt intensity allowAutoSpawns;
          halfW = (real (width g) * tileSize g) / 2;
          halfD = (real (depth g) * tileSize g) / 2;
          (c2, kept, results) = foldr (stepTornado dt halfW halfD rs) (tornadoes sys1) (c1, [], [])
      in (results, sys1\<lparr>tornadoes := kept\<rparr>))"

section \<open>weather/system.ts\<close>

record AppState =
  playing :: bool
  timeScale :: real
  intensity :: real

record WeatherUpdateResult =
  result_tornadoes :: "TornadoView list"
  sirenActive :: bool
  result_dayTimeHours :: real
  destructionPath :: "(int \<times> int) list"
  destructionChanged :: bool
  treesChanged :: bool
  buildingsChanged :: bool

text \<open>
  The weather system with the world it holds. Rain, clouds, lightning and audio are
  written by \<open>update\<close> and read by nothing modelled here.
\<close>

record WeatherSystem =
  world :: GridWorld
  tornadoSystem :: TornadoSystem
  sirenHold :: real
  dayTimeHours :: real
  destroyedTileSet :: "nat set"
  destroyedTiles :: "(int \<times> int) list"

text \<open>The accumulator of the scan of \<open>markDestructionPath\<close>.\<close>

record DestructionScan =
  scan_weather :: WeatherSystem
  scan_changed :: bool
  scan_treesChanged :: bool
  destroyedBuildingIds :: "string list"

definition scanTile :: "TornadoView \<Rightarrow> DestructionScan \<Rightarrow> int \<times> int \<Rightarrow> DestructionScan" where
  "scanTile tornado sc c =
     (let (tx, tz) = c; ws = scan_weather sc; g = world ws
      in if \<not> inBounds g tx tz then sc
         else
           let (wx, wy, wz) = tileToWorld g (real_of_int tx) (real_of_int tz);
               ddx = wx - view_x tornado;
               ddz = wz - view_z tornado;
               distance = sqrt (ddx * ddx + ddz * ddz)
           in if distance > view_radius tornado * 0.78 then sc
              else
                let idx = nat (index g tx tz);
                    isNew = (idx \<notin> destroyedTileSet ws);
                    ws1 = (if isNew
                           then ws\<lparr>destroyedTileSet := insert idx (destroyedTileSet ws),
                                   destroyedTiles := destroyedTiles ws @ [(tx, tz)]\<rparr>
                           else ws);
                    (removed, g1) = removeTreeAt g tx tz;
                    occupant = (case getTile g1 tx tz of Some t \<Rightarrow> occupantId t | None \<Rightarrow> None)
                in sc\<lparr>scan_weather := ws1\<lparr>world := g1\<rparr>,
                       scan_changed := (scan_changed sc \<or> isNew),
                       scan_treesChanged := (scan_treesChanged sc \<or> removed),
                       destroyedBuildingIds :=
                         (if truthy occupant \<and> the occupant \<notin> set (destroyedBuildingIds sc)
                          then destroyedBuildingIds sc @ [the occupant]
                          else destroyedBuildingIds sc)\<rparr>)"

definition scanTornado :: "DestructionScan \<Rightarrow> TornadoView \<Rightarrow> DestructionScan" where
  "scanTornado sc tornado =
     (let g = world (scan_weather sc)
      in case worldToTile g (view_x tornado) (view_z tornado) of
           None \<Rightarrow> sc
         | Some (cx, cz) \<Rightarrow>
             let radiusTiles = max 1 \<lceil>(view_radius tornado * 0.72) / tileSize g\<rceil>
             in foldl (scanTile tornado) sc
                  [(cx + dx, cz + dz). dz \<leftarrow> [- radiusTiles..radiusTiles], dx \<leftarrow> [- radiusTiles..radiusTiles]])"

definition destroyBuilding :: "GridWorld \<times> bool \<Rightarrow> string \<Rightarrow> GridWorld \<times> bool" where
  "destroyBuilding st buildingId =
     (let (g, buildingsChanged) = st
      in if map_of (buildings g) buildingId = None then st
         else let g1 = clearOccupant g buildingId
              in (g1\<lparr>buildings := AList.delete buildingId (buildings g1)\<rparr>, True))"

definition markDestructionPath :: "WeatherSystem \<Rightarrow> TornadoView list \<Rightarrow> (bool \<times> bool \<times> bool) \<times> WeatherSystem" where
  "markDestructionPath ws tornadoViews =
     (let sc = foldl scanTornado
                 \<lparr>scan_weather = ws, scan_changed = False, scan_treesChanged = False,
                  destroyedBuildingIds = []\<rparr>
                 tornadoViews;
          ws1 = scan_weather sc;
          (g1, buildingsChanged) = foldl destroyBuilding (world ws1, False) (destroyedBuildingIds sc)
      in ((scan_changed sc, scan_treesChanged sc, buildingsChanged), ws1\<lparr>world := g1\<rparr>))"

definition SIREN_RADIUS_TILES :: real where
  "SIREN_RADIUS_TILES = 8"

definition GAME_HOURS_PER_SECOND :: real where
  "GAME_HOURS_PER_SECOND = 0.35"

definition tornadoNearBuilding :: "GridWorld \<Rightarrow> TornadoView \<Rightarrow> BuildingRecord \<Rightarrow> bool" where
  "tornadoNearBuilding g tornado building =
     (let radiusWorld = SIREN_RADIUS_TILES * tileSize g;
          (cx, cy, cz) = tileToWorld g
                           (real_of_int (originX building) + real_of_int (building_width building) * 0.5 - 0.5)
                           (real_of_int (originZ building) + real_of_int (building_depth building) * 0.5 - 0.5);
          dx = cx - view_x tornado;
          dz = cz - view_z tornado;
          distance = sqrt (dx * dx + dz * dz)
      in distance \<le> radiusWorld + view_radius tornado)"

definition isAnyTornadoNearTown :: "GridWorld \<Rightarrow> TornadoView list \<Rightarrow> bool" where
  "isAnyTornadoNearTown g tornadoViews =
     (if length tornadoViews = 0 \<or> length (buildings g) = 0 then False
      else list_ex (\<lambda>tornado. list_ex (tornadoNearBuilding g tornado) (map snd (buildings g)))
             tornadoViews)"

text \<open>The remainder \<open>a % b\<close> of JavaScript: the quotient is truncated towards zero.\<close>

definition jsRemainder :: "real \<Rightarrow> real \<Rightarrow> real" where
  "jsRemainder a b = a - b * real_of_int (if a / b < 0 then \<lceil>a / b\<rceil> else \<lfloor>a / b\<rfloor>)"

text \<open>
  The part of \<open>update\<close> between the test of \<open>playing\<close> and the siren: the clock,
  the tornadoes and the destruction path. \<open>rs\<close> holds the values \<open>Math.random()\<close>
  returns to the tornado system; those drawn by rain and lightning are not in it.
\<close>

definition advanceWeather ::
  "WeatherSystem \<Rightarrow> (nat \<Rightarrow> real) \<Rightarrow> real \<Rightarrow> AppState
     \<Rightarrow> TornadoView list \<times> (bool \<times> bool \<times> bool) \<times> WeatherSystem" where
  "advanceWeather ws rs scaledDt st =
     (let ws1 = ws\<lparr>dayTimeHours := jsRemainder (dayTimeHours ws + scaledDt * GAME_HOURS_PER_SECOND) 24\<rparr>;
          (tornadoViews, ts) = TornadoSystem_update (world ws1) rs (tornadoSystem ws1) scaledDt (intensity st) True;
          ws2 = ws1\<lparr>tornadoSystem := ts\<rparr>;
          (flags, ws3) = markDestructionPath ws2 tornadoViews
      in (tornadoViews, flags, ws3))"

definition WeatherSystem_update ::
  "WeatherSystem \<Rightarrow> (nat \<Rightarrow> real) \<Rightarrow> real \<Rightarrow> AppState \<Rightarrow> WeatherUpdateResult \<times> WeatherSystem" where
  "WeatherSystem_update ws rs dt st =
     (let scaledDt = dt * timeScale st
      in if \<not> playing st
         then (\<lparr>result_tornadoes = [], sirenActive = False,
                result_dayTimeHours = dayTimeHours ws,
                destructionPath = destroyedTiles ws,
                destructionChanged = False, treesChanged = False, buildingsChanged = False\<rparr>,
               ws)
         else
           let (tornadoViews, (dChanged, tChanged, bChanged), ws3) = advanceWeather ws rs scaledDt st;
               nearTown = isAnyTornadoNearTown (world ws3) tornadoViews;
               ws4 = ws3\<lparr>sirenHold := (if nearTown then 3 else max 0 (sirenHold ws3 - scaledDt))\<rparr>
           in (\<lparr>result_tornadoes = tornadoViews, sirenActive = (sirenHold ws4 > 0),
                result_dayTimeHours = dayTimeHours ws4,
                destructionPath = destroyedTiles ws4,
                destructionChanged = dChanged, treesChanged = tChanged, buildingsChanged = bChanged\<rparr>,
               ws4))"

text \<open>The value of \<open>nearTown\<close> in a call of \<open>update\<close> while playing.\<close>

definition nearTownIn :: "WeatherSystem \<Rightarrow> (nat \<Rightarrow> real) \<Rightarrow> real \<Rightarrow> AppState \<Rightarrow> bool" where
  "nearTownIn ws rs dt st =
     (let (tornadoViews, flags, ws3) = advanceWeather ws rs (dt * timeScale st) st
      in isAnyTornadoNearTown (world ws3) tornadoViews)"

definition TornadoSystem_new :: TornadoSystem where
  "TornadoSystem_new = \<lparr>tornadoes = [], idCounter = 0\<rparr>"

definition WeatherSystem_new :: "GridWorld \<Rightarrow> WeatherSystem" where
  "WeatherSystem_new g =
     \<lparr>world = g, tornadoSystem = TornadoSystem_new, sirenHold = 0, dayTimeHours = 9,
      destroyedTileSet = {}, destroyedTiles = []\<rparr>"

definition WeatherSystem_reset :: "WeatherSystem \<Rightarrow> WeatherSystem" where
  "WeatherSystem_reset ws =
     ws\<lparr>tornadoSystem := (tornadoSystem ws)\<lparr>tornadoes := []\<rparr>,
        destroyedTileSet := {}, destroyedTiles := [], sirenHold := 0\<rparr>"

section \<open>The tile invariant and the reachable states\<close>

text \<open>
  The invariant of one tile: an occupant only on a foundation, a tree only on grass
  without an occupant.
\<close>

definition tileOk :: "Tile \<Rightarrow> bool" where
  "tileOk t =
     ((occupantId t \<noteq> None \<longrightarrow> tile_type t = Foundation) \<and>
      (treeId t \<noteq> None \<longrightarrow> tile_type t = Grass \<and> occupantId t = None))"

definition tilesOk :: "GridWorld \<Rightarrow> bool" where
  "tilesOk g = list_all tileOk (tiles g)"

text \<open>
  What the operations keep besides: the tile array has \<open>width * depth\<close> entries, the
  reverse index agrees with the tiles' \<open>treeId\<close>, and no tree identifier in use or in
  the base state is the empty string.
\<close>

definition tileInv :: "GridWorld \<Rightarrow> nat \<Rightarrow> bool" where
  "tileInv g i =
     (treeByTile g i = treeId (tiles g ! i) \<and>
      treeId (tiles g ! i) \<noteq> Some [] \<and>
      tileOk (tiles g ! i))"

definition gridInv :: "GridWorld \<Rightarrow> bool" where
  "gridInv g =
     (length (tiles g) = width g * depth g \<and>
      (\<forall>i < length (tiles g). tileInv g i) \<and>
      (\<forall>t \<in> set (baseTrees g). tree_id t \<noteq> []))"

definition treeIdsNonEmpty :: "WorldSnapshot \<Rightarrow> bool" where
  "treeIdsNonEmpty snapshot =
     (case snapshot_trees snapshot of
        None \<Rightarrow> True
      | Some ts \<Rightarrow> list_all (\<lambda>t. tree_id t \<noteq> []) ts)"

definition anySnapshot :: "WorldSnapshot \<Rightarrow> bool" where
  "anySnapshot snapshot = True"

text \<open>
  The states of a weather system (with its world) and a placement counter that a
  sequence of operations reaches from a freshly constructed grid: \<open>apply\<close> with any
  tool and tile, a destruction pass with any tornado views, \<open>resetTiles\<close>, and
  \<open>applySnapshot\<close> with any snapshot that \<open>admissible\<close> accepts.
\<close>

inductive reachable :: "(WorldSnapshot \<Rightarrow> bool) \<Rightarrow> WeatherSystem \<times> int \<Rightarrow> bool"
  for admissible :: "WorldSnapshot \<Rightarrow> bool" where
  fresh: "reachable admissible (WeatherSystem_new (GridWorld_new config), 0)"
| placement:
    "reachable admissible (ws, counter) \<Longrightarrow>
     apply_tool (world ws, counter) tool x z = (res, (g', counter')) \<Longrightarrow>
     reachable admissible (ws\<lparr>world := g'\<rparr>, counter')"
| destruction:
    "reachable admissible (ws, counter) \<Longrightarrow>
     markDestructionPath ws tornadoViews = (flags, ws') \<Longrightarrow>
     reachable admissible (ws', counter)"
| reset:
    "reachable admissible (ws, counter) \<Longrightarrow>
     reachable admissible (ws\<lparr>world := resetTiles (world ws)\<rparr>, counter)"
| restore:
    "reachable admissible (ws, counter) \<Longrightarrow> admissible snapshot \<Longrightarrow>
     reachable admissible (ws\<lparr>world := applySnapshot (world ws) snapshot\<rparr>, counter)"

text \<open>
  What no operation after the construction writes (\<open>frame\<close>), and what the tree
  operations leave alone besides (\<open>landUse\<close>).
\<close>

definition frame ::
  "GridWorld \<Rightarrow> (nat \<times> nat \<times> real \<times> int) \<times> (real list \<times> TileType list \<times> TreeRecord list)
      \<times> (real \<times> real \<times> real \<times> real \<times> real \<times> HillFeature list) \<times> real list" where
  "frame g =
     ((width g, depth g, tileSize g, seed g),
      (heightField g, baseTileTypes g, baseTrees g),
      (streamBaseZ g, streamAmplitude g, streamFrequency g, streamPhase g, streamHalfWidth g, hills g),
      map height (tiles g))"

definition landUse :: "GridWorld \<Rightarrow> (string \<times> BuildingRecord) list \<times> TileType list \<times> string option list" where
  "landUse g = (buildings g, map tile_type (tiles g), map occupantId (tiles g))"

text \<open>
  Whether a tile index lies in the in-bounds footprint of one of the buildings of a
  snapshot.
\<close>

definition coveredBy :: "GridWorld \<Rightarrow> BuildingRecord list \<Rightarrow> nat \<Rightarrow> bool" where
  "coveredBy g bs i =
     (\<exists>b \<in> set bs. \<exists>c \<in> set (footprintCoords (originX b) (originZ b) (building_width b) (building_depth b)).
        inBounds g (fst c) (snd c) \<and> nat (index g (fst c) (snd c)) = i)"

text \<open>
  A 1 by 1 world whose only tile was generated as water, and a snapshot of the same
  size that records the tile as grass under a building.
\<close>

definition pondWorld :: GridWorld where
  "pondWorld =
     \<lparr>width = 1, depth = 1, tileSize = 1, seed = 7,
      tiles = [\<lparr>tile_type = Water, height = - 0.3, occupantId = None, treeId = None\<rparr>],
      heightField = [- 0.3, - 0.3, - 0.3, - 0.3],
      buildings = [], trees = [], treeByTile = Map.empty,
      baseTileTypes = [Water], baseTrees = [],
      streamBaseZ = 0.5, streamAmplitude = 0.1, streamFrequency = 1, streamPhase = 0,
      streamHalfWidth = 1, hills = []\<rparr>"

definition hutSnapshot :: WorldSnapshot where
  "hutSnapshot =
     \<lparr>snapshot_width = 1, snapshot_depth = 1, snapshot_seed = 7,
      tileTypes = [Grass],
      snapshot_trees = Some [\<lparr>tree_id = ''t-0-0'', tree_x = 0, tree_z = 0,
                               trunkHeight = 0.4, crownHeight = 0.7,
                               crownRadius = 0.4, hueOffset = 0\<rparr>],
      snapshot_buildings = [\<lparr>building_id = ''b-1'', building_seed = 1,
                               originX = 0, originZ = 0,
                               building_width = 1, building_depth = 1,
                               baseHeight = 1, roofHeight = 0.5, roofStyle = Hip,
                               wallColor = ''#c8cfb2'', roofColor = ''#b64d3f'',
                               hasChimney = False\<rparr>]\<rparr>"

definition meadowSnapshot :: WorldSnapshot where
  "meadowSnapshot = hutSnapshot\<lparr>snapshot_buildings := []\<rparr>"

text \<open>
  The test of the scan of \<open>markDestructionPath\<close> for one tile: in bounds, and its
  centre no farther from the tornado than \<open>radius * 0.78\<close>.
\<close>

definition reaches :: "GridWorld \<Rightarrow> TornadoView \<Rightarrow> int \<times> int \<Rightarrow> bool" where
  "reaches g tornado c =
     (inBounds g (fst c) (snd c) \<and>
      \<not> sqrt ((fst (tileToWorld g (real_of_int (fst c)) (real_of_int (snd c))) - view_x tornado)
               * (fst (tileToWorld g (real_of_int (fst c)) (real_of_int (snd c))) - view_x tornado)
             + (snd (snd (tileToWorld g (real_of_int (fst c)) (real_of_int (snd c)))) - view_z tornado)
               * (snd (snd (tileToWorld g (real_of_int (fst c)) (real_of_int (snd c)))) - view_z tornado))
          > view_radius tornado * 0.78)"

text \<open>
  A villa: a fresh 3 by 3 world that restores a snapshot with one 3 by 3 building, and
  a tornado of radius 4 at the centre of its footprint.
\<close>

definition villaConfig :: GridConfig where
  "villaConfig = \<lparr>config_width = 3, config_depth = 3, config_tileSize = 1, config_seed = 42\<rparr>"

definition villa :: BuildingRecord where
  "villa =
     \<lparr>building_id = ''b-2a'', building_seed = 42,
      originX = 0, originZ = 0, building_width = 3, building_depth = 3,
      baseHeight = 1, roofHeight = 0.5, roofStyle = Gabled,
      wallColor = ''#c8cfb2'', roofColor = ''#b64d3f'', hasChimney = True\<rparr>"

definition villaSnapshot :: WorldSnapshot where
  "villaSnapshot =
     \<lparr>snapshot_width = 3, snapshot_depth = 3, snapshot_seed = 42,
      tileTypes = replicate 9 Grass,
      snapshot_trees = Some [\<lparr>tree_id = ''t-0-0'', tree_x = 0, tree_z = 0,
                               trunkHeight = 0.4, crownHeight = 0.7,
                               crownRadius = 0.4, hueOffset = 0\<rparr>],
      snapshot_buildings = [villa]\<rparr>"

definition villaWeather :: WeatherSystem where
  "villaWeather = WeatherSystem_new (applySnapshot (GridWorld_new villaConfig) villaSnapshot)"


text \<open>
  Two tornadoes over the town: one at the eastern edge heading outwards, one about
  to expire; and a \<open>Math.random()\<close> that always returns one half, so that the
  steering is zero.
\<close>

definition edgeTornado :: TornadoEntity where
  "edgeTornado = \<lparr>tornado_id = 1, position = (2, 0), velocity = (1, 0), radius = 3, lifetime = 10\<rparr>"

definition fadingTornado :: TornadoEntity where
  "fadingTornado = \<lparr>tornado_id = 2, position = (0, 0), velocity = (0, 1 / 2), radius = 3, lifetime = 3 / 10\<rparr>"

definition stormSystem :: TornadoSystem where
  "stormSystem = \<lparr>tornadoes = [edgeTornado, fadingTornado], idCounter = 2\<rparr>"

definition calm :: "nat \<Rightarrow> real" where
  "calm k = 1 / 2"

text \<open>
  A run of \<open>update\<close>: one triple per call, with the values of \<open>Math.random()\<close>, the
  frame time and the state of the application. \<open>weatherBefore ws ticks k\<close> is the
  weather system at the start of call \<open>k\<close>.
\<close>

type_synonym Tick = "(nat \<Rightarrow> real) \<times> real \<times> AppState"

definition tick :: "WeatherSystem \<Rightarrow> Tick \<Rightarrow> WeatherSystem" where
  "tick ws t = (let (rs, dt, st) = t in snd (WeatherSystem_update ws rs dt st))"

definition weatherBefore :: "WeatherSystem \<Rightarrow> Tick list \<Rightarrow> nat \<Rightarrow> WeatherSystem" where
  "weatherBefore ws ticks k = foldl tick ws (take k ticks)"

definition sirenAt :: "WeatherSystem \<Rightarrow> Tick list \<Rightarrow> nat \<Rightarrow> bool" where
  "sirenAt ws ticks k =
     (let (rs, dt, st) = ticks ! k
      in sirenActive (fst (WeatherSystem_update (weatherBefore ws ticks k) rs dt st)))"

definition nearAt :: "WeatherSystem \<Rightarrow> Tick list \<Rightarrow> nat \<Rightarrow> bool" where
  "nearAt ws ticks k =
     (let (rs, dt, st) = ticks ! k in nearTownIn (weatherBefore ws ticks k) rs dt st)"

definition scaledDtAt :: "Tick list \<Rightarrow> nat \<Rightarrow> real" where
  "scaledDtAt ticks k = (let (rs, dt, st) = ticks ! k in dt * timeScale st)"

definition playingAt :: "Tick list \<Rightarrow> nat \<Rightarrow> bool" where
  "playingAt ticks k = (let (rs, dt, st) = ticks ! k in playing st)"

text \<open>
  The villa with a tornado standing on the eastern edge of its world, outside every
  tile, that lasts one second and a half; and three calls of \<open>update\<close> at time
  scale 1 and intensity 0, of one, one and two seconds.
\<close>

definition lateTornado :: TornadoEntity where
  "lateTornado = \<lparr>tornado_id = 1, position = (3 / 2, 0), velocity = (0, 0), radius = 3, lifetime = 3 / 2\<rparr>"

definition alarmWeather :: WeatherSystem where
  "alarmWeather = villaWeather\<lparr>tornadoSystem := \<lparr>tornadoes = [lateTornado], idCounter = 1\<rparr>\<rparr>"

definition fairState :: AppState where
  "fairState = \<lparr>playing = True, timeScale = 1, intensity = 0\<rparr>"

definition alarmTicks :: "Tick list" where
  "alarmTicks = [(calm, 1, fairState), (calm, 1, fairState), (calm, 2, fairState)]"

text \<open>
  When the registries and the tiles of a world agree. A tree is registered under its
  own identifier, in bounds, on a grass tile that carries the identifier; a building
  is registered under its own identifier, and the tiles of its footprint that are in
  bounds are foundations; no grass tile lies where the base state has water, unless
  some tile is water (the water repair of \<open>applySnapshot\<close> then has nothing to do).
  The keys of a \<open>Map\<close> are distinct.
\<close>

definition treeTile :: "GridWorld \<Rightarrow> TreeRecord \<Rightarrow> nat" where
  "treeTile g r = nat (index g (tree_x r) (tree_z r))"

definition treeOk :: "GridWorld \<Rightarrow> string \<times> TreeRecord \<Rightarrow> bool" where
  "treeOk g e =
     (tree_id (snd e) = fst e \<and>
      inBounds g (tree_x (snd e)) (tree_z (snd e)) \<and>
      treeId (tiles g ! treeTile g (snd e)) = Some (fst e) \<and>
      tile_type (tiles g ! treeTile g (snd e)) = Grass)"

definition footprint :: "BuildingRecord \<Rightarrow> (int \<times> int) list" where
  "footprint b = footprintCoords (originX b) (originZ b) (building_width b) (building_depth b)"

definition buildingOk :: "GridWorld \<Rightarrow> string \<times> BuildingRecord \<Rightarrow> bool" where
  "buildingOk g e =
     (building_id (snd e) = fst e \<and>
      list_all (\<lambda>c. \<not> inBounds g (fst c) (snd c) \<or>
                     tile_type (tiles g ! nat (index g (fst c) (snd c))) = Foundation)
        (footprint (snd e)))"

definition repairFree :: "GridWorld \<Rightarrow> bool" where
  "repairFree g =
     (Water \<in> set (map tile_type (tiles g)) \<or>
      list_all (\<lambda>i. \<not> (tile_type (tiles g ! i) = Grass \<and> elementAt (baseTileTypes g) i = Some Water))
        [0..<length (tiles g)])"

definition consistent :: "GridWorld \<Rightarrow> bool" where
  "consistent g =
     (length (tiles g) = width g * depth g \<and>
      repairFree g \<and>
      distinct (map fst (trees g)) \<and> list_all (treeOk g) (trees g) \<and>
      distinct (map fst (buildings g)) \<and> list_all (buildingOk g) (buildings g))"

text \<open>
  A fresh 1 by 1 world that restores a snapshot with two buildings on its only tile,
  and then erases at that tile: the second building goes, the first stays registered.
\<close>

definition plotConfig :: GridConfig where
  "plotConfig = \<lparr>config_width = 1, config_depth = 1, config_tileSize = 1, config_seed = 42\<rparr>"

definition cottage :: BuildingRecord where
  "cottage =
     \<lparr>building_id = ''b-1'', building_seed = 1,
      originX = 0, originZ = 0, building_width = 1, building_depth = 1,
      baseHeight = 1, roofHeight = 0.5, roofStyle = Hip,
      wallColor = ''#c8cfb2'', roofColor = ''#b64d3f'', hasChimney = False\<rparr>"

definition overlapSnapshot :: WorldSnapshot where
  "overlapSnapshot =
     \<lparr>snapshot_width = 1, snapshot_depth = 1, snapshot_seed = 42,
      tileTypes = [Road],
      snapshot_trees = None,
      snapshot_buildings = [cottage, cottage\<lparr>building_id := ''b-2''\<rparr>]\<rparr>"

definition overlapRun :: "WeatherSystem \<times> int" where
  "overlapRun =
     (let ws0 = WeatherSystem_new (GridWorld_new plotConfig);
          ws1 = ws0\<lparr>world := applySnapshot (world ws0) overlapSnapshot\<rparr>;
          (res, (g2, counter2)) = apply_tool (world ws1, 0) Erase 0 0
      in (ws1\<lparr>world := g2\<rparr>, counter2))"

text \<open>
  A fresh 3 by 1 world that restores a snapshot with a tree on its first tile, water
  on the second and a building on the third.
\<close>

definition rowConfig :: GridConfig where
  "rowConfig = \<lparr>config_width = 3, config_depth = 1, config_tileSize = 1, config_seed = 42\<rparr>"

definition rowSnapshot :: WorldSnapshot where
  "rowSnapshot =
     \<lparr>snapshot_width = 3, snapshot_depth = 1, snapshot_seed = 42,
      tileTypes = [Grass, Water, Grass],
      snapshot_trees = Some [\<lparr>tree_id = ''t-0-0'', tree_x = 0, tree_z = 0,
                               trunkHeight = 0.4, crownHeight = 0.7,
                               crownRadius = 0.4, hueOffset = 0\<rparr>],
      snapshot_buildings = [cottage\<lparr>originX := 2\<rparr>]\<rparr>"

definition rowWorld :: GridWorld where
  "rowWorld = applySnapshot (GridWorld_new rowConfig) rowSnapshot"

text \<open>
  The frame time of a call, in seconds, as \<open>update\<close> receives it; and four calls of a
  quarter of a second at time scale 4.
\<close>

definition dtAt :: "Tick list \<Rightarrow> nat \<Rightarrow> real" where
  "dtAt ticks k = (let (rs, dt, st) = ticks ! k in dt)"

definition fastState :: AppState where
  "fastState = \<lparr>playing = True, timeScale = 4, intensity = 0\<rparr>"

definition fastTicks :: "Tick list" where
  "fastTicks = [(calm, 1 / 4, fastState), (calm, 1 / 4, fastState),
                (calm, 1 / 4, fastState), (calm, 1 / 4, fastState)]"

section \<open>Example runs\<close>

text \<open>
  A town: a fresh 4 by 4 world, a house, a road, a destruction pass, a restored
  snapshot with one tree, and a reset.
\<close>

definition townConfig :: GridConfig where
  "townConfig = \<lparr>config_width = 4, config_depth = 4, config_tileSize = 1, config_seed = 42\<rparr>"

definition oneTreeSnapshot :: WorldSnapshot where
  "oneTreeSnapshot =
     \<lparr>snapshot_width = 4, snapshot_depth = 4, snapshot_seed = 42,
      tileTypes = replicate 16 Grass,
      snapshot_trees = Some [\<lparr>tree_id = ''t-0-0'', tree_x = 0, tree_z = 0,
                               trunkHeight = 0.4, crownHeight = 0.7,
                               crownRadius = 0.4, hueOffset = 0\<rparr>],
      snapshot_buildings = []\<rparr>"

definition townRun :: "WeatherSystem \<times> int" where
  "townRun =
     (let ws0 = WeatherSystem_new (GridWorld_new townConfig);
          pc1 = snd (apply_tool (world ws0, 0) House 1 1);
          pc2 = snd (apply_tool pc1 RoadTool 3 3);
          ws2 = ws0\<lparr>world := fst pc2\<rparr>;
          ws3 = snd (markDestructionPath ws2 [\<lparr>view_x = 0, view_z = 0, view_radius = 3\<rparr>]);
          ws4 = ws3\<lparr>world := applySnapshot (world ws3) oneTreeSnapshot\<rparr>
      in (ws4\<lparr>world := resetTiles (world ws4)\<rparr>, snd pc2))"

text \<open>
  A fresh 2 by 1 world that restores a snapshot with a tree whose identifier is the
  empty string, under a building. (The second tile type of the snapshot is water, so
  the water repair does not run.)
\<close>

definition stripConfig :: GridConfig where
  "stripConfig = \<lparr>config_width = 2, config_depth = 1, config_tileSize = 1, config_seed = 42\<rparr>"

definition emptyIdSnapshot :: WorldSnapshot where
  "emptyIdSnapshot =
     \<lparr>snapshot_width = 2, snapshot_depth = 1, snapshot_seed = 42,
      tileTypes = [Grass, Water],
      snapshot_trees = Some [\<lparr>tree_id = [], tree_x = 0, tree_z = 0,
                               trunkHeight = 0.4, crownHeight = 0.7,
                               crownRadius = 0.4, hueOffset = 0\<rparr>],
      snapshot_buildings = [\<lparr>building_id = ''b-1'', building_seed = 1,
                               originX = 0, originZ = 0,
                               building_width = 1, building_depth = 1,
                               baseHeight = 1, roofHeight = 0.5, roofStyle = Hip,
                               wallColor = ''#c8cfb2'', roofColor = ''#b64d3f'',
                               hasChimney = False\<rparr>]\<rparr>"

definition emptyIdRun :: "WeatherSystem \<times> int" where
  "emptyIdRun =
     (let ws0 = WeatherSystem_new (GridWorld_new stripConfig)
      in (ws0\<lparr>world := applySnapshot (world ws0) emptyIdSnapshot\<rparr>, 0))"

section \<open>Properties of the generator\<close>

text \<open>
  C10. The seeds \<open>0\<close> and \<open>0x9e3779b9\<close> are different, and the generators built
  from them return the same value at every call: the constructor replaces the zero
  state by \<open>0x9e3779b9\<close>, which is the state the other seed starts from.
\<close>

theorem C10_zero_seed_collides:
  "(0::int) \<noteq> 0x9e3779b9 \<and>
   SeededRng_new 0 = SeededRng_new 0x9e3779b9 \<and>
   (\<forall>n. SeededRng_output (SeededRng_new 0) n = SeededRng_output (SeededRng_new 0x9e3779b9) n)"
  by (simp add: SeededRng_new_def)

section \<open>The grid\<close>

section \<open>Frame\<close>

lemma frame_fields:
  assumes "frame g' = frame g"
  shows "width g' = width g" "depth g' = depth g" "tileSize g' = tileSize g" "seed g' = seed g"
    "heightField g' = heightField g" "baseTileTypes g' = baseTileTypes g" "baseTrees g' = baseTrees g"
    "streamBaseZ g' = streamBaseZ g" "streamAmplitude g' = streamAmplitude g"
    "streamFrequency g' = streamFrequency g" "streamPhase g' = streamPhase g"
    "streamHalfWidth g' = streamHalfWidth g" "hills g' = hills g"
    "map height (tiles g') = map height (tiles g)"
  using assms by (simp_all add: frame_def)

lemma frame_length:
  "frame g' = frame g \<Longrightarrow> length (tiles g') = length (tiles g)"
  by (drule frame_fields(14)) (rule map_eq_imp_length_eq)

lemma frame_inBounds:
  "frame g' = frame g \<Longrightarrow> inBounds g' = inBounds g"
  by (simp add: inBounds_def fun_eq_iff frame_def)

lemma frame_index:
  "frame g' = frame g \<Longrightarrow> index g' = index g"
  by (simp add: index_def fun_eq_iff frame_def)

lemma frame_tileCoords:
  "frame g' = frame g \<Longrightarrow> tileCoords g' = tileCoords g"
  by (simp add: tileCoords_def frame_def)

lemma landUse_fields:
  assumes "landUse g' = landUse g"
  shows "buildings g' = buildings g" "map tile_type (tiles g') = map tile_type (tiles g)"
    "map occupantId (tiles g') = map occupantId (tiles g)"
  using assms by (simp_all add: landUse_def)

lemma foldl_keeps:
  assumes "\<And>a x. h (f a x) = h a"
  shows "h (foldl f a xs) = h a"
  by (induction xs arbitrary: a) (simp_all add: assms)

lemma map_update_same:
  assumes "f v = f (xs ! i)"
  shows "map f (xs[i := v]) = map f xs"
proof (cases "i < length xs")
  case True
  then have "(map f xs)[i := f (xs ! i)] = map f xs"
    by (metis list_update_id nth_map)
  then show ?thesis using assms by (simp add: map_update)
next
  case False
  then have "xs[i := v] = xs" by (simp add: list_update_beyond)
  then show ?thesis by simp
qed

lemma modifyTile_fields [simp]:
  "tiles (modifyTile i f g) = (tiles g)[i := f (tiles g ! i)]"
  "width (modifyTile i f g) = width g"
  "depth (modifyTile i f g) = depth g"
  "buildings (modifyTile i f g) = buildings g"
  "trees (modifyTile i f g) = trees g"
  "treeByTile (modifyTile i f g) = treeByTile g"
  "baseTileTypes (modifyTile i f g) = baseTileTypes g"
  "baseTrees (modifyTile i f g) = baseTrees g"
  by (simp_all add: modifyTile_def)

lemma modifyTile_frame:
  "height (f (tiles g ! i)) = height (tiles g ! i) \<Longrightarrow> frame (modifyTile i f g) = frame g"
  by (simp add: frame_def modifyTile_def map_update_same)

lemma modifyTile_landUse:
  "tile_type (f (tiles g ! i)) = tile_type (tiles g ! i) \<Longrightarrow>
   occupantId (f (tiles g ! i)) = occupantId (tiles g ! i) \<Longrightarrow>
   landUse (modifyTile i f g) = landUse g"
  by (simp add: landUse_def map_update_same)

lemma removeTreeAt_frame [simp]: "frame (snd (removeTreeAt g x z)) = frame g"
  by (simp add: removeTreeAt_def Let_def modifyTile_frame) (simp add: frame_def)

lemma removeTreeAt_landUse [simp]: "landUse (snd (removeTreeAt g x z)) = landUse g"
  by (simp add: removeTreeAt_def Let_def modifyTile_landUse) (simp add: landUse_def)

lemma addTree_frame [simp]: "frame (addTree g t) = frame g"
  by (simp add: addTree_def Let_def modifyTile_frame split: option.split) (simp add: frame_def)

lemma addTree_landUse [simp]: "landUse (addTree g t) = landUse g"
  by (simp add: addTree_def Let_def modifyTile_landUse split: option.split) (simp add: landUse_def)

lemma clearTrees_frame [simp]: "frame (clearTrees g) = frame g"
  by (simp add: clearTrees_def frame_def comp_def)

lemma clearTrees_landUse [simp]: "landUse (clearTrees g) = landUse g"
  by (simp add: clearTrees_def landUse_def comp_def)

lemma clearOccupant_frame [simp]: "frame (clearOccupant g b) = frame g"
  by (simp add: clearOccupant_def frame_def comp_def clearOccupantTile_def)


section \<open>The invariant\<close>

lemma index_bound:
  assumes "inBounds g x z"
  shows "nat (index g x z) < width g * depth g"
proof -
  from assms have x: "0 \<le> x" "x < int (width g)" and z: "0 \<le> z" "z < int (depth g)"
    by (simp_all add: inBounds_def)
  have "z + 1 \<le> int (depth g)" using z by simp
  then have "(z + 1) * int (width g) \<le> int (depth g) * int (width g)"
    by (rule mult_right_mono) simp
  then have "z * int (width g) + x < int (depth g) * int (width g)"
    using x by (simp add: algebra_simps)
  moreover have "0 \<le> z * int (width g) + x" using x z by simp
  ultimately show ?thesis
    by (simp add: index_def nat_less_iff mult.commute)
qed

lemma gridInv_index:
  "gridInv g \<Longrightarrow> inBounds g x z \<Longrightarrow> nat (index g x z) < length (tiles g)"
  using index_bound by (simp add: gridInv_def)

lemma gridInv_tile:
  "gridInv g \<Longrightarrow> i < length (tiles g) \<Longrightarrow> tileInv g i"
  by (simp add: gridInv_def)

lemma gridInvI:
  assumes "length (tiles g) = width g * depth g"
    and "\<And>i. i < length (tiles g) \<Longrightarrow> tileInv g i"
    and "\<And>t. t \<in> set (baseTrees g) \<Longrightarrow> tree_id t \<noteq> []"
  shows "gridInv g"
  using assms by (simp add: gridInv_def)

lemma gridInv_frame:
  assumes "gridInv g" and "frame g' = frame g"
    and "\<And>i. i < length (tiles g) \<Longrightarrow> tileInv g i \<Longrightarrow> tileInv g' i"
  shows "gridInv g'"
proof (rule gridInvI)
  show "length (tiles g') = width g' * depth g'"
    using assms(1) frame_length [OF assms(2)] frame_fields(1,2) [OF assms(2)]
    by (simp add: gridInv_def)
  show "tileInv g' i" if "i < length (tiles g')" for i
    using that assms(1,3) frame_length [OF assms(2)] by (simp add: gridInv_def)
  show "tree_id t \<noteq> []" if "t \<in> set (baseTrees g')" for t
    using that assms(1) frame_fields(7) [OF assms(2)] by (simp add: gridInv_def)
qed

text \<open>A tile that passes the test \<open>type = grass\<close> has no occupant.\<close>

lemma tileOk_grass_no_occupant:
  "tileOk t \<Longrightarrow> tile_type t = Grass \<Longrightarrow> occupantId t = None"
  by (auto simp: tileOk_def)

lemma removeTreeAt_eq:
  "snd (removeTreeAt g x z) =
     (if inBounds g x z \<and> truthy (treeByTile g (nat (index g x z)))
      then modifyTile (nat (index g x z)) (\<lambda>t. t\<lparr>treeId := None\<rparr>)
             (g\<lparr>treeByTile := (treeByTile g)(nat (index g x z) := None),
                trees := AList.delete (the (treeByTile g (nat (index g x z)))) (trees g)\<rparr>)
      else g)"
  by (simp add: removeTreeAt_def Let_def)

lemma removeTreeAt_inv:
  assumes "gridInv g"
  shows "gridInv (snd (removeTreeAt g x z))"
proof (rule gridInv_frame [OF assms])
  fix i assume "i < length (tiles g)" and "tileInv g i"
  then show "tileInv (snd (removeTreeAt g x z)) i"
    by (auto simp: removeTreeAt_eq tileInv_def tileOk_def nth_list_update)
qed simp

lemma removeTreeAt_clears:
  assumes "gridInv g" and "inBounds g x z"
  shows "treeId (tiles (snd (removeTreeAt g x z)) ! nat (index g x z)) = None"
proof -
  let ?i = "nat (index g x z)"
  have i: "?i < length (tiles g)" using assms gridInv_index by blast
  from gridInv_tile [OF assms(1) i] have "treeByTile g ?i = treeId (tiles g ! ?i)"
    and "treeId (tiles g ! ?i) \<noteq> Some []"
    by (simp_all add: tileInv_def)
  then show ?thesis
    using i assms(2) by (cases "treeId (tiles g ! ?i)") (simp_all add: removeTreeAt_eq truthy_def)
qed

lemma map_eq_nth:
  assumes "map f xs = map f ys" and "i < length ys"
  shows "f (xs ! i) = f (ys ! i)"
proof -
  have len: "length xs = length ys"
    using assms(1) by (rule map_eq_imp_length_eq)
  have "f (xs ! i) = map f xs ! i" using assms(2) len by simp
  also have "\<dots> = map f ys ! i" by (simp only: assms(1))
  also have "\<dots> = f (ys ! i)" using assms(2) by simp
  finally show ?thesis .
qed

lemma landUse_nth:
  assumes "landUse g' = landUse g" and "i < length (tiles g)"
  shows "tile_type (tiles g' ! i) = tile_type (tiles g ! i)"
    and "occupantId (tiles g' ! i) = occupantId (tiles g ! i)"
proof -
  have m: "map tile_type (tiles g') = map tile_type (tiles g)"
    "map occupantId (tiles g') = map occupantId (tiles g)"
    using assms(1) by (simp_all add: landUse_def)
  show "tile_type (tiles g' ! i) = tile_type (tiles g ! i)"
    using m(1) assms(2) by (rule map_eq_nth)
  show "occupantId (tiles g' ! i) = occupantId (tiles g ! i)"
    using m(2) assms(2) by (rule map_eq_nth)
qed

lemma addTree_rejected:
  "\<not> inBounds g (tree_x t) (tree_z t) \<or>
   tile_type (tiles g ! nat (index g (tree_x t) (tree_z t))) \<noteq> Grass \<or>
   truthy (occupantId (tiles g ! nat (index g (tree_x t) (tree_z t)))) \<Longrightarrow>
   addTree g t = g"
  by (auto simp: addTree_def getTile_def)

lemma addTree_accepted:
  assumes "inBounds g (tree_x t) (tree_z t)"
    and "tile_type (tiles g ! nat (index g (tree_x t) (tree_z t))) = Grass"
    and "\<not> truthy (occupantId (tiles g ! nat (index g (tree_x t) (tree_z t))))"
  shows "addTree g t =
     modifyTile (nat (index g (tree_x t) (tree_z t))) (\<lambda>u. u\<lparr>treeId := Some (tree_id t)\<rparr>)
       (g\<lparr>treeByTile := (treeByTile g)(nat (index g (tree_x t) (tree_z t)) \<mapsto> tree_id t),
          trees := AList.update (tree_id t) t
            (if truthy (treeByTile g (nat (index g (tree_x t) (tree_z t))))
             then AList.delete (the (treeByTile g (nat (index g (tree_x t) (tree_z t))))) (trees g)
             else trees g)\<rparr>)"
  using assms by (simp add: addTree_def getTile_def Let_def modifyTile_def)

lemma addTree_inv:
  assumes "gridInv g" and ne: "tree_id t \<noteq> []"
  shows "gridInv (addTree g t)"
proof (rule gridInv_frame [OF assms(1)])
  fix i assume i: "i < length (tiles g)" and inv: "tileInv g i"
  let ?idx = "nat (index g (tree_x t) (tree_z t))"
  show "tileInv (addTree g t) i"
  proof (cases "inBounds g (tree_x t) (tree_z t) \<and> tile_type (tiles g ! ?idx) = Grass
         \<and> \<not> truthy (occupantId (tiles g ! ?idx))")
    case False
    then have "addTree g t = g" by (intro addTree_rejected) blast
    then show ?thesis using inv by simp
  next
    case True
    then have T: "inBounds g (tree_x t) (tree_z t)" "tile_type (tiles g ! ?idx) = Grass"
      "\<not> truthy (occupantId (tiles g ! ?idx))" by simp_all
    show ?thesis
    proof (cases "i = ?idx")
      case False
      then show ?thesis using inv i
        by (simp add: addTree_accepted [OF T] tileInv_def)
    next
      case eq: True
      from inv eq have "tileOk (tiles g ! ?idx)"
        by (simp add: tileInv_def)
      then have "occupantId (tiles g ! ?idx) = None"
        using T(2) by (rule tileOk_grass_no_occupant)
      then show ?thesis using T(2) i ne unfolding eq
        by (simp add: addTree_accepted [OF T] tileInv_def tileOk_def)
    qed
  qed
qed simp

lemma foldl_addTree_inv:
  "gridInv g \<Longrightarrow> \<forall>t \<in> set ts. tree_id t \<noteq> [] \<Longrightarrow> gridInv (foldl addTree g ts)"
  by (induction ts arbitrary: g) (simp_all add: addTree_inv)

lemma clearTrees_inv:
  assumes "length (tiles g) = width g * depth g"
    and "\<forall>t \<in> set (baseTrees g). tree_id t \<noteq> []"
    and "\<forall>t \<in> set (tiles g). occupantId t \<noteq> None \<longrightarrow> tile_type t = Foundation"
  shows "gridInv (clearTrees g)"
  using assms by (simp add: gridInv_def clearTrees_def tileInv_def tileOk_def)

lemma gridInv_occupants:
  assumes "gridInv g" and "t \<in> set (tiles g)" and "occupantId t \<noteq> None"
  shows "tile_type t = Foundation"
proof -
  from assms(2) obtain i where "i < length (tiles g)" "t = tiles g ! i"
    by (auto simp: in_set_conv_nth)
  with gridInv_tile [OF assms(1)] assms(3) show ?thesis
    by (simp add: tileInv_def tileOk_def)
qed

lemma clearOccupant_inv:
  assumes "gridInv g"
  shows "gridInv (clearOccupant g b)"
proof (rule gridInv_frame [OF assms])
  fix i assume "i < length (tiles g)" and "tileInv g i"
  then show "tileInv (clearOccupant g b) i"
    by (simp add: clearOccupant_def clearOccupantTile_def tileInv_def tileOk_def)
qed simp

lemma gridInv_modifyTile:
  assumes "gridInv g" and "i < length (tiles g)"
    and "treeId (f (tiles g ! i)) = treeId (tiles g ! i)"
    and "height (f (tiles g ! i)) = height (tiles g ! i)"
    and "tileOk (f (tiles g ! i))"
  shows "gridInv (modifyTile i f g)"
proof (rule gridInv_frame [OF assms(1)])
  show "frame (modifyTile i f g) = frame g"
    using assms(4) by (rule modifyTile_frame)
  fix j assume "j < length (tiles g)" and "tileInv g j"
  then show "tileInv (modifyTile i f g) j"
    using assms(3,5) by (cases "j = i") (simp_all add: tileInv_def)
qed

lemma gridInv_buildings [simp]:
  "gridInv (g\<lparr>buildings := bs\<rparr>) = gridInv g"
  by (simp add: gridInv_def tileInv_def)

lemma frame_buildings [simp]:
  "frame (g\<lparr>buildings := bs\<rparr>) = frame g"
  by (simp add: frame_def)

text \<open>Tree generation.\<close>

lemma generateTreeAt_cases:
  "fst (generateTreeAt (g, rng) c) = g \<or>
   (\<exists>tree. tree_id tree \<noteq> [] \<and> fst (generateTreeAt (g, rng) c) = addTree g tree)"
proof -
  obtain x z where c: "c = (x, z)" by (cases c)
  have grown: "addTree g tree = g \<or> (\<exists>t. tree_id t \<noteq> [] \<and> addTree g tree = addTree g t)"
    if "tree_id tree \<noteq> []" for tree
    using that by blast
  show ?thesis
    unfolding c generateTreeAt_def
    by (simp add: Let_def grown split: option.split prod.split)
qed

lemma generateTreeAt_inv:
  assumes "gridInv (fst st)"
  shows "gridInv (fst (generateTreeAt st c))"
proof -
  obtain g rng where st: "st = (g, rng)" by (cases st)
  from generateTreeAt_cases [of g rng c] assms show ?thesis
    unfolding st by (auto simp: addTree_inv)
qed

lemma generateTreeAt_frame [simp]: "frame (fst (generateTreeAt st c)) = frame (fst st)"
proof -
  obtain g rng where st: "st = (g, rng)" by (cases st)
  from generateTreeAt_cases [of g rng c] show ?thesis
    unfolding st by auto
qed

lemma generateTreeAt_landUse [simp]: "landUse (fst (generateTreeAt st c)) = landUse (fst st)"
proof -
  obtain g rng where st: "st = (g, rng)" by (cases st)
  from generateTreeAt_cases [of g rng c] show ?thesis
    unfolding st by auto
qed

lemma foldl_generateTreeAt_inv:
  "gridInv (fst st) \<Longrightarrow> gridInv (fst (foldl generateTreeAt st cs))"
  by (induction cs arbitrary: st) (simp_all add: generateTreeAt_inv)

lemma generateTrees_frame [simp]: "frame (generateTrees g) = frame g"
proof -
  have "frame (fst (foldl generateTreeAt st cs)) = frame (fst st)" for st cs
    by (rule foldl_keeps [where h = "\<lambda>s. frame (fst s)"]) simp
  then show ?thesis by (simp add: generateTrees_def Let_def)
qed

lemma generateTrees_landUse [simp]: "landUse (generateTrees g) = landUse g"
proof -
  have "landUse (fst (foldl generateTreeAt st cs)) = landUse (fst st)" for st cs
    by (rule foldl_keeps [where h = "\<lambda>s. landUse (fst s)"]) simp
  then show ?thesis by (simp add: generateTrees_def Let_def)
qed

lemma generateTrees_inv:
  assumes "gridInv g"
  shows "gridInv (generateTrees g)"
proof -
  have "gridInv (clearTrees g)"
    using assms gridInv_occupants [OF assms]
    by (intro clearTrees_inv) (auto simp: gridInv_def)
  then show ?thesis
    by (simp add: generateTrees_def Let_def foldl_generateTreeAt_inv)
qed

lemma foldl_addTree_frame [simp]: "frame (foldl addTree g ts) = frame g"
  by (rule foldl_keeps) simp

lemma foldl_addTree_landUse [simp]: "landUse (foldl addTree g ts) = landUse g"
  by (rule foldl_keeps) simp

text \<open>Claiming a tile for a building: the loop bodies of \<open>applySnapshot\<close> and \<open>placeHouse\<close>.\<close>

lemma occupyTile_eq: "occupyTile b g c = claimTile b g c"
  by (cases c) (simp add: occupyTile_def claimTile_def getTile_def)

lemma claimTile_frame [simp]: "frame (claimTile b g c) = frame g"
  by (cases c) (simp add: claimTile_def modifyTile_frame)

lemma claimTile_inv:
  assumes "gridInv g"
  shows "gridInv (claimTile b g c)"
proof -
  obtain tx tz where c: "c = (tx, tz)" by (cases c)
  show ?thesis
  proof (cases "inBounds g tx tz")
    case False
    then show ?thesis using assms by (simp add: c claimTile_def)
  next
    case True
    let ?g = "snd (removeTreeAt g tx tz)"
    let ?i = "nat (index g tx tz)"
    have inv: "gridInv ?g" using assms by (rule removeTreeAt_inv)
    have len: "?i < length (tiles ?g)"
      using gridInv_index [OF assms True] frame_length [OF removeTreeAt_frame, of g tx tz] by simp
    have none: "treeId (tiles ?g ! ?i) = None"
      using assms True by (rule removeTreeAt_clears)
    have "gridInv (modifyTile ?i (\<lambda>t. t\<lparr>tile_type := Foundation, occupantId := Some b\<rparr>) ?g)"
      using inv len by (rule gridInv_modifyTile) (simp_all add: none tileOk_def)
    then show ?thesis using True by (simp add: c claimTile_def)
  qed
qed

lemma foldl_claimTile_inv:
  "gridInv g \<Longrightarrow> gridInv (foldl (claimTile b) g cs)"
  by (induction cs arbitrary: g) (simp_all add: claimTile_inv)

lemma restoreBuilding_inv:
  "gridInv g \<Longrightarrow> gridInv (restoreBuilding g b)"
  by (simp add: restoreBuilding_def foldl_claimTile_inv)

lemma foldl_restoreBuilding_inv:
  "gridInv g \<Longrightarrow> gridInv (foldl restoreBuilding g bs)"
  by (induction bs arbitrary: g) (simp_all add: restoreBuilding_inv)

text \<open>The tile loop and the water repair of \<open>applySnapshot\<close>.\<close>

lemma restoreTileTypes_inv:
  assumes "length (tiles g) = width g * depth g"
    and "\<forall>t \<in> set (baseTrees g). tree_id t \<noteq> []"
    and "treeByTile g = Map.empty"
  shows "gridInv (restoreTileTypes s g)"
  using assms by (simp add: gridInv_def restoreTileTypes_def restoreTile_def tileInv_def tileOk_def)

lemma restoreTileTypes_bare:
  "t \<in> set (tiles (restoreTileTypes s g)) \<Longrightarrow> occupantId t = None \<and> treeId t = None"
  by (auto simp: restoreTileTypes_def restoreTile_def)

lemma repairWater_inv:
  assumes "gridInv g"
    and "\<forall>t \<in> set (tiles g). occupantId t = None \<and> treeId t = None"
  shows "gridInv (repairWater s g)"
proof (cases "\<exists>ty \<in> set (tileTypes s). ty = Water")
  case True
  then show ?thesis using assms(1) by (simp add: repairWater_def)
next
  case False
  have "tileInv (g\<lparr>tiles := map (repairTile g) [0..<length (tiles g)]\<rparr>) i"
    if "i < length (tiles g)" for i
    using that gridInv_tile [OF assms(1) that] assms(2)
    by (simp add: tileInv_def repairTile_def tileOk_def)
  then have "gridInv (g\<lparr>tiles := map (repairTile g) [0..<length (tiles g)]\<rparr>)"
    using assms(1) by (simp add: gridInv_def)
  then show ?thesis using False by (simp add: repairWater_def)
qed

lemma restoreTrees_inv:
  assumes "gridInv g" and "treeIdsNonEmpty s"
  shows "gridInv (restoreTrees s g)"
proof (cases "snapshot_trees s")
  case None
  then show ?thesis using assms(1) by (simp add: restoreTrees_def generateTrees_inv)
next
  case (Some ts)
  then have "\<forall>t \<in> set ts. tree_id t \<noteq> []"
    using assms(2) by (simp add: treeIdsNonEmpty_def list_all_iff)
  then show ?thesis
    using assms(1) Some by (simp add: restoreTrees_def generateTrees_inv foldl_addTree_inv)
qed

lemma applySnapshot_inv:
  assumes "gridInv g" and "treeIdsNonEmpty s"
  shows "gridInv (applySnapshot g s)"
proof (cases "snapshot_width s \<noteq> width g \<or> snapshot_depth s \<noteq> depth g")
  case True
  then show ?thesis using assms(1) by (simp add: applySnapshot_def)
next
  case False
  let ?g1 = "clearTrees (g\<lparr>buildings := []\<rparr>)"
  let ?g2 = "restoreTileTypes s ?g1"
  have "gridInv ?g2"
    using assms(1) by (intro restoreTileTypes_inv) (simp_all add: clearTrees_def gridInv_def)
  then have "gridInv (repairWater s ?g2)"
    by (rule repairWater_inv) (use restoreTileTypes_bare in blast)
  then have "gridInv (restoreTrees s (repairWater s ?g2))"
    using assms(2) by (rule restoreTrees_inv)
  then have "gridInv (foldl restoreBuilding (restoreTrees s (repairWater s ?g2)) (snapshot_buildings s))"
    by (rule foldl_restoreBuilding_inv)
  then show ?thesis using False by (simp add: applySnapshot_def Let_def)
qed

lemma resetTiles_inv:
  assumes "gridInv g"
  shows "gridInv (resetTiles g)"
proof -
  let ?g1 = "g\<lparr>tiles := map (resetTile g) [0..<length (tiles g)]\<rparr>"
  have "gridInv (clearTrees ?g1)"
    using assms by (intro clearTrees_inv) (auto simp: gridInv_def resetTile_def)
  moreover have "\<forall>t \<in> set (baseTrees (clearTrees ?g1)). tree_id t \<noteq> []"
    using assms by (simp add: gridInv_def clearTrees_def)
  ultimately have "gridInv (foldl addTree (clearTrees ?g1) (baseTrees (clearTrees ?g1)))"
    by (rule foldl_addTree_inv)
  then show ?thesis by (simp add: resetTiles_def Let_def)
qed

text \<open>Placement.\<close>

lemma placeRoad_inv:
  assumes "gridInv g"
  shows "gridInv (fst (snd (placeRoad (g, counter) x z)))"
proof (cases "inBounds g x z \<and> \<not> truthy (occupantId (tiles g ! nat (index g x z)))
    \<and> tile_type (tiles g ! nat (index g x z)) = Grass")
  case False
  then show ?thesis using assms
    by (auto simp: placeRoad_def getTile_def)
next
  case True
  let ?g = "snd (removeTreeAt g x z)"
  let ?i = "nat (index g x z)"
  have i: "?i < length (tiles g)" using assms True gridInv_index by blast
  have inv: "gridInv ?g" using assms by (rule removeTreeAt_inv)
  have len: "?i < length (tiles ?g)"
    using i frame_length [OF removeTreeAt_frame, of g x z] by simp
  have none: "treeId (tiles ?g ! ?i) = None"
    using assms True by (intro removeTreeAt_clears) simp_all
  have "tileOk (tiles g ! ?i)" using gridInv_tile [OF assms i] by (simp add: tileInv_def)
  then have "occupantId (tiles g ! ?i) = None"
    using True by (intro tileOk_grass_no_occupant) simp_all
  then have occ: "occupantId (tiles ?g ! ?i) = None"
    using landUse_nth(2) [OF removeTreeAt_landUse i, of x z] by simp
  have "gridInv (modifyTile ?i (\<lambda>t. t\<lparr>tile_type := Road\<rparr>) ?g)"
    using inv len by (rule gridInv_modifyTile) (simp_all add: none occ tileOk_def)
  then show ?thesis using True by (simp add: placeRoad_def getTile_def)
qed

lemma foldl_occupyTile_inv:
  "gridInv g \<Longrightarrow> gridInv (foldl (occupyTile b) g cs)"
  by (induction cs arbitrary: g) (simp_all add: occupyTile_eq claimTile_inv)

lemma placeHouse_inv:
  assumes "gridInv g"
  shows "gridInv (fst (snd (placeHouse (g, counter) x z)))"
  using assms
  by (simp add: placeHouse_def Let_def foldl_occupyTile_inv split: option.split prod.split)

lemma erase_inv:
  assumes "gridInv g"
  shows "gridInv (fst (snd (erase (g, counter) x z)))"
proof (cases "inBounds g x z")
  case False
  then show ?thesis using assms by (simp add: erase_def getTile_def)
next
  case True
  let ?i = "nat (index g x z)"
  have i: "?i < length (tiles g)" using assms True gridInv_index by blast
  have ok: "tileOk (tiles g ! ?i)" using gridInv_tile [OF assms i] by (simp add: tileInv_def)
  show ?thesis
  proof (cases "truthy (occupantId (tiles g ! ?i))")
    case True
    then show ?thesis using assms \<open>inBounds g x z\<close>
      by (simp add: erase_def getTile_def Let_def clearOccupant_inv)
  next
    case False
    show ?thesis
    proof (cases "tile_type (tiles g ! ?i) = Road")
      case True
      then have "occupantId (tiles g ! ?i) = None" "treeId (tiles g ! ?i) = None"
        using ok by (auto simp: tileOk_def)
      then have "gridInv (modifyTile ?i (\<lambda>t. t\<lparr>tile_type := Grass\<rparr>) g)"
        using assms i by (intro gridInv_modifyTile) (simp_all add: tileOk_def)
      then show ?thesis using True False \<open>inBounds g x z\<close>
        by (simp add: erase_def getTile_def)
    next
      case notRoad: False
      then show ?thesis using assms False \<open>inBounds g x z\<close>
        by (simp add: erase_def getTile_def)
    qed
  qed
qed

lemma apply_tool_inv:
  assumes "gridInv g"
  shows "gridInv (fst (snd (apply_tool (g, counter) tool x z)))"
  using assms
  by (cases tool) (simp_all add: apply_tool_def placeHouse_inv placeRoad_inv erase_inv)

text \<open>Destruction.\<close>

lemma scanTile_inv:
  assumes "gridInv (world (scan_weather sc))"
  shows "gridInv (world (scan_weather (scanTile tornado sc c)))"
proof -
  obtain tx tz where c: "c = (tx, tz)" by (cases c)
  show ?thesis
    using assms removeTreeAt_inv [OF assms, of tx tz]
    by (simp add: c scanTile_def Let_def case_prod_beta)
qed

lemma foldl_scanTile_inv:
  "gridInv (world (scan_weather sc)) \<Longrightarrow> gridInv (world (scan_weather (foldl (scanTile tornado) sc cs)))"
  by (induction cs arbitrary: sc) (simp_all add: scanTile_inv)

lemma scanTornado_inv:
  "gridInv (world (scan_weather sc)) \<Longrightarrow> gridInv (world (scan_weather (scanTornado sc tornado)))"
  by (simp add: scanTornado_def Let_def foldl_scanTile_inv split: option.split)

lemma foldl_scanTornado_inv:
  "gridInv (world (scan_weather sc)) \<Longrightarrow> gridInv (world (scan_weather (foldl scanTornado sc ts)))"
  by (induction ts arbitrary: sc) (simp_all add: scanTornado_inv)

lemma destroyBuilding_inv:
  "gridInv (fst st) \<Longrightarrow> gridInv (fst (destroyBuilding st b))"
  by (cases st) (simp add: destroyBuilding_def Let_def clearOccupant_inv)

lemma foldl_destroyBuilding_inv:
  "gridInv (fst st) \<Longrightarrow> gridInv (fst (foldl destroyBuilding st bs))"
  by (induction bs arbitrary: st) (simp_all add: destroyBuilding_inv)

lemma markDestructionPath_inv:
  assumes "gridInv (world ws)"
  shows "gridInv (world (snd (markDestructionPath ws views)))"
proof -
  let ?sc = "foldl scanTornado
      \<lparr>scan_weather = ws, scan_changed = False, scan_treesChanged = False, destroyedBuildingIds = []\<rparr> views"
  have "gridInv (world (scan_weather ?sc))"
    using assms by (intro foldl_scanTornado_inv) simp
  then have "gridInv (fst (foldl destroyBuilding (world (scan_weather ?sc), False) (destroyedBuildingIds ?sc)))"
    by (intro foldl_destroyBuilding_inv) simp
  then show ?thesis
    by (simp add: markDestructionPath_def Let_def case_prod_beta)
qed

text \<open>Construction.\<close>

lemma length_tileCoords: "length (tileCoords g) = width g * depth g"
proof -
  have "length (concat (map (\<lambda>z. map (\<lambda>x. (int x, int z)) [0..<w]) zs)) = w * length zs" for w zs
    by (induction zs) simp_all
  then show ?thesis by (simp add: tileCoords_def)
qed

lemma set_update_subset: "set (AList.update k v al) \<subseteq> insert (k, v) (set al)"
  by (induction al) auto

lemma set_delete_subset: "set (AList.delete k al) \<subseteq> set al"
  by (induction al) auto

lemma addTree_values:
  assumes "\<forall>p \<in> set (trees g). tree_id (snd p) \<noteq> []" and "tree_id t \<noteq> []"
  shows "\<forall>p \<in> set (trees (addTree g t)). tree_id (snd p) \<noteq> []"
proof (cases "inBounds g (tree_x t) (tree_z t) \<and>
    tile_type (tiles g ! nat (index g (tree_x t) (tree_z t))) = Grass \<and>
    \<not> truthy (occupantId (tiles g ! nat (index g (tree_x t) (tree_z t))))")
  case False
  then have "addTree g t = g" by (intro addTree_rejected) blast
  then show ?thesis using assms(1) by simp
next
  case True
  then have T: "inBounds g (tree_x t) (tree_z t)"
    "tile_type (tiles g ! nat (index g (tree_x t) (tree_z t))) = Grass"
    "\<not> truthy (occupantId (tiles g ! nat (index g (tree_x t) (tree_z t))))" by simp_all
  show ?thesis
  proof
    fix p assume "p \<in> set (trees (addTree g t))"
    then have "p = (tree_id t, t) \<or> p \<in> set (trees g)"
      using set_update_subset [of "tree_id t" t] set_delete_subset [of _ "trees g"]
      by (auto simp: addTree_accepted [OF T] split: if_splits)
    then show "tree_id (snd p) \<noteq> []" using assms by auto
  qed
qed

lemma generateTreeAt_values:
  assumes "\<forall>p \<in> set (trees (fst st)). tree_id (snd p) \<noteq> []"
  shows "\<forall>p \<in> set (trees (fst (generateTreeAt st c))). tree_id (snd p) \<noteq> []"
proof -
  obtain g rng where st: "st = (g, rng)" by (cases st)
  from generateTreeAt_cases [of g rng c] show ?thesis
  proof
    assume "fst (generateTreeAt (g, rng) c) = g"
    then show ?thesis using assms by (simp add: st)
  next
    assume "\<exists>tree. tree_id tree \<noteq> [] \<and> fst (generateTreeAt (g, rng) c) = addTree g tree"
    then obtain tree where "tree_id tree \<noteq> []"
      and eq: "fst (generateTreeAt (g, rng) c) = addTree g tree" by blast
    then have "\<forall>p \<in> set (trees (addTree g tree)). tree_id (snd p) \<noteq> []"
      using assms by (intro addTree_values) (simp_all add: st)
    then show ?thesis by (simp add: st eq)
  qed
qed

lemma foldl_generateTreeAt_values:
  "\<forall>p \<in> set (trees (fst st)). tree_id (snd p) \<noteq> [] \<Longrightarrow>
   \<forall>p \<in> set (trees (fst (foldl generateTreeAt st cs))). tree_id (snd p) \<noteq> []"
proof (induction cs arbitrary: st)
  case Nil
  then show ?case by simp
next
  case (Cons c cs)
  from Cons.prems have "\<forall>p \<in> set (trees (fst (generateTreeAt st c))). tree_id (snd p) \<noteq> []"
    by (rule generateTreeAt_values)
  then show ?case using Cons.IH by simp
qed

lemma generateTrees_values:
  "\<forall>p \<in> set (trees (generateTrees g)). tree_id (snd p) \<noteq> []"
  unfolding generateTrees_def Let_def
  by (rule foldl_generateTreeAt_values) (simp add: clearTrees_def)

lemma streamWaterAt_frame [simp]: "frame (streamWaterAt g c) = frame g"
  by (cases c) (simp add: streamWaterAt_def Let_def modifyTile_frame split: option.split)

lemma streamWaterAt_bare:
  assumes "gridInv g" and "\<forall>t \<in> set (tiles g). occupantId t = None \<and> treeId t = None"
  shows "gridInv (streamWaterAt g c) \<and>
    (\<forall>t \<in> set (tiles (streamWaterAt g c)). occupantId t = None \<and> treeId t = None)"
proof -
  obtain x z where c: "c = (x, z)" by (cases c)
  let ?i = "nat (index g x z)"
  let ?g = "modifyTile ?i (\<lambda>t. t\<lparr>tile_type := Water\<rparr>) g"
  have "gridInv ?g \<and> (\<forall>t \<in> set (tiles ?g). occupantId t = None \<and> treeId t = None)"
    if "inBounds g x z"
  proof
    have i: "?i < length (tiles g)" using assms(1) that by (rule gridInv_index)
    then have "occupantId (tiles g ! ?i) = None \<and> treeId (tiles g ! ?i) = None"
      using assms(2) by simp
    then show "gridInv ?g"
      using assms(1) i by (intro gridInv_modifyTile) (simp_all add: tileOk_def)
    show "\<forall>t \<in> set (tiles ?g). occupantId t = None \<and> treeId t = None"
    proof
      fix t assume "t \<in> set (tiles ?g)"
      then have "t \<in> insert ((tiles g ! ?i)\<lparr>tile_type := Water\<rparr>) (set (tiles g))"
        using set_update_subset_insert by fastforce
      then show "occupantId t = None \<and> treeId t = None"
        using assms(2) i by auto
    qed
  qed
  then show ?thesis
    using assms by (simp add: c streamWaterAt_def Let_def getTile_def)
qed

lemma applyStreamWater_inv:
  assumes "gridInv g" and "\<forall>t \<in> set (tiles g). occupantId t = None \<and> treeId t = None"
  shows "gridInv (applyStreamWater g)"
proof -
  have "gridInv (foldl streamWaterAt g cs) \<and>
    (\<forall>t \<in> set (tiles (foldl streamWaterAt g cs)). occupantId t = None \<and> treeId t = None)" for cs
    using assms
  proof (induction cs arbitrary: g)
    case Nil
    then show ?case by simp
  next
    case (Cons c cs)
    from streamWaterAt_bare [OF Cons.prems, of c]
    have "gridInv (streamWaterAt g c)"
      and "\<forall>t \<in> set (tiles (streamWaterAt g c)). occupantId t = None \<and> treeId t = None"
      by blast+
    then have "gridInv (foldl streamWaterAt (streamWaterAt g c) cs) \<and>
      (\<forall>t \<in> set (tiles (foldl streamWaterAt (streamWaterAt g c) cs)).
          occupantId t = None \<and> treeId t = None)"
      by (rule Cons.IH)
    then show ?case by simp
  qed
  then show ?thesis by (simp add: applyStreamWater_def)
qed

lemma applyStreamWater_frame [simp]: "frame (applyStreamWater g) = frame g"
  unfolding applyStreamWater_def by (rule foldl_keeps) simp

lemma GridWorld_new_inv: "gridInv (GridWorld_new config)"
proof -
  obtain g1 where new: "GridWorld_new config =
      captureBaseState (generateTrees (applyStreamWater (fillTiles (fillHeightField g1))))"
    and g1: "baseTrees g1 = []" "treeByTile g1 = Map.empty"
    by (simp add: GridWorld_new_def Let_def case_prod_beta)
  let ?gA = "fillTiles (fillHeightField g1)"
  have "gridInv ?gA"
    using g1 by (simp add: gridInv_def fillTiles_def fillHeightField_def length_tileCoords
        tileInv_def freshTile_def tileOk_def case_prod_beta)
  moreover have "\<forall>t \<in> set (tiles ?gA). occupantId t = None \<and> treeId t = None"
    by (auto simp: fillTiles_def freshTile_def case_prod_beta)
  ultimately have "gridInv (applyStreamWater ?gA)"
    by (rule applyStreamWater_inv)
  then have "gridInv (generateTrees (applyStreamWater ?gA))"
    by (rule generateTrees_inv)
  then show ?thesis
    using generateTrees_values [of "applyStreamWater ?gA"]
    by (simp add: new captureBaseState_def gridInv_def tileInv_def)
qed

lemma reachable_gridInv:
  assumes "reachable admissible s" and "\<And>snapshot. admissible snapshot \<Longrightarrow> treeIdsNonEmpty snapshot"
  shows "gridInv (world (fst s))"
  using assms(1)
proof (induction rule: reachable.induct)
  case (fresh config)
  show ?case by (simp add: WeatherSystem_new_def GridWorld_new_inv)
next
  case (placement ws counter tool x z res g' counter')
  from placement.IH have "gridInv (fst (snd (apply_tool (world ws, counter) tool x z)))"
    by (intro apply_tool_inv) simp
  then show ?case by (simp add: placement.hyps)
next
  case (destruction ws counter tornadoViews flags ws')
  from destruction.IH have "gridInv (world (snd (markDestructionPath ws tornadoViews)))"
    by (intro markDestructionPath_inv) simp
  then show ?case by (simp add: destruction.hyps)
next
  case (reset ws counter)
  then show ?case by (simp add: resetTiles_inv)
next
  case (restore ws counter snapshot)
  then show ?case by (simp add: applySnapshot_inv assms(2))
qed

lemma gridInv_tilesOk: "gridInv g \<Longrightarrow> tilesOk g"
  by (simp add: gridInv_def tilesOk_def tileInv_def list_all_length)

text \<open>
  In every state reached from a freshly constructed grid by \<open>apply\<close> calls (house,
  road, erase), destruction passes, \<open>resetTiles\<close> and \<open>applySnapshot\<close> calls whose
  snapshots hold no tree with the empty string as its identifier, every tile
  satisfies: an occupant implies the type foundation, and a tree implies the type
  grass and no occupant. With any other identifier, then, \<open>removeTreeAt\<close> clears
  the tree of a tile that a building claims.
\<close>

theorem tile_invariant_nonempty_ids:
  "reachable treeIdsNonEmpty (ws, counter) \<Longrightarrow> tilesOk (world ws)"
  using reachable_gridInv [of treeIdsNonEmpty "(ws, counter)"] gridInv_tilesOk by simp

lemma townRun_reachable: "reachable treeIdsNonEmpty townRun"
proof -
  let ?ws0 = "WeatherSystem_new (GridWorld_new townConfig)"
  let ?a1 = "apply_tool (world ?ws0, 0) House 1 1"
  let ?ws1 = "?ws0\<lparr>world := fst (snd ?a1)\<rparr>"
  let ?a2 = "apply_tool (world ?ws1, snd (snd ?a1)) RoadTool 3 3"
  let ?ws2 = "?ws1\<lparr>world := fst (snd ?a2)\<rparr>"
  let ?m = "markDestructionPath ?ws2 [\<lparr>view_x = 0, view_z = 0, view_radius = 3\<rparr>]"
  let ?ws4 = "(snd ?m)\<lparr>world := applySnapshot (world (snd ?m)) oneTreeSnapshot\<rparr>"
  have "reachable treeIdsNonEmpty (?ws0, 0)" by (rule reachable.fresh)
  then have "reachable treeIdsNonEmpty (?ws1, snd (snd ?a1))"
    by (rule reachable.placement [where res = "fst ?a1"]) simp
  then have "reachable treeIdsNonEmpty (?ws2, snd (snd ?a2))"
    by (rule reachable.placement [where res = "fst ?a2"]) simp
  then have "reachable treeIdsNonEmpty (snd ?m, snd (snd ?a2))"
    by (rule reachable.destruction [where flags = "fst ?m"]) simp
  then have "reachable treeIdsNonEmpty (?ws4, snd (snd ?a2))"
    by (rule reachable.restore) (simp add: treeIdsNonEmpty_def oneTreeSnapshot_def)
  then have "reachable treeIdsNonEmpty (?ws4\<lparr>world := resetTiles (world ?ws4)\<rparr>, snd (snd ?a2))"
    by (rule reachable.reset)
  moreover have "townRun = (?ws4\<lparr>world := resetTiles (world ?ws4)\<rparr>, snd (snd ?a2))"
    by (simp add: townRun_def Let_def WeatherSystem_new_def)
  ultimately show ?thesis by simp
qed

text \<open>The run of the town is such a state.\<close>

theorem tile_invariant_town:
  "reachable treeIdsNonEmpty townRun \<and> tilesOk (world (fst townRun))"
  using tile_invariant_nonempty_ids [of "fst townRun" "snd townRun"] townRun_reachable by simp

lemma GridWorld_new_dims:
  "width (GridWorld_new config) = config_width config"
  "depth (GridWorld_new config) = config_depth config"
  "tileSize (GridWorld_new config) = config_tileSize config"
  "seed (GridWorld_new config) = config_seed config"
proof -
  obtain g1 where new: "GridWorld_new config =
      captureBaseState (generateTrees (applyStreamWater (fillTiles (fillHeightField g1))))"
    and g1: "width g1 = config_width config" "depth g1 = config_depth config"
      "tileSize g1 = config_tileSize config" "seed g1 = config_seed config"
    by (simp add: GridWorld_new_def Let_def case_prod_beta)
  let ?gA = "fillTiles (fillHeightField g1)"
  have "frame (generateTrees (applyStreamWater ?gA)) = frame ?gA" by simp
  note f = frame_fields(1-4) [OF this]
  show "width (GridWorld_new config) = config_width config"
    "depth (GridWorld_new config) = config_depth config"
    "tileSize (GridWorld_new config) = config_tileSize config"
    "seed (GridWorld_new config) = config_seed config"
    using f g1 by (simp_all add: new captureBaseState_def fillTiles_def fillHeightField_def)
qed

lemma GridWorld_new_length:
  "length (tiles (GridWorld_new config)) = config_width config * config_depth config"
  using GridWorld_new_inv [of config] by (simp add: gridInv_def GridWorld_new_dims)

lemma emptyId_tile:
  assumes "width g = 2" and "depth g = 1" and "length (tiles g) = 2"
  shows "treeId (tiles (applySnapshot g emptyIdSnapshot) ! 0) = Some [] \<and>
         tile_type (tiles (applySnapshot g emptyIdSnapshot) ! 0) = Foundation \<and>
         length (tiles (applySnapshot g emptyIdSnapshot)) = 2"
proof -
  have upt: "[0..<2] = [0, Suc 0]" by (simp add: upt_rec)
  show ?thesis
    using assms
    by (simp add: applySnapshot_def emptyIdSnapshot_def Let_def clearTrees_def restoreTileTypes_def
        restoreTile_def elementAt_def repairWater_def restoreTrees_def addTree_def getTile_def
        inBounds_def index_def modifyTile_def truthy_def restoreBuilding_def footprintCoords_def
        claimTile_def removeTreeAt_def upt)
qed

lemma emptyIdRun_reachable: "reachable anySnapshot emptyIdRun"
proof -
  let ?ws0 = "WeatherSystem_new (GridWorld_new stripConfig)"
  have "reachable anySnapshot (?ws0, 0)" by (rule reachable.fresh)
  then have "reachable anySnapshot (?ws0\<lparr>world := applySnapshot (world ?ws0) emptyIdSnapshot\<rparr>, 0)"
    by (rule reachable.restore) (simp add: anySnapshot_def)
  then show ?thesis by (simp add: emptyIdRun_def Let_def)
qed

lemma emptyIdRun_tile:
  "treeId (tiles (world (fst emptyIdRun)) ! 0) = Some [] \<and>
   tile_type (tiles (world (fst emptyIdRun)) ! 0) = Foundation \<and>
   length (tiles (world (fst emptyIdRun))) = 2"
proof -
  have "world (fst emptyIdRun) = applySnapshot (GridWorld_new stripConfig) emptyIdSnapshot"
    by (simp add: emptyIdRun_def Let_def WeatherSystem_new_def)
  then show ?thesis
    using emptyId_tile [of "GridWorld_new stripConfig"]
    by (simp add: GridWorld_new_dims GridWorld_new_length stripConfig_def)
qed

text \<open>
  C1. The invariant fails in a state that the operations reach. \<open>applySnapshot\<close>
  calls \<open>removeTreeAt\<close> on every tile of a footprint to clear its tree, and
  \<open>removeTreeAt\<close> tests the identifier it finds by truthiness (\<open>if (!treeId)\<close>), so
  it takes a tree whose identifier is the empty string for no tree and leaves it.
  After \<open>emptyIdSnapshot\<close> on a fresh 2 by 1 world, tile 0 is a foundation with an
  occupant and still carries the tree.
\<close>

theorem C1_empty_tree_id_breaks_invariant:
  "reachable anySnapshot emptyIdRun \<and> \<not> tilesOk (world (fst emptyIdRun))"
proof
  show "reachable anySnapshot emptyIdRun" by (rule emptyIdRun_reachable)
  show "\<not> tilesOk (world (fst emptyIdRun))"
  proof
    assume "tilesOk (world (fst emptyIdRun))"
    then have "tileOk (tiles (world (fst emptyIdRun)) ! 0)"
      using emptyIdRun_tile by (simp add: tilesOk_def list_all_length)
    then show False
      using emptyIdRun_tile by (simp add: tileOk_def)
  qed
qed

section \<open>Snapshots\<close>

text \<open>
  C7. A snapshot whose width or depth differs from the grid's leaves the grid as it
  is: \<open>applySnapshot\<close> returns the grid it was given (tiles, trees, buildings and
  every other field), and it has no failure to signal.
\<close>

theorem C7_dimension_mismatch_noop:
  "snapshot_width snapshot \<noteq> width g \<or> snapshot_depth snapshot \<noteq> depth g \<Longrightarrow>
   applySnapshot g snapshot = g"
  by (simp add: applySnapshot_def)

text \<open>The 2 by 1 snapshot on the fresh 4 by 4 world.\<close>

theorem C7_dimension_mismatch_noop_witness:
  "snapshot_width emptyIdSnapshot \<noteq> width (GridWorld_new townConfig) \<and>
   applySnapshot (GridWorld_new townConfig) emptyIdSnapshot = GridWorld_new townConfig"
proof -
  have h: "snapshot_width emptyIdSnapshot \<noteq> width (GridWorld_new townConfig)"
    by (simp add: GridWorld_new_dims emptyIdSnapshot_def townConfig_def)
  then have "snapshot_width emptyIdSnapshot \<noteq> width (GridWorld_new townConfig) \<or>
    snapshot_depth emptyIdSnapshot \<noteq> depth (GridWorld_new townConfig)" by simp
  from C7_dimension_mismatch_noop [OF this] h show ?thesis by simp
qed

text \<open>Tile types through the steps of \<open>applySnapshot\<close>.\<close>

lemma claimTile_type:
  assumes "i < length (tiles g)"
  shows "tile_type (tiles (claimTile b g c) ! i) =
    (if inBounds g (fst c) (snd c) \<and> nat (index g (fst c) (snd c)) = i then Foundation
     else tile_type (tiles g ! i))"
proof -
  obtain tx tz where c: "c = (tx, tz)" by (cases c)
  let ?g = "snd (removeTreeAt g tx tz)"
  have len: "length (tiles ?g) = length (tiles g)"
    by (rule frame_length) simp
  have ty: "tile_type (tiles ?g ! i) = tile_type (tiles g ! i)"
    using assms by (intro landUse_nth(1)) simp
  show ?thesis
    using assms len ty by (simp add: c claimTile_def nth_list_update)
qed

lemma foldl_claimTile_type:
  assumes "i < length (tiles g)"
  shows "tile_type (tiles (foldl (claimTile b) g cs) ! i) =
    (if \<exists>c \<in> set cs. inBounds g (fst c) (snd c) \<and> nat (index g (fst c) (snd c)) = i then Foundation
     else tile_type (tiles g ! i))"
  using assms
proof (induction cs arbitrary: g)
  case Nil
  then show ?case by simp
next
  case (Cons c cs)
  have fr: "frame (claimTile b g c) = frame g" by simp
  have len: "i < length (tiles (claimTile b g c))"
    using Cons.prems frame_length [OF fr] by simp
  show ?case
    using Cons.IH [OF len] claimTile_type [OF Cons.prems, of b c]
    by (simp add: frame_inBounds [OF fr] frame_index [OF fr]; blast?)
qed

lemma restoreBuilding_frame [simp]: "frame (restoreBuilding g b) = frame g"
proof -
  have "frame (foldl (claimTile (building_id b)) g' cs) = frame g'" for g' cs
    by (rule foldl_keeps) simp
  then show ?thesis by (simp add: restoreBuilding_def)
qed

lemma restoreBuilding_type:
  assumes "i < length (tiles g)"
  shows "tile_type (tiles (restoreBuilding g b) ! i) =
    (if coveredBy g [b] i then Foundation else tile_type (tiles g ! i))"
proof -
  let ?g = "g\<lparr>buildings := AList.update (building_id b) b (buildings g)\<rparr>"
  have "inBounds ?g = inBounds g" "index ?g = index g"
    by (simp_all add: inBounds_def index_def fun_eq_iff)
  then show ?thesis
    using assms foldl_claimTile_type [of i ?g "building_id b"
        "footprintCoords (originX b) (originZ b) (building_width b) (building_depth b)"]
    by (simp add: restoreBuilding_def coveredBy_def; blast?)
qed

lemma coveredBy_Cons:
  "coveredBy g (b # bs) i = (coveredBy g [b] i \<or> coveredBy g bs i)"
  by (auto simp: coveredBy_def)

lemma coveredBy_frame:
  assumes "frame g' = frame g"
  shows "coveredBy g' bs i = coveredBy g bs i"
  by (simp add: coveredBy_def frame_inBounds [OF assms] frame_index [OF assms])

lemma foldl_restoreBuilding_frame [simp]: "frame (foldl restoreBuilding g bs) = frame g"
  by (rule foldl_keeps) simp

lemma foldl_restoreBuilding_type:
  assumes "i < length (tiles g)"
  shows "tile_type (tiles (foldl restoreBuilding g bs) ! i) =
    (if coveredBy g bs i then Foundation else tile_type (tiles g ! i))"
  using assms
proof (induction bs arbitrary: g)
  case Nil
  then show ?case by (simp add: coveredBy_def)
next
  case (Cons b bs)
  have fr: "frame (restoreBuilding g b) = frame g" by simp
  have len: "i < length (tiles (restoreBuilding g b))"
    using Cons.prems frame_length [OF fr] by simp
  show ?case
    using Cons.IH [OF len] restoreBuilding_type [OF Cons.prems, of b]
    by (simp add: coveredBy_Cons [of g b bs] coveredBy_frame [OF fr])
qed

lemma restoreTileTypes_frame [simp]: "frame (restoreTileTypes s g) = frame g"
proof -
  have "map height (map (restoreTile s g) [0..<length (tiles g)]) = map height (tiles g)"
    by (rule nth_equalityI) (simp_all add: restoreTile_def)
  then show ?thesis by (simp add: frame_def restoreTileTypes_def)
qed

lemma repairWater_frame [simp]: "frame (repairWater s g) = frame g"
proof -
  have "map height (map (repairTile g) [0..<length (tiles g)]) = map height (tiles g)"
    by (rule nth_equalityI) (simp_all add: repairTile_def)
  then show ?thesis by (simp add: frame_def repairWater_def)
qed

lemma restoreTrees_frame [simp]: "frame (restoreTrees s g) = frame g"
  by (simp add: restoreTrees_def split: option.split)

lemma restoreTrees_landUse [simp]: "landUse (restoreTrees s g) = landUse g"
  by (simp add: restoreTrees_def split: option.split)

text \<open>
  The type a tile has after \<open>applySnapshot\<close> with a snapshot of matching dimensions:
  foundation under a building of the snapshot; otherwise the snapshot's type (the base
  type, or grass, where the snapshot's array is too short), repaired to water where the
  rule applies.
\<close>

lemma applySnapshot_tile_type:
  assumes "snapshot_width s = width g" and "snapshot_depth s = depth g"
    and "i < length (tiles g)"
  shows "tile_type (tiles (applySnapshot g s) ! i) =
    (if coveredBy g (snapshot_buildings s) i then Foundation
     else let ty0 = (case elementAt (tileTypes s) i of
                       Some ty \<Rightarrow> ty
                     | None \<Rightarrow> (case elementAt (baseTileTypes g) i of Some ty \<Rightarrow> ty | None \<Rightarrow> Grass))
          in if Water \<notin> set (tileTypes s) \<and> ty0 = Grass \<and> elementAt (baseTileTypes g) i = Some Water
             then Water else ty0)"
proof -
  let ?g1 = "clearTrees (g\<lparr>buildings := []\<rparr>)"
  let ?g2 = "restoreTileTypes s ?g1"
  let ?g3 = "repairWater s ?g2"
  let ?g4 = "restoreTrees s ?g3"
  have eq: "applySnapshot g s = foldl restoreBuilding ?g4 (snapshot_buildings s)"
    using assms(1,2) by (simp add: applySnapshot_def Let_def)
  have fr: "frame ?g4 = frame g" by simp
  have fr2: "frame ?g2 = frame g" by simp
  have len1: "length (tiles ?g1) = length (tiles g)" by (simp add: clearTrees_def)
  have len2: "length (tiles ?g2) = length (tiles g)" by (simp add: restoreTileTypes_def len1)
  have len3: "length (tiles ?g3) = length (tiles g)"
    using frame_length [of ?g3 ?g2] len2 by simp
  have len4: "i < length (tiles ?g4)"
    using frame_length [OF fr] assms(3) by simp
  have base1: "baseTileTypes ?g1 = baseTileTypes g" by (simp add: clearTrees_def)
  have ty2: "tile_type (tiles ?g2 ! i) =
      (case elementAt (tileTypes s) i of
         Some ty \<Rightarrow> ty
       | None \<Rightarrow> (case elementAt (baseTileTypes g) i of Some ty \<Rightarrow> ty | None \<Rightarrow> Grass))"
    using assms(3) len1
    by (simp add: restoreTileTypes_def restoreTile_def base1 cong: option.case_cong)
  have base2: "baseTileTypes ?g2 = baseTileTypes g"
    using frame_fields(6) [OF fr2] .
  have ty3: "tile_type (tiles ?g3 ! i) =
      (if Water \<notin> set (tileTypes s) \<and> tile_type (tiles ?g2 ! i) = Grass
           \<and> elementAt (baseTileTypes g) i = Some Water
       then Water else tile_type (tiles ?g2 ! i))"
    using assms(3) len2 by (simp add: repairWater_def repairTile_def base2)
  have ty4: "tile_type (tiles ?g4 ! i) = tile_type (tiles ?g3 ! i)"
    using assms(3) len3 by (intro landUse_nth(1)) simp_all
  have "tile_type (tiles (applySnapshot g s) ! i) =
      (if coveredBy ?g4 (snapshot_buildings s) i then Foundation else tile_type (tiles ?g4 ! i))"
    unfolding eq using len4 by (rule foldl_restoreBuilding_type)
  then show ?thesis
    by (simp only: coveredBy_frame [OF fr] ty4 ty3 ty2 Let_def)
qed

text \<open>The repair step alone changes only tiles that the snapshot records as grass.\<close>

lemma repairWater_changes_only_grass:
  assumes "i < length (tiles g)" and "tiles (repairWater s g) ! i \<noteq> tiles g ! i"
  shows "tile_type (tiles g ! i) = Grass \<and> elementAt (baseTileTypes g) i = Some Water
    \<and> Water \<notin> set (tileTypes s)"
  using assms by (auto simp: repairWater_def repairTile_def split: if_splits)

text \<open>
  C8, as amended. For a snapshot of matching dimensions whose \<open>tileTypes\<close> hold no
  water: a tile that the snapshot records as grass and whose base type is water ends as
  water, unless it lies in the in-bounds footprint of a building of the snapshot, where
  it ends as foundation; and a tile that the snapshot records with another type ends
  with that type (the repair leaves it alone), or as foundation under a building.
\<close>

theorem C8_water_repair:
  assumes "snapshot_width s = width g" and "snapshot_depth s = depth g"
    and "Water \<notin> set (tileTypes s)" and "i < length (tiles g)"
  shows "(elementAt (tileTypes s) i = Some Grass \<and> elementAt (baseTileTypes g) i = Some Water \<longrightarrow>
            tile_type (tiles (applySnapshot g s) ! i) =
              (if coveredBy g (snapshot_buildings s) i then Foundation else Water)) \<and>
         (\<forall>ty. elementAt (tileTypes s) i = Some ty \<and> ty \<noteq> Grass \<longrightarrow>
            tile_type (tiles (applySnapshot g s) ! i) =
              (if coveredBy g (snapshot_buildings s) i then Foundation else ty))"
  using assms(3) by (simp add: applySnapshot_tile_type [OF assms(1,2,4)])

text \<open>The pond restores the snapshot without buildings: its tile is repaired to water.\<close>

theorem C8_water_repair_witness:
  "snapshot_width meadowSnapshot = width pondWorld \<and>
   snapshot_depth meadowSnapshot = depth pondWorld \<and>
   Water \<notin> set (tileTypes meadowSnapshot) \<and>
   (0::nat) < length (tiles pondWorld) \<and>
   elementAt (tileTypes meadowSnapshot) 0 = Some Grass \<and>
   elementAt (baseTileTypes pondWorld) 0 = Some Water \<and>
   \<not> coveredBy pondWorld (snapshot_buildings meadowSnapshot) 0 \<and>
   tile_type (tiles (applySnapshot pondWorld meadowSnapshot) ! 0) = Water"
proof -
  have h: "snapshot_width meadowSnapshot = width pondWorld"
    "snapshot_depth meadowSnapshot = depth pondWorld"
    "Water \<notin> set (tileTypes meadowSnapshot)"
    "(0::nat) < length (tiles pondWorld)"
    by (simp_all add: meadowSnapshot_def hutSnapshot_def pondWorld_def)
  have e: "elementAt (tileTypes meadowSnapshot) 0 = Some Grass"
    "elementAt (baseTileTypes pondWorld) 0 = Some Water"
    "\<not> coveredBy pondWorld (snapshot_buildings meadowSnapshot) 0"
    by (simp_all add: meadowSnapshot_def hutSnapshot_def pondWorld_def elementAt_def coveredBy_def)
  show ?thesis
    using C8_water_repair [OF h] h e by simp
qed

text \<open>
  C8 as stated fails: the buildings are restored after the repair. The pond restores
  \<open>hutSnapshot\<close>, which has no water, records tile 0 as grass, and has a building on
  it; the tile's base type is water, and it ends as foundation.
\<close>

theorem C8_building_over_repair_counterexample:
  "snapshot_width hutSnapshot = width pondWorld \<and>
   snapshot_depth hutSnapshot = depth pondWorld \<and>
   Water \<notin> set (tileTypes hutSnapshot) \<and>
   (0::nat) < length (tiles pondWorld) \<and>
   elementAt (tileTypes hutSnapshot) 0 = Some Grass \<and>
   elementAt (baseTileTypes pondWorld) 0 = Some Water \<and>
   tile_type (tiles (applySnapshot pondWorld hutSnapshot) ! 0) = Foundation \<and>
   tile_type (tiles (applySnapshot pondWorld hutSnapshot) ! 0) \<noteq> Water"
proof -
  have h: "snapshot_width hutSnapshot = width pondWorld"
    "snapshot_depth hutSnapshot = depth pondWorld"
    "(0::nat) < length (tiles pondWorld)"
    by (simp_all add: hutSnapshot_def pondWorld_def)
  have c: "coveredBy pondWorld (snapshot_buildings hutSnapshot) 0"
    by (simp add: coveredBy_def hutSnapshot_def pondWorld_def footprintCoords_def
        inBounds_def index_def)
  have "tile_type (tiles (applySnapshot pondWorld hutSnapshot) ! 0) = Foundation"
    by (simp add: applySnapshot_tile_type [OF h] c)
  then show ?thesis
    using h by (simp add: hutSnapshot_def pondWorld_def elementAt_def)
qed

section \<open>Destruction\<close>

lemma tileToWorld_xz:
  "fst (tileToWorld g x z) = (x - real (width g) / 2 + 0.5) * tileSize g"
  "snd (snd (tileToWorld g x z)) = (z - real (depth g) / 2 + 0.5) * tileSize g"
  by (simp_all add: tileToWorld_def Let_def)


lemma scanTile_miss:
  assumes "\<not> reaches (world (scan_weather sc)) tornado c"
  shows "scanTile tornado sc c = sc"
proof -
  obtain tx tz where c: "c = (tx, tz)" by (cases c)
  show ?thesis
    using assms
    by (auto simp: c scanTile_def reaches_def Let_def case_prod_beta)
qed

lemma scanTile_frame [simp]:
  "frame (world (scan_weather (scanTile tornado sc c))) = frame (world (scan_weather sc))"
  by (cases c) (simp add: scanTile_def Let_def case_prod_beta)

lemma scanTile_landUse [simp]:
  "landUse (world (scan_weather (scanTile tornado sc c))) = landUse (world (scan_weather sc))"
  by (cases c) (simp add: scanTile_def Let_def case_prod_beta)



lemma foldl_scanTile_frame [simp]:
  "frame (world (scan_weather (foldl (scanTile tornado) sc cs))) = frame (world (scan_weather sc))"
  by (rule foldl_keeps [where h = "\<lambda>s. frame (world (scan_weather s))"]) simp

lemma foldl_scanTile_landUse [simp]:
  "landUse (world (scan_weather (foldl (scanTile tornado) sc cs))) = landUse (world (scan_weather sc))"
  by (rule foldl_keeps [where h = "\<lambda>s. landUse (world (scan_weather s))"]) simp



text \<open>The second loop: every recorded building is destroyed.\<close>

lemma destroyBuilding_length [simp]:
  "length (tiles (fst (destroyBuilding st b))) = length (tiles (fst st))"
  by (cases st) (simp add: destroyBuilding_def Let_def clearOccupant_def)











text \<open>Occupants and the registry through \<open>applySnapshot\<close>.\<close>

lemma claimTile_buildings [simp]: "buildings (claimTile b g c) = buildings g"
proof -
  obtain tx tz where c: "c = (tx, tz)" by (cases c)
  have "buildings (snd (removeTreeAt g tx tz)) = buildings g"
    by (rule landUse_fields(1)) simp
  then show ?thesis by (simp add: c claimTile_def)
qed




lemma restoreBuilding_buildings [simp]:
  "buildings (restoreBuilding g b) = AList.update (building_id b) b (buildings g)"
proof -
  have "buildings (foldl (claimTile (building_id b)) g' cs) = buildings g'" for g' cs
    by (rule foldl_keeps) simp
  then show ?thesis by (simp add: restoreBuilding_def)
qed

lemma foldl_restoreBuilding_buildings:
  "buildings (foldl restoreBuilding g bs) =
     foldl (\<lambda>al b. AList.update (building_id b) b al) (buildings g) bs"
  by (induction bs arbitrary: g) simp_all

lemma applySnapshot_frame [simp]: "frame (applySnapshot g s) = frame g"
  by (simp add: applySnapshot_def Let_def)

lemma restored_buildings_empty:
  "buildings (restoreTrees s (repairWater s (restoreTileTypes s (clearTrees (g\<lparr>buildings := []\<rparr>))))) = []"
proof -
  have "buildings (restoreTrees s g') = buildings g'" for g'
    by (rule landUse_fields(1)) simp
  then show ?thesis
    by (simp add: repairWater_def restoreTileTypes_def clearTrees_def)
qed

lemma applySnapshot_buildings:
  assumes "snapshot_width s = width g" and "snapshot_depth s = depth g"
  shows "buildings (applySnapshot g s) =
     foldl (\<lambda>al b. AList.update (building_id b) b al) [] (snapshot_buildings s)"
  using assms
  by (simp add: applySnapshot_def Let_def foldl_restoreBuilding_buildings restored_buildings_empty)


lemma villa_world:
  "width (world villaWeather) = 3" "depth (world villaWeather) = 3"
  "tileSize (world villaWeather) = 1" "length (tiles (world villaWeather)) = 9"
proof -
  let ?g0 = "GridWorld_new villaConfig"
  have w: "world villaWeather = applySnapshot ?g0 villaSnapshot"
    by (simp add: villaWeather_def WeatherSystem_new_def)
  have fr: "frame (world villaWeather) = frame ?g0" by (simp add: w)
  show "width (world villaWeather) = 3" "depth (world villaWeather) = 3"
    "tileSize (world villaWeather) = 1"
    using frame_fields(1-3) [OF fr] by (simp_all add: GridWorld_new_dims villaConfig_def)
  show "length (tiles (world villaWeather)) = 9"
    using frame_length [OF fr] by (simp add: GridWorld_new_length villaConfig_def)
qed




section \<open>Tornadoes\<close>

lemma steer_fields [simp]:
  "lifetime (steer dt r t) = lifetime t" "tornado_id (steer dt r t) = tornado_id t"
  "radius (steer dt r t) = radius t" "position (steer dt r t) = position t"
  by (simp_all add: steer_def Let_def)

lemma translate_fields [simp]:
  "lifetime (translate dt t) = lifetime t" "tornado_id (translate dt t) = tornado_id t"
  "radius (translate dt t) = radius t" "velocity (translate dt t) = velocity t"
  by (simp_all add: translate_def)

lemma reflectX_fields [simp]:
  "lifetime (reflectX h t) = lifetime t" "tornado_id (reflectX h t) = tornado_id t"
  "radius (reflectX h t) = radius t" "snd (position (reflectX h t)) = snd (position t)"
  by (simp_all add: reflectX_def)

lemma reflectZ_fields [simp]:
  "lifetime (reflectZ h t) = lifetime t" "tornado_id (reflectZ h t) = tornado_id t"
  "radius (reflectZ h t) = radius t" "fst (position (reflectZ h t)) = fst (position t)"
  by (simp_all add: reflectZ_def)

lemma reflectX_bounds:
  assumes "0 \<le> h"
  shows "- h \<le> fst (position (reflectX h t)) \<and> fst (position (reflectX h t)) \<le> h"
  using assms by (simp add: reflectX_def)

lemma reflectZ_bounds:
  assumes "0 \<le> h"
  shows "- h \<le> snd (position (reflectZ h t)) \<and> snd (position (reflectZ h t)) \<le> h"
  using assms by (simp add: reflectZ_def)

lemma advanceTornado_fields [simp]:
  "lifetime (advanceTornado dt hx hz r t) = lifetime t - dt"
  "tornado_id (advanceTornado dt hx hz r t) = tornado_id t"
  "radius (advanceTornado dt hx hz r t) = radius t"
  by (simp_all add: advanceTornado_def)

lemma advanceTornado_bounds:
  assumes "0 \<le> hx" and "0 \<le> hz"
  shows "- hx \<le> fst (position (advanceTornado dt hx hz r t))"
    and "fst (position (advanceTornado dt hx hz r t)) \<le> hx"
    and "- hz \<le> snd (position (advanceTornado dt hx hz r t))"
    and "snd (position (advanceTornado dt hx hz r t)) \<le> hz"
  using reflectX_bounds [OF assms(1)] reflectZ_bounds [OF assms(2)]
  by (simp_all add: advanceTornado_def)

lemma stepTornado_expired:
  assumes "lifetime t - dt \<le> 0"
  shows "stepTornado dt hx hz rs t acc = acc"
  using assms by (simp add: stepTornado_def case_prod_beta)

lemma stepTornado_active:
  assumes "0 < lifetime t - dt"
  shows "stepTornado dt hx hz rs t acc =
           (fst acc + 1, advanceTornado dt hx hz (rs (fst acc)) t # fst (snd acc),
            snd (snd acc) @ [viewOf (advanceTornado dt hx hz (rs (fst acc)) t)])"
  using assms by (simp add: stepTornado_def case_prod_beta Let_def)

text \<open>The tornadoes the loop keeps: identifiers and lifetimes.\<close>

lemma foldr_stepTornado_lifetimes:
  "map (\<lambda>t. (tornado_id t, lifetime t)) (fst (snd (foldr (stepTornado dt hx hz rs) ts acc))) =
     map (\<lambda>t. (tornado_id t, lifetime t - dt)) (filter (\<lambda>t. 0 < lifetime t - dt) ts)
       @ map (\<lambda>t. (tornado_id t, lifetime t)) (fst (snd acc))"
proof (induction ts)
  case Nil
  show ?case by simp
next
  case (Cons t ts)
  show ?case
  proof (cases "0 < lifetime t - dt")
    case True
    then show ?thesis using Cons.IH by (simp add: stepTornado_active)
  next
    case False
    then have "lifetime t - dt \<le> 0" by simp
    then show ?thesis using Cons.IH False by (simp add: stepTornado_expired)
  qed
qed

text \<open>Every tornado the loop keeps went through \<open>advanceTornado\<close>.\<close>

lemma foldr_stepTornado_kept:
  assumes "t' \<in> set (fst (snd (foldr (stepTornado dt hx hz rs) ts acc)))"
  shows "t' \<in> set (fst (snd acc)) \<or>
         (\<exists>t r. t \<in> set ts \<and> 0 < lifetime t - dt \<and> t' = advanceTornado dt hx hz r t)"
  using assms
proof (induction ts arbitrary: t')
  case Nil
  then show ?case by simp
next
  case (Cons t ts)
  show ?case
  proof (cases "0 < lifetime t - dt")
    case True
    with Cons.prems have "t' = advanceTornado dt hx hz (rs (fst (foldr (stepTornado dt hx hz rs) ts acc))) t
        \<or> t' \<in> set (fst (snd (foldr (stepTornado dt hx hz rs) ts acc)))"
      by (simp add: stepTornado_active)
    then show ?thesis
    proof
      assume "t' = advanceTornado dt hx hz (rs (fst (foldr (stepTornado dt hx hz rs) ts acc))) t"
      with True show ?thesis by auto
    next
      assume "t' \<in> set (fst (snd (foldr (stepTornado dt hx hz rs) ts acc)))"
      from Cons.IH [OF this] show ?thesis by auto
    qed
  next
    case False
    then have "lifetime t - dt \<le> 0" by simp
    with Cons.prems have "t' \<in> set (fst (snd (foldr (stepTornado dt hx hz rs) ts acc)))"
      by (simp add: stepTornado_expired)
    from Cons.IH [OF this] show ?thesis by auto
  qed
qed

text \<open>Every view the loop pushes is the view of a tornado it keeps.\<close>

lemma foldr_stepTornado_views:
  "set (snd (snd (foldr (stepTornado dt hx hz rs) ts acc))) \<subseteq>
     set (snd (snd acc)) \<union> viewOf ` set (fst (snd (foldr (stepTornado dt hx hz rs) ts acc)))"
proof (induction ts)
  case Nil
  show ?case by simp
next
  case (Cons t ts)
  show ?case
  proof (cases "0 < lifetime t - dt")
    case True
    then show ?thesis using Cons.IH by (auto simp add: stepTornado_active)
  next
    case False
    then have "lifetime t - dt \<le> 0" by simp
    then show ?thesis using Cons.IH by (simp add: stepTornado_expired)
  qed
qed

lemma TornadoSystem_update_tornadoes:
  "tornadoes (snd (TornadoSystem_update g rs sys dt i allow)) =
     fst (snd (foldr (stepTornado dt ((real (width g) * tileSize g) / 2) ((real (depth g) * tileSize g) / 2) rs)
                 (tornadoes (fst (autoSpawn g rs sys dt i allow)))
                 (snd (autoSpawn g rs sys dt i allow), [], [])))"
  by (simp add: TornadoSystem_update_def case_prod_beta Let_def)

lemma TornadoSystem_update_views:
  "fst (TornadoSystem_update g rs sys dt i allow) =
     snd (snd (foldr (stepTornado dt ((real (width g) * tileSize g) / 2) ((real (depth g) * tileSize g) / 2) rs)
                 (tornadoes (fst (autoSpawn g rs sys dt i allow)))
                 (snd (autoSpawn g rs sys dt i allow), [], [])))"
  by (simp add: TornadoSystem_update_def case_prod_beta Let_def)

lemma autoSpawn_off [simp]:
  "autoSpawn g rs sys dt i False = (sys, 0)"
  by (simp add: autoSpawn_def)

lemma autoSpawn_tornadoes:
  "\<exists>spawned. length spawned \<le> 1 \<and>
      tornadoes (fst (autoSpawn g rs sys dt i allow)) = tornadoes sys @ spawned"
  by (simp add: autoSpawn_def spawnManual_def createEntity_def Let_def case_prod_beta)

lemma autoSpawn_spawned:
  "\<exists>spawned. length spawned \<le> 1 \<and> (allow \<or> spawned = []) \<and>
      tornadoes (fst (autoSpawn g rs sys dt i allow)) = tornadoes sys @ spawned"
  by (simp add: autoSpawn_def spawnManual_def createEntity_def Let_def case_prod_beta)

text \<open>
  C5. One call of \<open>update\<close> with time step \<open>dt\<close>. The active list at the start
  of the loop is the list before the call, followed by the tornado spawned in this
  call if there is one. After the call the active list holds, in the same order,
  exactly the tornadoes of that list whose lifetime \<open>L\<close> satisfies \<open>0 < L - dt\<close>,
  each with lifetime \<open>L - dt\<close>: a tornado with \<open>L - dt \<le> 0\<close> is removed in this call,
  and no other is. Every tornado left active has a positive lifetime, so the call
  that removes a tornado is the first in which its lifetime is not positive. This
  holds for every \<open>dt\<close>; for \<open>0 < dt\<close> the new lifetime is smaller than the old one.
\<close>

theorem C5_tornado_lifetime:
  "\<exists>spawned. length spawned \<le> 1 \<and> (allow \<or> spawned = []) \<and>
     tornadoes (fst (autoSpawn g rs sys dt i allow)) = tornadoes sys @ spawned \<and>
     map (\<lambda>t. (tornado_id t, lifetime t)) (tornadoes (snd (TornadoSystem_update g rs sys dt i allow))) =
       map (\<lambda>t. (tornado_id t, lifetime t - dt))
         (filter (\<lambda>t. 0 < lifetime t - dt) (tornadoes sys @ spawned)) \<and>
     list_all (\<lambda>t. 0 < lifetime t) (tornadoes (snd (TornadoSystem_update g rs sys dt i allow)))"
proof -
  let ?after = "tornadoes (snd (TornadoSystem_update g rs sys dt i allow))"
  let ?start = "tornadoes (fst (autoSpawn g rs sys dt i allow))"
  obtain spawned where sp: "length spawned \<le> 1" "allow \<or> spawned = []"
      "?start = tornadoes sys @ spawned"
    using autoSpawn_spawned [of allow g rs sys dt i] by blast
  have eq: "map (\<lambda>t. (tornado_id t, lifetime t)) ?after =
      map (\<lambda>t. (tornado_id t, lifetime t - dt)) (filter (\<lambda>t. 0 < lifetime t - dt) ?start)"
    unfolding TornadoSystem_update_tornadoes
    using foldr_stepTornado_lifetimes [of dt _ _ rs ?start "(snd (autoSpawn g rs sys dt i allow), [], [])"]
    by simp
  have "\<forall>p \<in> set (map (\<lambda>t. (tornado_id t, lifetime t)) ?after). 0 < snd p"
    unfolding eq by auto
  then have pos: "list_all (\<lambda>t. 0 < lifetime t) ?after"
    by (simp add: list_all_iff)
  from sp eq pos show ?thesis by auto
qed

text \<open>Over the town, with a time step of one half: the fading tornado goes, the other stays.\<close>

theorem C5_tornado_lifetime_witness:
  "map (\<lambda>t. (tornado_id t, lifetime t))
     (tornadoes (snd (TornadoSystem_update (GridWorld_new townConfig) calm stormSystem (1 / 2) 1 False)))
     = [(1, 19 / 2)]"
  using C5_tornado_lifetime [of False "GridWorld_new townConfig" calm stormSystem "1 / 2" 1]
  by (auto simp add: stormSystem_def edgeTornado_def fadingTornado_def)

lemma reflectX_east:
  assumes "0 \<le> h" and "h < fst (position t)"
  shows "position (reflectX h t) = (h, snd (position t))"
    and "velocity (reflectX h t) = (- fst (velocity t), snd (velocity t))"
  using assms by (simp_all add: reflectX_def)

lemma reflectX_west:
  assumes "0 \<le> h" and "fst (position t) < - h"
  shows "position (reflectX h t) = (- h, snd (position t))"
    and "velocity (reflectX h t) = (- fst (velocity t), snd (velocity t))"
  using assms by (simp_all add: reflectX_def)

lemma reflectX_inside:
  assumes "- h \<le> fst (position t)" and "fst (position t) \<le> h"
  shows "reflectX h t = t"
  using assms by (simp add: reflectX_def)

lemma reflectZ_south:
  assumes "0 \<le> h" and "h < snd (position t)"
  shows "position (reflectZ h t) = (fst (position t), h)"
    and "velocity (reflectZ h t) = (fst (velocity t), - snd (velocity t))"
  using assms by (simp_all add: reflectZ_def)

lemma reflectZ_north:
  assumes "0 \<le> h" and "snd (position t) < - h"
  shows "position (reflectZ h t) = (fst (position t), - h)"
    and "velocity (reflectZ h t) = (fst (velocity t), - snd (velocity t))"
  using assms by (simp_all add: reflectZ_def)

lemma reflectZ_inside:
  assumes "- h \<le> snd (position t)" and "snd (position t) \<le> h"
  shows "reflectZ h t = t"
  using assms by (simp add: reflectZ_def)

lemma TornadoSystem_update_advanced:
  assumes "t' \<in> set (tornadoes (snd (TornadoSystem_update g rs sys dt i allow)))"
  shows "\<exists>t r. t \<in> set (tornadoes (fst (autoSpawn g rs sys dt i allow))) \<and> 0 < lifetime t - dt \<and>
           t' = advanceTornado dt ((real (width g) * tileSize g) / 2) ((real (depth g) * tileSize g) / 2) r t"
  using foldr_stepTornado_kept [OF assms [unfolded TornadoSystem_update_tornadoes]]
  by simp

lemma advanceTornado_abs_bounds:
  assumes "0 \<le> hx" and "0 \<le> hz"
  shows "\<bar>fst (position (advanceTornado dt hx hz r t))\<bar> \<le> hx
       \<and> \<bar>snd (position (advanceTornado dt hx hz r t))\<bar> \<le> hz"
  using advanceTornado_bounds [OF assms, of dt r t] by linarith

lemma TornadoSystem_update_in_bounds:
  assumes "0 \<le> tileSize g"
    and "t' \<in> set (tornadoes (snd (TornadoSystem_update g rs sys dt i allow)))"
  shows "\<bar>fst (position t')\<bar> \<le> (real (width g) * tileSize g) / 2
       \<and> \<bar>snd (position t')\<bar> \<le> (real (depth g) * tileSize g) / 2"
proof -
  let ?hx = "(real (width g) * tileSize g) / 2" and ?hz = "(real (depth g) * tileSize g) / 2"
  from assms(1) have hx: "0 \<le> ?hx" and hz: "0 \<le> ?hz" by simp_all
  obtain t r where t': "t' = advanceTornado dt ?hx ?hz r t"
    using TornadoSystem_update_advanced [OF assms(2)] by blast
  show ?thesis
    unfolding t' by (rule advanceTornado_abs_bounds [OF hx hz])
qed

lemma TornadoSystem_update_views_in_bounds:
  assumes "0 \<le> tileSize g"
    and "v \<in> set (fst (TornadoSystem_update g rs sys dt i allow))"
  shows "\<bar>view_x v\<bar> \<le> (real (width g) * tileSize g) / 2
       \<and> \<bar>view_z v\<bar> \<le> (real (depth g) * tileSize g) / 2"
proof -
  from assms(2) have "v \<in> viewOf ` set (tornadoes (snd (TornadoSystem_update g rs sys dt i allow)))"
    unfolding TornadoSystem_update_views TornadoSystem_update_tornadoes
    using foldr_stepTornado_views
      [of dt _ _ rs "tornadoes (fst (autoSpawn g rs sys dt i allow))"
        "(snd (autoSpawn g rs sys dt i allow), [], [])"]
    by auto
  then obtain t' where t': "t' \<in> set (tornadoes (snd (TornadoSystem_update g rs sys dt i allow)))"
    and v: "v = viewOf t'" by blast
  from TornadoSystem_update_in_bounds [OF assms(1) t'] show ?thesis
    by (simp add: v viewOf_def)
qed

text \<open>
  C6. One call of \<open>update\<close> on a world whose tile size is not negative, with
  half-extents \<open>halfW\<close> and \<open>halfD\<close>. Every tornado left active is the result of
  \<open>advanceTornado\<close>, which ends with the two boundary tests \<open>reflectX\<close> and
  \<open>reflectZ\<close> applied to the translated tornado. A test whose position component is
  beyond the half-extent sets that component to the half-extent it passed and
  negates the velocity component of that axis; a test whose component is inside
  changes nothing. Hence after the call every active tornado, and every view
  returned, lies within the half-extents on both axes.
\<close>

theorem C6_boundary_reflection:
  assumes "0 \<le> tileSize g"
  shows "(\<forall>t' \<in> set (tornadoes (snd (TornadoSystem_update g rs sys dt i allow))).
            (\<exists>t r. t \<in> set (tornadoes (fst (autoSpawn g rs sys dt i allow))) \<and>
               t' = reflectZ ((real (depth g) * tileSize g) / 2)
                      (reflectX ((real (width g) * tileSize g) / 2)
                        (translate dt (steer dt r (t\<lparr>lifetime := lifetime t - dt\<rparr>))))) \<and>
            \<bar>fst (position t')\<bar> \<le> (real (width g) * tileSize g) / 2 \<and>
            \<bar>snd (position t')\<bar> \<le> (real (depth g) * tileSize g) / 2)
       \<and> (\<forall>v \<in> set (fst (TornadoSystem_update g rs sys dt i allow)).
            \<bar>view_x v\<bar> \<le> (real (width g) * tileSize g) / 2 \<and>
            \<bar>view_z v\<bar> \<le> (real (depth g) * tileSize g) / 2)
       \<and> (\<forall>h t. 0 \<le> h \<longrightarrow>
            (h < fst (position t) \<longrightarrow>
               position (reflectX h t) = (h, snd (position t)) \<and>
               velocity (reflectX h t) = (- fst (velocity t), snd (velocity t))) \<and>
            (fst (position t) < - h \<longrightarrow>
               position (reflectX h t) = (- h, snd (position t)) \<and>
               velocity (reflectX h t) = (- fst (velocity t), snd (velocity t))) \<and>
            (- h \<le> fst (position t) \<and> fst (position t) \<le> h \<longrightarrow> reflectX h t = t) \<and>
            (h < snd (position t) \<longrightarrow>
               position (reflectZ h t) = (fst (position t), h) \<and>
               velocity (reflectZ h t) = (fst (velocity t), - snd (velocity t))) \<and>
            (snd (position t) < - h \<longrightarrow>
               position (reflectZ h t) = (fst (position t), - h) \<and>
               velocity (reflectZ h t) = (fst (velocity t), - snd (velocity t))) \<and>
            (- h \<le> snd (position t) \<and> snd (position t) \<le> h \<longrightarrow> reflectZ h t = t))"
proof (intro conjI ballI allI impI)
  fix t' assume t': "t' \<in> set (tornadoes (snd (TornadoSystem_update g rs sys dt i allow)))"
  from TornadoSystem_update_advanced [OF t']
  show "\<exists>t r. t \<in> set (tornadoes (fst (autoSpawn g rs sys dt i allow))) \<and>
               t' = reflectZ ((real (depth g) * tileSize g) / 2)
                      (reflectX ((real (width g) * tileSize g) / 2)
                        (translate dt (steer dt r (t\<lparr>lifetime := lifetime t - dt\<rparr>))))"
    unfolding advanceTornado_def by blast
  from TornadoSystem_update_in_bounds [OF assms t']
  show "\<bar>fst (position t')\<bar> \<le> (real (width g) * tileSize g) / 2"
    and "\<bar>snd (position t')\<bar> \<le> (real (depth g) * tileSize g) / 2" by simp_all
next
  fix v assume v: "v \<in> set (fst (TornadoSystem_update g rs sys dt i allow))"
  from TornadoSystem_update_views_in_bounds [OF assms v]
  show "\<bar>view_x v\<bar> \<le> (real (width g) * tileSize g) / 2"
    and "\<bar>view_z v\<bar> \<le> (real (depth g) * tileSize g) / 2" by simp_all
next
  fix h :: real and t :: TornadoEntity
  assume h: "0 \<le> h"
  { assume "h < fst (position t)"
    from reflectX_east [OF h this]
    show "position (reflectX h t) = (h, snd (position t))"
      and "velocity (reflectX h t) = (- fst (velocity t), snd (velocity t))" by simp_all }
  { assume "fst (position t) < - h"
    from reflectX_west [OF h this]
    show "position (reflectX h t) = (- h, snd (position t))"
      and "velocity (reflectX h t) = (- fst (velocity t), snd (velocity t))" by simp_all }
  { assume "- h \<le> fst (position t) \<and> fst (position t) \<le> h"
    then show "reflectX h t = t" by (simp add: reflectX_inside) }
  { assume "h < snd (position t)"
    from reflectZ_south [OF h this]
    show "position (reflectZ h t) = (fst (position t), h)"
      and "velocity (reflectZ h t) = (fst (velocity t), - snd (velocity t))" by simp_all }
  { assume "snd (position t) < - h"
    from reflectZ_north [OF h this]
    show "position (reflectZ h t) = (fst (position t), - h)"
      and "velocity (reflectZ h t) = (fst (velocity t), - snd (velocity t))" by simp_all }
  { assume "- h \<le> snd (position t) \<and> snd (position t) \<le> h"
    then show "reflectZ h t = t" by (simp add: reflectZ_inside) }
qed

text \<open>
  Over the town, whose half-extents are 2: the tornado at the eastern edge is
  translated to \<open>x = 5 / 2\<close>, put back on the edge, and turned around.
\<close>

lemma storm_update:
  "tornadoes (snd (TornadoSystem_update (GridWorld_new townConfig) calm stormSystem (1 / 2) 1 False)) =
     [\<lparr>tornado_id = 1, position = (2, 0), velocity = (- 1, 0), radius = 3, lifetime = 19 / 2\<rparr>]"
  by (simp add: TornadoSystem_update_tornadoes GridWorld_new_dims townConfig_def stormSystem_def
      edgeTornado_def fadingTornado_def stepTornado_def advanceTornado_def steer_def translate_def
      reflectX_def reflectZ_def rotateAround_def calm_def Let_def)

theorem C6_boundary_reflection_witness:
  "0 \<le> tileSize (GridWorld_new townConfig)
   \<and> map position (tornadoes (snd (TornadoSystem_update (GridWorld_new townConfig) calm stormSystem (1 / 2) 1 False)))
       = [(2, 0)]
   \<and> map velocity (tornadoes (snd (TornadoSystem_update (GridWorld_new townConfig) calm stormSystem (1 / 2) 1 False)))
       = [(- 1, 0)]
   \<and> list_all (\<lambda>t. \<bar>fst (position t)\<bar> \<le> 2 \<and> \<bar>snd (position t)\<bar> \<le> 2)
       (tornadoes (snd (TornadoSystem_update (GridWorld_new townConfig) calm stormSystem (1 / 2) 1 False)))"
proof -
  have size: "0 \<le> tileSize (GridWorld_new townConfig)"
    by (simp add: GridWorld_new_dims townConfig_def)
  have half: "(real (width (GridWorld_new townConfig)) * tileSize (GridWorld_new townConfig)) / 2 = 2"
    "(real (depth (GridWorld_new townConfig)) * tileSize (GridWorld_new townConfig)) / 2 = 2"
    by (simp_all add: GridWorld_new_dims townConfig_def)
  note res = C6_boundary_reflection [OF size, of calm stormSystem "1 / 2" 1 False, unfolded half]
  from res have "\<forall>t' \<in> set (tornadoes (snd (TornadoSystem_update (GridWorld_new townConfig) calm stormSystem (1 / 2) 1 False))).
      \<bar>fst (position t')\<bar> \<le> 2 \<and> \<bar>snd (position t')\<bar> \<le> 2"
    by blast
  then have "list_all (\<lambda>t. \<bar>fst (position t)\<bar> \<le> 2 \<and> \<bar>snd (position t)\<bar> \<le> 2)
       (tornadoes (snd (TornadoSystem_update (GridWorld_new townConfig) calm stormSystem (1 / 2) 1 False)))"
    by (simp add: list_all_iff)
  with size show ?thesis by (simp add: storm_update)
qed

section \<open>The siren\<close>

lemma scanTile_sirenHold [simp]:
  "sirenHold (scan_weather (scanTile tornado sc c)) = sirenHold (scan_weather sc)"
  by (cases c) (simp add: scanTile_def Let_def case_prod_beta)

lemma scanTile_tornadoSystem [simp]:
  "tornadoSystem (scan_weather (scanTile tornado sc c)) = tornadoSystem (scan_weather sc)"
  by (cases c) (simp add: scanTile_def Let_def case_prod_beta)

lemma foldl_scanTile_sirenHold [simp]:
  "sirenHold (scan_weather (foldl (scanTile tornado) sc cs)) = sirenHold (scan_weather sc)"
  by (induction cs arbitrary: sc) simp_all

lemma foldl_scanTile_tornadoSystem [simp]:
  "tornadoSystem (scan_weather (foldl (scanTile tornado) sc cs)) = tornadoSystem (scan_weather sc)"
  by (induction cs arbitrary: sc) simp_all

lemma scanTornado_sirenHold [simp]:
  "sirenHold (scan_weather (scanTornado sc tornado)) = sirenHold (scan_weather sc)"
  by (simp add: scanTornado_def Let_def split: option.split)

lemma scanTornado_tornadoSystem [simp]:
  "tornadoSystem (scan_weather (scanTornado sc tornado)) = tornadoSystem (scan_weather sc)"
  by (simp add: scanTornado_def Let_def split: option.split)

lemma foldl_scanTornado_sirenHold [simp]:
  "sirenHold (scan_weather (foldl scanTornado sc views)) = sirenHold (scan_weather sc)"
  by (induction views arbitrary: sc) simp_all

lemma foldl_scanTornado_tornadoSystem [simp]:
  "tornadoSystem (scan_weather (foldl scanTornado sc views)) = tornadoSystem (scan_weather sc)"
  by (induction views arbitrary: sc) simp_all

lemma markDestructionPath_sirenHold [simp]:
  "sirenHold (snd (markDestructionPath ws views)) = sirenHold ws"
  by (simp add: markDestructionPath_def Let_def case_prod_beta)

lemma markDestructionPath_tornadoSystem [simp]:
  "tornadoSystem (snd (markDestructionPath ws views)) = tornadoSystem ws"
  by (simp add: markDestructionPath_def Let_def case_prod_beta)

lemma advanceWeather_sirenHold [simp]:
  "sirenHold (snd (snd (advanceWeather ws rs sdt st))) = sirenHold ws"
  by (simp add: advanceWeather_def Let_def case_prod_beta)

text \<open>What one call of \<open>update\<close> while playing does to the hold, and what it returns.\<close>

lemma WeatherSystem_update_hold:
  assumes "playing st"
  shows "sirenHold (snd (WeatherSystem_update ws rs dt st)) =
           (if nearTownIn ws rs dt st then 3 else max 0 (sirenHold ws - dt * timeScale st))"
  using assms by (simp add: WeatherSystem_update_def nearTownIn_def Let_def case_prod_beta)

lemma WeatherSystem_update_siren:
  assumes "playing st"
  shows "sirenActive (fst (WeatherSystem_update ws rs dt st)) =
           (0 < sirenHold (snd (WeatherSystem_update ws rs dt st)))"
  using assms by (simp add: WeatherSystem_update_def Let_def case_prod_beta)

lemma WeatherSystem_update_paused:
  assumes "\<not> playing st"
  shows "snd (WeatherSystem_update ws rs dt st) = ws"
    and "\<not> sirenActive (fst (WeatherSystem_update ws rs dt st))"
  using assms by (simp_all add: WeatherSystem_update_def Let_def)

lemma weatherBefore_0 [simp]: "weatherBefore ws ticks 0 = ws"
  by (simp add: weatherBefore_def)

lemma weatherBefore_Suc:
  assumes "k < length ticks"
  shows "weatherBefore ws ticks (Suc k) = tick (weatherBefore ws ticks k) (ticks ! k)"
  using assms by (simp add: weatherBefore_def take_Suc_conv_app_nth)

lemma hold_Suc:
  assumes "k < length ticks" and "playingAt ticks k"
  shows "sirenHold (weatherBefore ws ticks (Suc k)) =
           (if nearAt ws ticks k then 3
            else max 0 (sirenHold (weatherBefore ws ticks k) - scaledDtAt ticks k))"
proof -
  obtain rs dt st where t: "ticks ! k = (rs, dt, st)" by (cases "ticks ! k") auto
  from assms(2) have "playing st" by (simp add: playingAt_def t)
  from WeatherSystem_update_hold [OF this] show ?thesis
    by (simp add: weatherBefore_Suc [OF assms(1)] tick_def nearAt_def scaledDtAt_def t)
qed

lemma sirenAt_hold:
  assumes "k < length ticks" and "playingAt ticks k"
  shows "sirenAt ws ticks k = (0 < sirenHold (weatherBefore ws ticks (Suc k)))"
proof -
  obtain rs dt st where t: "ticks ! k = (rs, dt, st)" by (cases "ticks ! k") auto
  from assms(2) have "playing st" by (simp add: playingAt_def t)
  from WeatherSystem_update_siren [OF this] show ?thesis
    by (simp add: weatherBefore_Suc [OF assms(1)] tick_def sirenAt_def t)
qed

text \<open>
  A timer that is set to 3 when a condition holds, and otherwise counts down to 0,
  exceeds \<open>c\<close> exactly when the condition held less than \<open>3 - c\<close> ago.
\<close>

lemma hold_window:
  fixes h d :: "nat \<Rightarrow> real" and near :: "nat \<Rightarrow> bool"
  assumes h0: "h 0 = 0"
    and step: "\<And>k. k < n \<Longrightarrow> h (Suc k) = (if near k then 3 else max 0 (h k - d k))"
    and pos: "\<And>k. k < n \<Longrightarrow> 0 \<le> d k"
  shows "k \<le> n \<Longrightarrow> 0 \<le> c \<Longrightarrow> c < h k \<longleftrightarrow> (\<exists>j<k. near j \<and> c < 3 - (\<Sum>i = Suc j..<k. d i))"
proof (induction k arbitrary: c)
  case 0
  then show ?case by (simp add: h0)
next
  case (Suc k)
  from Suc.prems have k: "k < n" and kn: "k \<le> n" by simp_all
  have sums: "(\<Sum>i = Suc j..<Suc k. d i) = (\<Sum>i = Suc j..<k. d i) + d k" if "j < k" for j
    using that by (simp add: not_less)
  show ?case
  proof (cases "near k")
    case True
    have nonneg: "0 \<le> (\<Sum>i = Suc j..<Suc k. d i)" for j
      by (rule sum_nonneg) (use k pos in auto)
    have "c < h (Suc k) \<longleftrightarrow> c < 3" by (simp add: step [OF k] True)
    also have "\<dots> \<longleftrightarrow> (\<exists>j<Suc k. near j \<and> c < 3 - (\<Sum>i = Suc j..<Suc k. d i))"
    proof
      assume "c < 3"
      with True have "near k \<and> c < 3 - (\<Sum>i = Suc k..<Suc k. d i)" by simp
      then show "\<exists>j<Suc k. near j \<and> c < 3 - (\<Sum>i = Suc j..<Suc k. d i)" by blast
    next
      assume "\<exists>j<Suc k. near j \<and> c < 3 - (\<Sum>i = Suc j..<Suc k. d i)"
      then obtain j where "c < 3 - (\<Sum>i = Suc j..<Suc k. d i)" by blast
      with nonneg [of j] show "c < 3" by linarith
    qed
    finally show ?thesis .
  next
    case False
    from pos [OF k] Suc.prems(2) have cd: "0 \<le> c + d k" by simp
    have "c < h (Suc k) \<longleftrightarrow> c + d k < h k"
      using Suc.prems(2) by (auto simp add: step [OF k] False)
    also have "\<dots> \<longleftrightarrow> (\<exists>j<k. near j \<and> c + d k < 3 - (\<Sum>i = Suc j..<k. d i))"
      by (rule Suc.IH [OF kn cd])
    also have "\<dots> \<longleftrightarrow> (\<exists>j<k. near j \<and> c < 3 - (\<Sum>i = Suc j..<Suc k. d i))"
    proof -
      have "c + d k < 3 - (\<Sum>i = Suc j..<k. d i) \<longleftrightarrow> c < 3 - (\<Sum>i = Suc j..<Suc k. d i)"
        if "j < k" for j
        unfolding sums [OF that] by linarith
      then show ?thesis by blast
    qed
    also have "\<dots> \<longleftrightarrow> (\<exists>j<Suc k. near j \<and> c < 3 - (\<Sum>i = Suc j..<Suc k. d i))"
      using False less_Suc_eq by auto
    finally show ?thesis .
  qed
qed

text \<open>
  C9, with the time that \<open>update\<close> takes from the hold. A run of calls of
  \<open>update\<close>, all while playing and none with a negative scaled time step, from a
  weather system whose hold is 0 (a new one, or one that was reset). Call \<open>i\<close> lasts
  \<open>dt * timeScale\<close> scaled seconds. The siren flag returned by call \<open>k\<close> is true
  exactly when some call \<open>j \<le> k\<close> found a tornado near the town and the calls after
  \<open>j\<close> up to \<open>k\<close> last less than 3 scaled seconds together. So the flag is true in
  the call that finds a tornado near and stays true until 3 scaled seconds have
  passed since the last such call, and it is never true without such a call in the
  window. At time scale 1 scaled seconds are seconds.
\<close>

theorem C9_siren_hold:
  assumes "sirenHold ws = 0"
    and "\<forall>i<length ticks. playingAt ticks i \<and> 0 \<le> scaledDtAt ticks i"
    and "k < length ticks"
  shows "sirenAt ws ticks k \<longleftrightarrow>
           (\<exists>j\<le>k. nearAt ws ticks j \<and> (\<Sum>i = Suc j..k. scaledDtAt ticks i) < 3)"
proof -
  let ?h = "\<lambda>i. sirenHold (weatherBefore ws ticks i)"
  have h0: "?h 0 = 0" by (simp add: assms(1))
  have step: "?h (Suc i) = (if nearAt ws ticks i then 3 else max 0 (?h i - scaledDtAt ticks i))"
    if "i < length ticks" for i
    using that assms(2) by (simp add: hold_Suc)
  have pos: "0 \<le> scaledDtAt ticks i" if "i < length ticks" for i
    using that assms(2) by simp
  have k: "Suc k \<le> length ticks" using assms(3) by simp
  have "sirenAt ws ticks k \<longleftrightarrow> 0 < ?h (Suc k)"
    using assms(2,3) by (simp add: sirenAt_hold)
  also have "\<dots> \<longleftrightarrow> (\<exists>j<Suc k. nearAt ws ticks j \<and> 0 < 3 - (\<Sum>i = Suc j..<Suc k. scaledDtAt ticks i))"
    by (rule hold_window [where h = ?h and n = "length ticks", OF h0 step pos k]) simp_all
  also have "\<dots> \<longleftrightarrow> (\<exists>j\<le>k. nearAt ws ticks j \<and> (\<Sum>i = Suc j..k. scaledDtAt ticks i) < 3)"
    by (simp add: less_Suc_eq_le atLeastLessThanSuc_atLeastAtMost)
  finally show ?thesis .
qed

lemma scanTornado_outside:
  assumes "worldToTile (world (scan_weather sc)) (view_x v) (view_z v) = None"
  shows "scanTornado sc v = sc"
  using assms by (simp add: scanTornado_def Let_def)

lemma foldl_scanTornado_outside:
  assumes "list_all (\<lambda>v. worldToTile (world (scan_weather sc)) (view_x v) (view_z v) = None) views"
  shows "foldl scanTornado sc views = sc"
  using assms by (induction views) (simp_all add: scanTornado_outside)

lemma markDestructionPath_outside:
  assumes "list_all (\<lambda>v. worldToTile (world ws) (view_x v) (view_z v) = None) views"
  shows "snd (markDestructionPath ws views) = ws"
proof -
  let ?sc = "\<lparr>scan_weather = ws, scan_changed = False, scan_treesChanged = False,
              destroyedBuildingIds = []\<rparr>"
  have "foldl scanTornado ?sc views = ?sc"
    by (rule foldl_scanTornado_outside) (use assms in simp)
  then show ?thesis by (simp add: markDestructionPath_def Let_def)
qed

lemma advanceWeather_views:
  "fst (advanceWeather ws rs sdt st) =
     fst (TornadoSystem_update (world ws) rs (tornadoSystem ws) sdt (intensity st) True)"
  by (simp add: advanceWeather_def Let_def case_prod_beta)

lemma advanceWeather_tornadoSystem:
  "tornadoSystem (snd (snd (advanceWeather ws rs sdt st))) =
     snd (TornadoSystem_update (world ws) rs (tornadoSystem ws) sdt (intensity st) True)"
  by (simp add: advanceWeather_def Let_def case_prod_beta)

lemma advanceWeather_world_outside:
  assumes "list_all (\<lambda>v. worldToTile (world ws) (view_x v) (view_z v) = None)
             (fst (TornadoSystem_update (world ws) rs (tornadoSystem ws) sdt (intensity st) True))"
  shows "world (snd (snd (advanceWeather ws rs sdt st))) = world ws"
  using assms by (simp add: advanceWeather_def Let_def case_prod_beta markDestructionPath_outside)

lemma tick_playing:
  assumes "playing st"
  shows "world (tick ws (rs, dt, st)) = world (snd (snd (advanceWeather ws rs (dt * timeScale st) st)))"
    and "tornadoSystem (tick ws (rs, dt, st)) =
           tornadoSystem (snd (snd (advanceWeather ws rs (dt * timeScale st) st)))"
  using assms by (simp_all add: tick_def WeatherSystem_update_def Let_def case_prod_beta)

text \<open>The tornado of the example, call by call.\<close>

lemma late_update_alive:
  "TornadoSystem_update (world villaWeather) calm \<lparr>tornadoes = [lateTornado], idCounter = 1\<rparr> 1 0 True =
     ([\<lparr>view_x = 3 / 2, view_z = 0, view_radius = 3\<rparr>],
      \<lparr>tornadoes = [lateTornado\<lparr>lifetime := 1 / 2\<rparr>], idCounter = 1\<rparr>)"
  by (simp add: TornadoSystem_update_def autoSpawn_def villa_world lateTornado_def
      stepTornado_def advanceTornado_def steer_def translate_def reflectX_def reflectZ_def
      rotateAround_def viewOf_def calm_def Let_def)

lemma late_update_expired:
  "TornadoSystem_update (world villaWeather) calm
     \<lparr>tornadoes = [lateTornado\<lparr>lifetime := 1 / 2\<rparr>], idCounter = 1\<rparr> 1 0 True =
     ([], \<lparr>tornadoes = [], idCounter = 1\<rparr>)"
  by (simp add: TornadoSystem_update_def autoSpawn_def lateTornado_def stepTornado_def calm_def Let_def)

lemma quiet_update:
  "TornadoSystem_update g calm \<lparr>tornadoes = [], idCounter = 1\<rparr> dt 0 True =
     ([], \<lparr>tornadoes = [], idCounter = 1\<rparr>)"
  by (simp add: TornadoSystem_update_def autoSpawn_def calm_def Let_def)

lemma edge_outside: "worldToTile (world villaWeather) (3 / 2) 0 = None"
  by (simp add: worldToTile_def villa_world inBounds_def Let_def)

lemma villa_buildings: "buildings (world villaWeather) = [(building_id villa, villa)]"
  by (simp add: villaWeather_def WeatherSystem_new_def applySnapshot_buildings
      villaSnapshot_def GridWorld_new_dims villaConfig_def)

lemma villa_alarm:
  "isAnyTornadoNearTown (world villaWeather) [\<lparr>view_x = 3 / 2, view_z = 0, view_radius = 3\<rparr>]"
proof -
  have "sqrt (9 / 4) \<le> 11"
    by (rule real_le_lsqrt) (simp_all add: power2_eq_square)
  then show ?thesis
    by (simp add: isAnyTornadoNearTown_def villa_buildings tornadoNearBuilding_def
        case_prod_beta tileToWorld_xz villa_world villa_def SIREN_RADIUS_TILES_def Let_def)
qed

lemma no_views_no_alarm: "\<not> isAnyTornadoNearTown g []"
  by (simp add: isAnyTornadoNearTown_def)

lemma tick_outside:
  assumes "playing st"
    and upd: "TornadoSystem_update (world ws) rs (tornadoSystem ws) (dt * timeScale st) (intensity st) True
                = (views, sys')"
    and out: "list_all (\<lambda>v. worldToTile (world ws) (view_x v) (view_z v) = None) views"
  shows "world (tick ws (rs, dt, st)) = world ws"
    and "tornadoSystem (tick ws (rs, dt, st)) = sys'"
    and "nearTownIn ws rs dt st = isAnyTornadoNearTown (world ws) views"
proof -
  have w: "world (snd (snd (advanceWeather ws rs (dt * timeScale st) st))) = world ws"
    by (rule advanceWeather_world_outside) (simp add: upd out)
  show "world (tick ws (rs, dt, st)) = world ws"
    by (simp add: tick_playing(1) [OF assms(1)] w)
  show "tornadoSystem (tick ws (rs, dt, st)) = sys'"
    by (simp add: tick_playing(2) [OF assms(1)] advanceWeather_tornadoSystem upd)
  show "nearTownIn ws rs dt st = isAnyTornadoNearTown (world ws) views"
    by (simp add: nearTownIn_def case_prod_beta w advanceWeather_views upd)
qed

text \<open>The run of the example: the tornado is near in the first call and gone in the second.\<close>

lemma alarm_run:
  "nearAt alarmWeather alarmTicks 0"
  "\<not> nearAt alarmWeather alarmTicks 1"
  "\<not> nearAt alarmWeather alarmTicks 2"
proof -
  let ?t = "(calm, 1, fairState)"
  let ?w1 = "tick alarmWeather ?t"
  let ?w2 = "tick ?w1 ?t"
  have fair: "playing fairState" by (simp add: fairState_def)
  have fs: "timeScale fairState = 1" "intensity fairState = 0" by (simp_all add: fairState_def)
  have w0: "world alarmWeather = world villaWeather"
    "tornadoSystem alarmWeather = \<lparr>tornadoes = [lateTornado], idCounter = 1\<rparr>"
    by (simp_all add: alarmWeather_def)
  have u0: "TornadoSystem_update (world alarmWeather) calm (tornadoSystem alarmWeather)
      (1 * timeScale fairState) (intensity fairState) True =
      ([\<lparr>view_x = 3 / 2, view_z = 0, view_radius = 3\<rparr>],
       \<lparr>tornadoes = [lateTornado\<lparr>lifetime := 1 / 2\<rparr>], idCounter = 1\<rparr>)"
    using late_update_alive by (simp add: w0 fs)
  have o0: "list_all (\<lambda>v. worldToTile (world alarmWeather) (view_x v) (view_z v) = None)
      [\<lparr>view_x = 3 / 2, view_z = 0, view_radius = 3\<rparr>]"
    by (simp add: w0 edge_outside)
  note s0 = tick_outside [OF fair u0 o0]
  have w1: "world ?w1 = world villaWeather"
    "tornadoSystem ?w1 = \<lparr>tornadoes = [lateTornado\<lparr>lifetime := 1 / 2\<rparr>], idCounter = 1\<rparr>"
    using s0(1,2) by (simp_all add: w0)
  have u1: "TornadoSystem_update (world ?w1) calm (tornadoSystem ?w1)
      (1 * timeScale fairState) (intensity fairState) True = ([], \<lparr>tornadoes = [], idCounter = 1\<rparr>)"
    using late_update_expired by (simp add: w1 fs)
  have o1: "list_all (\<lambda>v. worldToTile (world ?w1) (view_x v) (view_z v) = None) []" by simp
  note s1 = tick_outside [OF fair u1 o1]
  have w2: "tornadoSystem ?w2 = \<lparr>tornadoes = [], idCounter = 1\<rparr>"
    using s1(2) by simp
  have u2: "TornadoSystem_update (world ?w2) calm (tornadoSystem ?w2)
      (2 * timeScale fairState) (intensity fairState) True = ([], \<lparr>tornadoes = [], idCounter = 1\<rparr>)"
    using quiet_update by (simp add: w2 fs)
  have o2: "list_all (\<lambda>v. worldToTile (world ?w2) (view_x v) (view_z v) = None) []" by simp
  note s2 = tick_outside [OF fair u2 o2]
  have nth: "alarmTicks ! 0 = ?t" "alarmTicks ! Suc 0 = ?t" "alarmTicks ! 2 = (calm, 2, fairState)"
    by (simp_all add: alarmTicks_def)
  have b1: "weatherBefore alarmWeather alarmTicks (Suc 0) = ?w1"
    by (simp add: weatherBefore_def alarmTicks_def)
  have b2: "weatherBefore alarmWeather alarmTicks 2 = ?w2"
    by (simp add: weatherBefore_def alarmTicks_def numeral_2_eq_2)
  show "nearAt alarmWeather alarmTicks 0"
    using s0(3) villa_alarm by (simp add: nearAt_def nth w0)
  show "\<not> nearAt alarmWeather alarmTicks 1"
    using s1(3) by (simp add: nearAt_def nth b1 no_views_no_alarm)
  show "\<not> nearAt alarmWeather alarmTicks 2"
    using s2(3) by (simp add: nearAt_def nth b2 no_views_no_alarm)
qed

lemma alarm_times:
  "scaledDtAt alarmTicks 0 = 1" "scaledDtAt alarmTicks (Suc 0) = 1" "scaledDtAt alarmTicks 2 = 2"
  "playingAt alarmTicks 0" "playingAt alarmTicks (Suc 0)" "playingAt alarmTicks 2"
  "length alarmTicks = 3"
  by (simp_all add: scaledDtAt_def playingAt_def alarmTicks_def fairState_def)

text \<open>
  In the example the siren sounds in the first call, still sounds in the second, one
  second after the tornado was near, and is silent in the third, three seconds after.
\<close>

theorem C9_siren_hold_witness:
  "sirenHold alarmWeather = 0
   \<and> list_all (\<lambda>i. playingAt alarmTicks i \<and> 0 \<le> scaledDtAt alarmTicks i) [0..<length alarmTicks]
   \<and> nearAt alarmWeather alarmTicks 0
   \<and> \<not> nearAt alarmWeather alarmTicks 1
   \<and> \<not> nearAt alarmWeather alarmTicks 2
   \<and> sirenAt alarmWeather alarmTicks 0
   \<and> sirenAt alarmWeather alarmTicks 1
   \<and> \<not> sirenAt alarmWeather alarmTicks 2"
proof -
  have hold: "sirenHold alarmWeather = 0"
    by (simp add: alarmWeather_def villaWeather_def WeatherSystem_new_def)
  have three: "i = 0 \<or> i = 1 \<or> i = 2" if "i < 3" for i :: nat
    using that by arith
  have ticks: "\<forall>i<length alarmTicks. playingAt alarmTicks i \<and> 0 \<le> scaledDtAt alarmTicks i"
  proof (intro allI impI)
    fix i assume "i < length alarmTicks"
    then have "i = 0 \<or> i = 1 \<or> i = 2" using three by (simp add: alarm_times(7))
    then show "playingAt alarmTicks i \<and> 0 \<le> scaledDtAt alarmTicks i"
      using alarm_times by auto
  qed
  then have all: "list_all (\<lambda>i. playingAt alarmTicks i \<and> 0 \<le> scaledDtAt alarmTicks i) [0..<length alarmTicks]"
    by (simp add: list_all_iff)
  note siren = C9_siren_hold [OF hold ticks]
  have s0: "sirenAt alarmWeather alarmTicks 0"
    using siren [of 0] alarm_run(1) by (simp add: alarm_times)
  have "nearAt alarmWeather alarmTicks 0 \<and> (\<Sum>i = Suc 0..1. scaledDtAt alarmTicks i) < 3"
    using alarm_run(1) by (simp add: alarm_times)
  then have "\<exists>j\<le>1. nearAt alarmWeather alarmTicks j \<and> (\<Sum>i = Suc j..1. scaledDtAt alarmTicks i) < 3"
    by blast
  then have s1: "sirenAt alarmWeather alarmTicks 1"
    using siren [of 1] by (simp add: alarm_times)
  have "\<not> (nearAt alarmWeather alarmTicks j \<and> (\<Sum>i = Suc j..2. scaledDtAt alarmTicks i) < 3)"
    if "j \<le> 2" for j
  proof -
    from that have "j = 0 \<or> j = 1 \<or> j = 2" by arith
    moreover have "{Suc 0..2::nat} = {Suc 0, 2}" by auto
    then have "(\<Sum>i = Suc 0..2. scaledDtAt alarmTicks i) = 3"
      by (simp add: alarm_times)
    ultimately show ?thesis using alarm_run(2,3) by auto
  qed
  then have "\<not> (\<exists>j\<le>2. nearAt alarmWeather alarmTicks j \<and> (\<Sum>i = Suc j..2. scaledDtAt alarmTicks i) < 3)"
    by blast
  then have s2: "\<not> sirenAt alarmWeather alarmTicks 2"
    using siren [of 2] by (simp add: alarm_times)
  from hold all alarm_run s0 s1 s2 show ?thesis by simp
qed

text \<open>The run at time scale 4: each call lasts a quarter of a second and advances the hold by one.\<close>

lemma fast_times:
  "scaledDtAt fastTicks 0 = 1" "scaledDtAt fastTicks (Suc 0) = 1"
  "scaledDtAt fastTicks 2 = 1" "scaledDtAt fastTicks 3 = 1"
  "dtAt fastTicks (Suc 0) = 1 / 4" "dtAt fastTicks 2 = 1 / 4" "dtAt fastTicks 3 = 1 / 4"
  "playingAt fastTicks 0" "playingAt fastTicks (Suc 0)" "playingAt fastTicks 2" "playingAt fastTicks 3"
  "length fastTicks = 4" "dtAt fastTicks 0 = 1 / 4"
  by (simp_all add: scaledDtAt_def dtAt_def playingAt_def fastTicks_def fastState_def)

lemma fast_run:
  "nearAt alarmWeather fastTicks 0"
  "\<not> nearAt alarmWeather fastTicks (Suc 0)"
  "\<not> nearAt alarmWeather fastTicks 2"
  "\<not> nearAt alarmWeather fastTicks 3"
proof -
  let ?t = "(calm, 1 / 4, fastState)"
  let ?w1 = "tick alarmWeather ?t"
  let ?w2 = "tick ?w1 ?t"
  let ?w3 = "tick ?w2 ?t"
  have fast: "playing fastState" by (simp add: fastState_def)
  have fs: "1 / 4 * timeScale fastState = 1" "intensity fastState = 0" by (simp_all add: fastState_def)
  have w0: "world alarmWeather = world villaWeather"
    "tornadoSystem alarmWeather = \<lparr>tornadoes = [lateTornado], idCounter = 1\<rparr>"
    by (simp_all add: alarmWeather_def)
  have u0: "TornadoSystem_update (world alarmWeather) calm (tornadoSystem alarmWeather)
      (1 / 4 * timeScale fastState) (intensity fastState) True =
      ([\<lparr>view_x = 3 / 2, view_z = 0, view_radius = 3\<rparr>],
       \<lparr>tornadoes = [lateTornado\<lparr>lifetime := 1 / 2\<rparr>], idCounter = 1\<rparr>)"
    unfolding fs w0 by (rule late_update_alive)
  have o0: "list_all (\<lambda>v. worldToTile (world alarmWeather) (view_x v) (view_z v) = None)
      [\<lparr>view_x = 3 / 2, view_z = 0, view_radius = 3\<rparr>]"
    by (simp add: w0 edge_outside)
  note s0 = tick_outside [OF fast u0 o0]
  have w1: "world ?w1 = world villaWeather"
    "tornadoSystem ?w1 = \<lparr>tornadoes = [lateTornado\<lparr>lifetime := 1 / 2\<rparr>], idCounter = 1\<rparr>"
    using s0(1,2) by (simp_all add: w0)
  have u1: "TornadoSystem_update (world ?w1) calm (tornadoSystem ?w1)
      (1 / 4 * timeScale fastState) (intensity fastState) True = ([], \<lparr>tornadoes = [], idCounter = 1\<rparr>)"
    unfolding fs w1 by (rule late_update_expired)
  have o: "list_all (\<lambda>v. worldToTile g (view_x v) (view_z v) = None) []" for g by simp
  note s1 = tick_outside [OF fast u1 o]
  have w2: "tornadoSystem ?w2 = \<lparr>tornadoes = [], idCounter = 1\<rparr>"
    using s1(2) by simp
  have u2: "TornadoSystem_update (world ?w2) calm (tornadoSystem ?w2)
      (1 / 4 * timeScale fastState) (intensity fastState) True = ([], \<lparr>tornadoes = [], idCounter = 1\<rparr>)"
    unfolding fs w2 by (rule quiet_update)
  note s2 = tick_outside [OF fast u2 o]
  have w3: "tornadoSystem ?w3 = \<lparr>tornadoes = [], idCounter = 1\<rparr>"
    using s2(2) by simp
  have u3: "TornadoSystem_update (world ?w3) calm (tornadoSystem ?w3)
      (1 / 4 * timeScale fastState) (intensity fastState) True = ([], \<lparr>tornadoes = [], idCounter = 1\<rparr>)"
    unfolding fs w3 by (rule quiet_update)
  note s3 = tick_outside [OF fast u3 o]
  have nth: "fastTicks ! 0 = ?t" "fastTicks ! Suc 0 = ?t" "fastTicks ! 2 = ?t" "fastTicks ! 3 = ?t"
    by (simp_all add: fastTicks_def numeral_3_eq_3)
  have b1: "weatherBefore alarmWeather fastTicks (Suc 0) = ?w1"
    by (simp add: weatherBefore_def fastTicks_def)
  have b2: "weatherBefore alarmWeather fastTicks 2 = ?w2"
    by (simp add: weatherBefore_def fastTicks_def numeral_2_eq_2)
  have b3: "weatherBefore alarmWeather fastTicks 3 = ?w3"
    by (simp add: weatherBefore_def fastTicks_def numeral_3_eq_3)
  show "nearAt alarmWeather fastTicks 0"
    using s0(3) villa_alarm by (simp add: nearAt_def nth w0)
  show "\<not> nearAt alarmWeather fastTicks (Suc 0)"
    using s1(3) by (simp add: nearAt_def nth b1 no_views_no_alarm)
  show "\<not> nearAt alarmWeather fastTicks 2"
    using s2(3) by (simp add: nearAt_def nth b2 no_views_no_alarm)
  show "\<not> nearAt alarmWeather fastTicks 3"
    using s3(3) by (simp add: nearAt_def nth b3 no_views_no_alarm)
qed

text \<open>
  C9 as stated, with the seconds that \<open>update\<close> receives, fails: \<open>update\<close> takes the
  scaled time step \<open>dt * timeScale\<close> from the hold. At time scale 4 the first call
  finds the tornado near the villa; the fourth call ends three quarters of a second
  later, no call in between finds a tornado near, and its siren flag is false.
\<close>

theorem C9_time_scale_counterexample:
  "sirenHold alarmWeather = 0
   \<and> list_all (\<lambda>i. playingAt fastTicks i \<and> 0 \<le> dtAt fastTicks i) [0..<length fastTicks]
   \<and> nearAt alarmWeather fastTicks 0
   \<and> (\<Sum>i = 1..3. dtAt fastTicks i) = 3 / 4
   \<and> \<not> sirenAt alarmWeather fastTicks 3"
proof -
  let ?h = "\<lambda>k. sirenHold (weatherBefore alarmWeather fastTicks k)"
  have hold: "sirenHold alarmWeather = 0"
    by (simp add: alarmWeather_def villaWeather_def WeatherSystem_new_def)
  have e1: "?h (Suc 0) = (if nearAt alarmWeather fastTicks 0 then 3
                            else max 0 (?h 0 - scaledDtAt fastTicks 0))"
    by (rule hold_Suc) (simp_all add: fast_times)
  have e2: "?h (Suc (Suc 0)) = (if nearAt alarmWeather fastTicks (Suc 0) then 3
                                  else max 0 (?h (Suc 0) - scaledDtAt fastTicks (Suc 0)))"
    by (rule hold_Suc) (simp_all add: fast_times)
  have e3: "?h (Suc 2) = (if nearAt alarmWeather fastTicks 2 then 3
                          else max 0 (?h 2 - scaledDtAt fastTicks 2))"
    by (rule hold_Suc) (simp_all add: fast_times)
  have e4: "?h (Suc 3) = (if nearAt alarmWeather fastTicks 3 then 3
                          else max 0 (?h 3 - scaledDtAt fastTicks 3))"
    by (rule hold_Suc) (simp_all add: fast_times)
  have two: "Suc (Suc 0) = 2" and three: "Suc 2 = 3" by simp_all
  have h1: "?h (Suc 0) = 3"
    unfolding e1 using fast_run(1) by simp
  have h2: "?h 2 = 2"
    using e2 [unfolded two h1] fast_run(2) fast_times(2) by simp
  have h3: "?h 3 = 1"
    using e3 [unfolded three h2] fast_run(3) fast_times(3) by simp
  have h4: "?h (Suc 3) = 0"
    unfolding e4 h3 using fast_run(4) fast_times(4) by simp
  have "sirenAt alarmWeather fastTicks 3 = (0 < ?h (Suc 3))"
    by (rule sirenAt_hold) (simp_all add: fast_times)
  then have quiet: "\<not> sirenAt alarmWeather fastTicks 3"
    unfolding h4 by simp
  have all: "list_all (\<lambda>i. playingAt fastTicks i \<and> 0 \<le> dtAt fastTicks i) [0..<length fastTicks]"
    unfolding list_all_iff
  proof
    fix i assume "i \<in> set [0..<length fastTicks]"
    then have "i < 4" by (simp add: fast_times(12))
    then have "i = 0 \<or> i = Suc 0 \<or> i = 2 \<or> i = 3" by arith
    then show "playingAt fastTicks i \<and> 0 \<le> dtAt fastTicks i"
      using fast_times by auto
  qed
  have "{1..3::nat} = {Suc 0, 2, 3}" by auto
  then have secs: "(\<Sum>i = 1..3. dtAt fastTicks i) = 3 / 4"
    by (simp add: fast_times)
  from hold all fast_run(1) secs quiet show ?thesis by simp
qed

section \<open>Construction\<close>

text \<open>
  C3. The constructor reads its configuration and nothing else: every draw comes
  from a generator seeded with \<open>hashSeed\<close> of the configured seed, and no call of
  \<open>Math.random()\<close> or of a clock is on its path. So two constructions from
  configurations with the same width, depth, tile size and seed give the same height
  field, the same tile types and the same trees (identifiers, coordinates and
  dimensions, in the same order). Numbers are reals here; the rounding of the doubles
  and of the \<open>Float32Array\<close> is the same function of the same arguments in both runs.
\<close>

theorem C3_constructor_deterministic:
  assumes "config_width c1 = config_width c2" and "config_depth c1 = config_depth c2"
    and "config_tileSize c1 = config_tileSize c2" and "config_seed c1 = config_seed c2"
  shows "heightField (GridWorld_new c1) = heightField (GridWorld_new c2)
       \<and> map tile_type (tiles (GridWorld_new c1)) = map tile_type (tiles (GridWorld_new c2))
       \<and> trees (GridWorld_new c1) = trees (GridWorld_new c2)"
proof -
  from assms have "c1 = c2" by (cases c1, cases c2) simp
  then show ?thesis by simp
qed

text \<open>Two ways to write the configuration of the town.\<close>

theorem C3_constructor_deterministic_witness:
  "config_width townConfig = config_width (villaConfig\<lparr>config_width := 4, config_depth := 4\<rparr>)
   \<and> config_depth townConfig = config_depth (villaConfig\<lparr>config_width := 4, config_depth := 4\<rparr>)
   \<and> config_tileSize townConfig = config_tileSize (villaConfig\<lparr>config_width := 4, config_depth := 4\<rparr>)
   \<and> config_seed townConfig = config_seed (villaConfig\<lparr>config_width := 4, config_depth := 4\<rparr>)
   \<and> heightField (GridWorld_new townConfig)
       = heightField (GridWorld_new (villaConfig\<lparr>config_width := 4, config_depth := 4\<rparr>))
   \<and> map tile_type (tiles (GridWorld_new townConfig))
       = map tile_type (tiles (GridWorld_new (villaConfig\<lparr>config_width := 4, config_depth := 4\<rparr>)))
   \<and> trees (GridWorld_new townConfig)
       = trees (GridWorld_new (villaConfig\<lparr>config_width := 4, config_depth := 4\<rparr>))"
proof -
  have eqs: "config_width townConfig = config_width (villaConfig\<lparr>config_width := 4, config_depth := 4\<rparr>)"
    "config_depth townConfig = config_depth (villaConfig\<lparr>config_width := 4, config_depth := 4\<rparr>)"
    "config_tileSize townConfig = config_tileSize (villaConfig\<lparr>config_width := 4, config_depth := 4\<rparr>)"
    "config_seed townConfig = config_seed (villaConfig\<lparr>config_width := 4, config_depth := 4\<rparr>)"
    by (simp_all add: townConfig_def villaConfig_def)
  from C3_constructor_deterministic [OF eqs] eqs show ?thesis by blast
qed

section \<open>The round trip of a snapshot\<close>

lemma update_absent:
  assumes "k \<notin> fst ` set al"
  shows "AList.update k v al = al @ [(k, v)]"
  using assms by (induction al) auto

lemma rebuild_registry:
  assumes "distinct (map fst al)"
    and "\<forall>e \<in> set al. key (snd e) = fst e"
    and "fst ` set al \<inter> fst ` set acc = {}"
  shows "foldl (\<lambda>a v. AList.update (key v) v a) acc (map snd al) = acc @ al"
  using assms
proof (induction al arbitrary: acc)
  case Nil
  show ?case by simp
next
  case (Cons e al)
  obtain k v where e: "e = (k, v)" by (cases e)
  from Cons.prems(2) have kv: "key v = k" by (simp add: e)
  from Cons.prems(3) have absent: "k \<notin> fst ` set acc" by (auto simp add: e)
  have step: "AList.update (key v) v acc = acc @ [(k, v)]"
    by (simp add: kv update_absent [OF absent])
  have "foldl (\<lambda>a v. AList.update (key v) v a) (acc @ [(k, v)]) (map snd al) = (acc @ [(k, v)]) @ al"
  proof (rule Cons.IH)
    show "distinct (map fst al)" using Cons.prems(1) by simp
    show "\<forall>e \<in> set al. key (snd e) = fst e" using Cons.prems(2) by simp
    show "fst ` set al \<inter> fst ` set (acc @ [(k, v)]) = {}"
      using Cons.prems(1,3) by (auto simp add: e)
  qed
  then show ?case by (simp add: e step)
qed

lemma consistent_fields:
  assumes "consistent g"
  shows "length (tiles g) = width g * depth g" and "repairFree g"
    and "distinct (map fst (trees g))" and "list_all (treeOk g) (trees g)"
    and "distinct (map fst (buildings g))" and "list_all (buildingOk g) (buildings g)"
  using assms by (simp_all add: consistent_def)

text \<open>The buildings after the round trip.\<close>

lemma round_trip_buildings:
  assumes "consistent g"
  shows "buildings (applySnapshot g (toSnapshot g)) = buildings g"
proof -
  have ids: "\<forall>e \<in> set (buildings g). building_id (snd e) = fst e"
    using consistent_fields(6) [OF assms] by (simp add: list_all_iff buildingOk_def)
  have "buildings (applySnapshot g (toSnapshot g)) =
      foldl (\<lambda>al b. AList.update (building_id b) b al) [] (map snd (buildings g))"
    by (simp add: applySnapshot_buildings toSnapshot_def)
  also have "\<dots> = [] @ buildings g"
    by (rule rebuild_registry [OF consistent_fields(5) [OF assms] ids]) simp
  finally show ?thesis by simp
qed

text \<open>The tile types after the round trip.\<close>

lemma covered_is_foundation:
  assumes "consistent g" and "coveredBy g (map snd (buildings g)) i"
  shows "tile_type (tiles g ! i) = Foundation"
proof -
  from assms(2) obtain e c where e: "e \<in> set (buildings g)"
    and c: "c \<in> set (footprint (snd e))" and inb: "inBounds g (fst c) (snd c)"
    and i: "nat (index g (fst c) (snd c)) = i"
    by (auto simp add: coveredBy_def footprint_def)
  from consistent_fields(6) [OF assms(1)] e have "buildingOk g e" by (simp add: list_all_iff)
  with c inb i show ?thesis by (auto simp add: buildingOk_def list_all_iff)
qed

lemma repairFree_tile:
  assumes "repairFree g" and "i < length (tiles g)" and "tile_type (tiles g ! i) = Grass"
    and "elementAt (baseTileTypes g) i = Some Water"
  shows "Water \<in> set (map tile_type (tiles g))"
  using assms by (auto simp add: repairFree_def list_all_iff)

lemma round_trip_tile_type:
  assumes "consistent g" and "i < length (tiles g)"
  shows "tile_type (tiles (applySnapshot g (toSnapshot g)) ! i) = tile_type (tiles g ! i)"
proof -
  have ty0: "elementAt (tileTypes (toSnapshot g)) i = Some (tile_type (tiles g ! i))"
    using assms(2) by (simp add: toSnapshot_def elementAt_def)
  have types: "set (tileTypes (toSnapshot g)) = set (map tile_type (tiles g))"
    by (simp add: toSnapshot_def)
  have dims: "snapshot_width (toSnapshot g) = width g" "snapshot_depth (toSnapshot g) = depth g"
    by (simp_all add: toSnapshot_def)
  have blds: "snapshot_buildings (toSnapshot g) = map snd (buildings g)"
    by (simp add: toSnapshot_def)
  show ?thesis
  proof (cases "coveredBy g (map snd (buildings g)) i")
    case True
    then show ?thesis
      using covered_is_foundation [OF assms(1) True]
      by (simp add: applySnapshot_tile_type [OF dims assms(2)] blds)
  next
    case False
    have "\<not> (Water \<notin> set (map tile_type (tiles g)) \<and> tile_type (tiles g ! i) = Grass
            \<and> elementAt (baseTileTypes g) i = Some Water)"
      using repairFree_tile [OF consistent_fields(2) [OF assms(1)] assms(2)] by blast
    then show ?thesis
      using False
      by (auto simp add: applySnapshot_tile_type [OF dims assms(2)] blds ty0 types Let_def simp del: set_map)
  qed
qed

lemma round_trip_tile_types:
  assumes "consistent g"
  shows "map tile_type (tiles (applySnapshot g (toSnapshot g))) = map tile_type (tiles g)"
proof (rule nth_equalityI)
  have len: "length (tiles (applySnapshot g (toSnapshot g))) = length (tiles g)"
    by (rule frame_length) simp
  then show "length (map tile_type (tiles (applySnapshot g (toSnapshot g)))) = length (map tile_type (tiles g))"
    by simp
  fix i assume "i < length (map tile_type (tiles (applySnapshot g (toSnapshot g))))"
  then have i: "i < length (tiles g)" by (simp add: len)
  then show "map tile_type (tiles (applySnapshot g (toSnapshot g))) ! i = map tile_type (tiles g) ! i"
    by (simp add: len round_trip_tile_type [OF assms i])
qed

lemma frame_treeTile:
  assumes "frame g' = frame g"
  shows "treeTile g' = treeTile g"
  by (simp add: treeTile_def fun_eq_iff frame_index [OF assms])

text \<open>
  Trees added to tiles that are free and apart go to the end of the registry, in
  order, and the reverse index changes at their tiles only.
\<close>

lemma foldl_addTree_fresh:
  assumes "length (tiles g) = width g * depth g"
    and "distinct (map fst al)"
    and "inj_on (\<lambda>e. treeTile g (snd e)) (set al)"
    and "\<forall>e \<in> set al. tree_id (snd e) = fst e \<and> inBounds g (tree_x (snd e)) (tree_z (snd e)) \<and>
           tile_type (tiles g ! treeTile g (snd e)) = Grass \<and>
           occupantId (tiles g ! treeTile g (snd e)) = None \<and>
           treeByTile g (treeTile g (snd e)) = None \<and>
           fst e \<notin> fst ` set (trees g)"
  shows "trees (foldl addTree g (map snd al)) = trees g @ al \<and>
         (\<forall>i. treeByTile (foldl addTree g (map snd al)) i \<noteq> treeByTile g i \<longrightarrow>
              i \<in> (\<lambda>e. treeTile g (snd e)) ` set al)"
  using assms
proof (induction al arbitrary: g)
  case Nil
  show ?case by simp
next
  case (Cons e al)
  obtain k r where e: "e = (k, r)" by (cases e)
  let ?i = "treeTile g r"
  let ?g' = "addTree g r"
  from Cons.prems(4) have r: "tree_id r = k" "inBounds g (tree_x r) (tree_z r)"
    "tile_type (tiles g ! ?i) = Grass" "occupantId (tiles g ! ?i) = None"
    "treeByTile g ?i = None" "k \<notin> fst ` set (trees g)"
    by (simp_all add: e)
  have acc: "?g' = modifyTile ?i (\<lambda>u. u\<lparr>treeId := Some k\<rparr>)
       (g\<lparr>treeByTile := (treeByTile g)(?i \<mapsto> k), trees := trees g @ [(k, r)]\<rparr>)"
    using r addTree_accepted [of g r]
    by (simp add: treeTile_def truthy_def update_absent)
  have trees': "trees ?g' = trees g @ [(k, r)]" by (simp add: acc)
  have idx': "treeByTile ?g' = (treeByTile g)(?i \<mapsto> k)" by (simp add: acc)
  have fr: "frame ?g' = frame g" by simp
  have lu: "landUse ?g' = landUse g" by simp
  note tt = frame_treeTile [OF fr]
  have len': "length (tiles ?g') = width ?g' * depth ?g'"
    using Cons.prems(1) frame_length [OF fr] frame_fields(1,2) [OF fr] by simp
  have dist': "distinct (map fst al)" using Cons.prems(2) by simp
  have inj': "inj_on (\<lambda>e. treeTile ?g' (snd e)) (set al)"
    using Cons.prems(3) by (simp add: tt)
  have fresh: "e \<notin> set al" using Cons.prems(2) by (force simp add: e)
  have ok': "\<forall>e' \<in> set al. tree_id (snd e') = fst e' \<and> inBounds ?g' (tree_x (snd e')) (tree_z (snd e')) \<and>
           tile_type (tiles ?g' ! treeTile ?g' (snd e')) = Grass \<and>
           occupantId (tiles ?g' ! treeTile ?g' (snd e')) = None \<and>
           treeByTile ?g' (treeTile ?g' (snd e')) = None \<and>
           fst e' \<notin> fst ` set (trees ?g')"
  proof
    fix e' assume e': "e' \<in> set al"
    with Cons.prems(4) have p: "tree_id (snd e') = fst e'" "inBounds g (tree_x (snd e')) (tree_z (snd e'))"
      "tile_type (tiles g ! treeTile g (snd e')) = Grass"
      "occupantId (tiles g ! treeTile g (snd e')) = None"
      "treeByTile g (treeTile g (snd e')) = None" "fst e' \<notin> fst ` set (trees g)"
      by simp_all
    have bound: "treeTile g (snd e') < length (tiles g)"
      using index_bound [OF p(2)] Cons.prems(1) by (simp add: treeTile_def)
    have apart: "treeTile g (snd e') \<noteq> ?i"
    proof
      assume "treeTile g (snd e') = ?i"
      then have same: "(\<lambda>e. treeTile g (snd e)) e' = (\<lambda>e. treeTile g (snd e)) e" by (simp add: e)
      have "e' \<in> set (e # al)" and "e \<in> set (e # al)" using e' by simp_all
      from inj_onD [OF Cons.prems(3) same this] have "e' = e" .
      with e' fresh show False by simp
    qed
    have other: "fst e' \<noteq> k" using Cons.prems(2) e' by (auto simp add: e)
    show "tree_id (snd e') = fst e' \<and> inBounds ?g' (tree_x (snd e')) (tree_z (snd e')) \<and>
           tile_type (tiles ?g' ! treeTile ?g' (snd e')) = Grass \<and>
           occupantId (tiles ?g' ! treeTile ?g' (snd e')) = None \<and>
           treeByTile ?g' (treeTile ?g' (snd e')) = None \<and>
           fst e' \<notin> fst ` set (trees ?g')"
      using p apart other landUse_nth [OF lu bound]
      by (simp add: tt frame_inBounds [OF fr] idx' trees')
  qed
  note ih = Cons.IH [OF len' dist' inj' ok']
  have "trees (foldl addTree ?g' (map snd al)) = (trees g @ [(k, r)]) @ al"
    using ih by (simp add: trees')
  moreover have "\<forall>i. treeByTile (foldl addTree ?g' (map snd al)) i \<noteq> treeByTile g i \<longrightarrow>
      i \<in> (\<lambda>e. treeTile g (snd e)) ` set (e # al)"
  proof (intro allI impI)
    fix i assume d: "treeByTile (foldl addTree ?g' (map snd al)) i \<noteq> treeByTile g i"
    show "i \<in> (\<lambda>e. treeTile g (snd e)) ` set (e # al)"
    proof (cases "treeByTile (foldl addTree ?g' (map snd al)) i = treeByTile ?g' i")
      case True
      with d have "treeByTile ?g' i \<noteq> treeByTile g i" by simp
      then have "i = ?i" by (simp add: idx' split: if_splits)
      then show ?thesis by (simp add: e)
    next
      case False
      with ih have "i \<in> (\<lambda>e. treeTile ?g' (snd e)) ` set al" by blast
      then show ?thesis by (simp add: tt)
    qed
  qed
  ultimately show ?case by (simp add: e)
qed

text \<open>A building claims tiles without a tree: the trees stay.\<close>

lemma claimTile_keeps_trees:
  assumes "\<not> inBounds g (fst c) (snd c) \<or> treeByTile g (nat (index g (fst c) (snd c))) = None"
  shows "trees (claimTile b g c) = trees g \<and> treeByTile (claimTile b g c) = treeByTile g"
  using assms by (cases c) (auto simp add: claimTile_def removeTreeAt_eq truthy_def)

lemma foldl_claimTile_keeps_trees:
  assumes "\<forall>c \<in> set cs. \<not> inBounds g (fst c) (snd c) \<or> treeByTile g (nat (index g (fst c) (snd c))) = None"
  shows "trees (foldl (claimTile b) g cs) = trees g \<and> treeByTile (foldl (claimTile b) g cs) = treeByTile g"
  using assms
proof (induction cs arbitrary: g)
  case Nil
  show ?case by simp
next
  case (Cons c cs)
  have fr: "frame (claimTile b g c) = frame g" by (rule claimTile_frame)
  from Cons.prems have c: "\<not> inBounds g (fst c) (snd c) \<or> treeByTile g (nat (index g (fst c) (snd c))) = None"
    by simp
  note keep = claimTile_keeps_trees [OF c, of b]
  have "\<forall>c' \<in> set cs. \<not> inBounds (claimTile b g c) (fst c') (snd c') \<or>
      treeByTile (claimTile b g c) (nat (index (claimTile b g c) (fst c') (snd c'))) = None"
    using Cons.prems keep by (simp add: frame_inBounds [OF fr] frame_index [OF fr])
  from Cons.IH [OF this] keep show ?case by simp
qed

lemma restoreBuilding_keeps_trees:
  assumes "\<forall>c \<in> set (footprint b). \<not> inBounds g (fst c) (snd c) \<or> treeByTile g (nat (index g (fst c) (snd c))) = None"
  shows "trees (restoreBuilding g b) = trees g \<and> treeByTile (restoreBuilding g b) = treeByTile g"
proof -
  let ?g = "g\<lparr>buildings := AList.update (building_id b) b (buildings g)\<rparr>"
  have "\<forall>c \<in> set (footprint b). \<not> inBounds ?g (fst c) (snd c) \<or> treeByTile ?g (nat (index ?g (fst c) (snd c))) = None"
    using assms by (simp add: inBounds_def index_def)
  from foldl_claimTile_keeps_trees [OF this, of "building_id b"] show ?thesis
    by (simp add: restoreBuilding_def footprint_def)
qed

lemma foldl_restoreBuilding_keeps_trees:
  assumes "\<forall>b \<in> set bs. \<forall>c \<in> set (footprint b).
             \<not> inBounds g (fst c) (snd c) \<or> treeByTile g (nat (index g (fst c) (snd c))) = None"
  shows "trees (foldl restoreBuilding g bs) = trees g"
  using assms
proof (induction bs arbitrary: g)
  case Nil
  show ?case by simp
next
  case (Cons b bs)
  have fr: "frame (restoreBuilding g b) = frame g" by (rule restoreBuilding_frame)
  from Cons.prems have b: "\<forall>c \<in> set (footprint b). \<not> inBounds g (fst c) (snd c) \<or>
      treeByTile g (nat (index g (fst c) (snd c))) = None" by simp
  note keep = restoreBuilding_keeps_trees [OF b]
  have "\<forall>b' \<in> set bs. \<forall>c \<in> set (footprint b').
      \<not> inBounds (restoreBuilding g b) (fst c) (snd c) \<or>
      treeByTile (restoreBuilding g b) (nat (index (restoreBuilding g b) (fst c) (snd c))) = None"
    using Cons.prems keep by (simp add: frame_inBounds [OF fr] frame_index [OF fr])
  from Cons.IH [OF this] keep show ?case by simp
qed

lemma same_key_same_entry:
  assumes "distinct (map fst al)" and "e \<in> set al" and "e' \<in> set al" and "fst e = fst e'"
  shows "e = e'"
  using assms by (metis eq_key_imp_eq_value prod.collapse)

lemma consistent_tree:
  assumes "consistent g" and "e \<in> set (trees g)"
  shows "tree_id (snd e) = fst e" and "inBounds g (tree_x (snd e)) (tree_z (snd e))"
    and "treeId (tiles g ! treeTile g (snd e)) = Some (fst e)"
    and "tile_type (tiles g ! treeTile g (snd e)) = Grass"
    and "treeTile g (snd e) < length (tiles g)"
proof -
  from consistent_fields(4) [OF assms(1)] assms(2) have ok: "treeOk g e" by (simp add: list_all_iff)
  then show "tree_id (snd e) = fst e" and inb: "inBounds g (tree_x (snd e)) (tree_z (snd e))"
    and "treeId (tiles g ! treeTile g (snd e)) = Some (fst e)"
    and "tile_type (tiles g ! treeTile g (snd e)) = Grass"
    by (simp_all add: treeOk_def)
  from index_bound [OF inb] consistent_fields(1) [OF assms(1)]
  show "treeTile g (snd e) < length (tiles g)" by (simp add: treeTile_def)
qed

lemma consistent_tree_tiles_apart:
  assumes "consistent g"
  shows "inj_on (\<lambda>e. treeTile g (snd e)) (set (trees g))"
proof (rule inj_onI)
  fix e e' assume e: "e \<in> set (trees g)" and e': "e' \<in> set (trees g)"
    and same: "treeTile g (snd e) = treeTile g (snd e')"
  from consistent_tree(3) [OF assms e] consistent_tree(3) [OF assms e'] same
  have "fst e = fst e'" by simp
  from same_key_same_entry [OF consistent_fields(3) [OF assms] e e' this] show "e = e'" .
qed

text \<open>
  The world of the round trip before its trees are restored: the tile types of grass
  tiles are kept, and no tile has an occupant.
\<close>

lemma bare_grass:
  assumes "consistent g" and "i < length (tiles g)" and "tile_type (tiles g ! i) = Grass"
  shows "tile_type (tiles (repairWater (toSnapshot g)
           (restoreTileTypes (toSnapshot g) (clearTrees (g\<lparr>buildings := []\<rparr>)))) ! i) = Grass"
    and "occupantId (tiles (repairWater (toSnapshot g)
           (restoreTileTypes (toSnapshot g) (clearTrees (g\<lparr>buildings := []\<rparr>)))) ! i) = None"
proof -
  have "elementAt (baseTileTypes g) i = Some Water \<Longrightarrow> Water \<in> set (map tile_type (tiles g))"
    using repairFree_tile [OF consistent_fields(2) [OF assms(1)] assms(2,3)] by simp
  then show "tile_type (tiles (repairWater (toSnapshot g)
           (restoreTileTypes (toSnapshot g) (clearTrees (g\<lparr>buildings := []\<rparr>)))) ! i) = Grass"
    using assms(2,3)
    by (auto simp add: repairWater_def restoreTileTypes_def restoreTile_def repairTile_def
        clearTrees_def elementAt_def toSnapshot_def Let_def)
  show "occupantId (tiles (repairWater (toSnapshot g)
           (restoreTileTypes (toSnapshot g) (clearTrees (g\<lparr>buildings := []\<rparr>)))) ! i) = None"
    using assms(2)
    by (simp add: repairWater_def restoreTileTypes_def restoreTile_def repairTile_def
        clearTrees_def Let_def)
qed

lemma bare_registry:
  "trees (repairWater s (restoreTileTypes s (clearTrees (g\<lparr>buildings := []\<rparr>)))) = []"
  "treeByTile (repairWater s (restoreTileTypes s (clearTrees (g\<lparr>buildings := []\<rparr>)))) = Map.empty"
  by (simp_all add: repairWater_def restoreTileTypes_def clearTrees_def Let_def)

lemma bare_frame:
  "frame (repairWater s (restoreTileTypes s (clearTrees (g\<lparr>buildings := []\<rparr>)))) = frame g"
proof -
  have "frame (g\<lparr>buildings := []\<rparr>) = frame g" by (simp add: frame_def)
  then show ?thesis by simp
qed

text \<open>The trees after the round trip, when there is one.\<close>

lemma round_trip_trees:
  assumes "consistent g" and "trees g \<noteq> []"
  shows "trees (applySnapshot g (toSnapshot g)) = trees g"
proof -
  let ?s = "toSnapshot g"
  let ?g3 = "repairWater ?s (restoreTileTypes ?s (clearTrees (g\<lparr>buildings := []\<rparr>)))"
  let ?g4 = "foldl addTree ?g3 (map snd (trees g))"
  have snap: "snapshot_width ?s = width g" "snapshot_depth ?s = depth g"
    "snapshot_trees ?s = Some (map snd (trees g))" "snapshot_buildings ?s = map snd (buildings g)"
    by (simp_all add: toSnapshot_def)
  have ap: "applySnapshot g ?s = foldl restoreBuilding ?g4 (map snd (buildings g))"
    using assms(2) by (simp add: applySnapshot_def Let_def restoreTrees_def snap)
  have fr3: "frame ?g3 = frame g" by (rule bare_frame)
  have fr4: "frame ?g4 = frame g" by (simp add: fr3)
  note tt3 = frame_treeTile [OF fr3]
  have len3: "length (tiles ?g3) = width ?g3 * depth ?g3"
    using consistent_fields(1) [OF assms(1)] frame_length [OF fr3] frame_fields(1,2) [OF fr3] by simp
  have inj3: "inj_on (\<lambda>e. treeTile ?g3 (snd e)) (set (trees g))"
    unfolding tt3 by (rule consistent_tree_tiles_apart [OF assms(1)])
  have ok3: "\<forall>e \<in> set (trees g). tree_id (snd e) = fst e \<and> inBounds ?g3 (tree_x (snd e)) (tree_z (snd e)) \<and>
           tile_type (tiles ?g3 ! treeTile ?g3 (snd e)) = Grass \<and>
           occupantId (tiles ?g3 ! treeTile ?g3 (snd e)) = None \<and>
           treeByTile ?g3 (treeTile ?g3 (snd e)) = None \<and>
           fst e \<notin> fst ` set (trees ?g3)"
  proof
    fix e assume e: "e \<in> set (trees g)"
    note t = consistent_tree [OF assms(1) e]
    note b = bare_grass [OF assms(1) t(5) t(4)]
    show "tree_id (snd e) = fst e \<and> inBounds ?g3 (tree_x (snd e)) (tree_z (snd e)) \<and>
           tile_type (tiles ?g3 ! treeTile ?g3 (snd e)) = Grass \<and>
           occupantId (tiles ?g3 ! treeTile ?g3 (snd e)) = None \<and>
           treeByTile ?g3 (treeTile ?g3 (snd e)) = None \<and>
           fst e \<notin> fst ` set (trees ?g3)"
      unfolding tt3 frame_inBounds [OF fr3] bare_registry
      using t(1,2) b by simp
  qed
  note added = foldl_addTree_fresh [OF len3 consistent_fields(3) [OF assms(1)] inj3 ok3]
  have trees4: "trees ?g4 = trees g" using added by (simp add: bare_registry)
  have index4: "treeByTile ?g4 i = None \<or> i \<in> (\<lambda>e. treeTile g (snd e)) ` set (trees g)" for i
    using added unfolding tt3 bare_registry by auto
  have free: "\<forall>b \<in> set (map snd (buildings g)). \<forall>c \<in> set (footprint b).
      \<not> inBounds ?g4 (fst c) (snd c) \<or> treeByTile ?g4 (nat (index ?g4 (fst c) (snd c))) = None"
  proof (intro ballI)
    fix b c assume b: "b \<in> set (map snd (buildings g))" and c: "c \<in> set (footprint b)"
    from b obtain eb where eb: "eb \<in> set (buildings g)" and b': "b = snd eb" by auto
    from consistent_fields(6) [OF assms(1)] eb have okb: "buildingOk g eb" by (simp add: list_all_iff)
    show "\<not> inBounds ?g4 (fst c) (snd c) \<or> treeByTile ?g4 (nat (index ?g4 (fst c) (snd c))) = None"
    proof (cases "inBounds g (fst c) (snd c)")
      case False
      then show ?thesis by (simp add: frame_inBounds [OF fr4])
    next
      case True
      with okb c have found: "tile_type (tiles g ! nat (index g (fst c) (snd c))) = Foundation"
        by (auto simp add: buildingOk_def list_all_iff b')
      have "treeByTile ?g4 (nat (index g (fst c) (snd c))) = None"
      proof (rule ccontr)
        assume "treeByTile ?g4 (nat (index g (fst c) (snd c))) \<noteq> None"
        with index4 [of "nat (index g (fst c) (snd c))"]
        obtain e where e: "e \<in> set (trees g)" and at: "nat (index g (fst c) (snd c)) = treeTile g (snd e)"
          by auto
        from consistent_tree(4) [OF assms(1) e] found at show False by simp
      qed
      then show ?thesis by (simp add: frame_index [OF fr4])
    qed
  qed
  from foldl_restoreBuilding_keeps_trees [OF free] show ?thesis
    by (simp add: ap trees4)
qed

text \<open>Without a tree, the round trip generates the trees anew.\<close>

lemma round_trip_regenerates:
  assumes "trees g = []"
  shows "applySnapshot g (toSnapshot g) =
     foldl restoreBuilding
       (generateTrees (repairWater (toSnapshot g)
          (restoreTileTypes (toSnapshot g) (clearTrees (g\<lparr>buildings := []\<rparr>)))))
       (map snd (buildings g))"
proof -
  have snap: "snapshot_width (toSnapshot g) = width g" "snapshot_depth (toSnapshot g) = depth g"
    "snapshot_trees (toSnapshot g) = Some []" "snapshot_buildings (toSnapshot g) = map snd (buildings g)"
    using assms by (simp_all add: toSnapshot_def)
  show ?thesis by (simp add: applySnapshot_def Let_def restoreTrees_def snap)
qed

text \<open>
  C2, for a world whose registries and tiles agree (\<open>consistent\<close>). The round trip
  \<open>applySnapshot(toSnapshot())\<close> leaves the tile types and the buildings as they
  are, and the trees as they are when there is at least one tree. (With no tree
  \<open>applySnapshot\<close> takes the empty list for a snapshot without trees and generates
  the trees anew.) The worlds left out are those the round trip changes by design:
  a registered building is restored onto its footprint whatever the tiles hold, a
  tree is restored only onto a grass tile, and a grass tile over base water is
  repaired when no tile is water.
\<close>

theorem C2_round_trip:
  assumes "consistent g"
  shows "map tile_type (tiles (applySnapshot g (toSnapshot g))) = map tile_type (tiles g)
       \<and> buildings (applySnapshot g (toSnapshot g)) = buildings g
       \<and> (trees g \<noteq> [] \<longrightarrow> trees (applySnapshot g (toSnapshot g)) = trees g)"
  using round_trip_tile_types [OF assms] round_trip_buildings [OF assms] round_trip_trees [OF assms]
  by simp

text \<open>The row: a tree, water and a building, restored onto a fresh 3 by 1 world.\<close>

lemma row_state:
  assumes "width g = 3" and "depth g = 1" and "length (tiles g) = 3"
  shows "map tile_type (tiles (applySnapshot g rowSnapshot)) = [Grass, Water, Foundation]"
    and "treeId (tiles (applySnapshot g rowSnapshot) ! 0) = Some ''t-0-0''"
    and "map fst (trees (applySnapshot g rowSnapshot)) = [''t-0-0'']"
    and "map (\<lambda>e. (tree_id (snd e), tree_x (snd e), tree_z (snd e))) (trees (applySnapshot g rowSnapshot))
           = [(''t-0-0'', 0, 0)]"
    and "buildings (applySnapshot g rowSnapshot) = [(''b-1'', cottage\<lparr>originX := 2\<rparr>)]"
    and "width (applySnapshot g rowSnapshot) = 3" and "depth (applySnapshot g rowSnapshot) = 1"
proof -
  have upt: "[0..<3] = [0, Suc 0, 2]" by (simp add: upt_rec numeral_2_eq_2)
  show "map tile_type (tiles (applySnapshot g rowSnapshot)) = [Grass, Water, Foundation]"
    and "treeId (tiles (applySnapshot g rowSnapshot) ! 0) = Some ''t-0-0''"
    and "map fst (trees (applySnapshot g rowSnapshot)) = [''t-0-0'']"
    and "map (\<lambda>e. (tree_id (snd e), tree_x (snd e), tree_z (snd e))) (trees (applySnapshot g rowSnapshot))
           = [(''t-0-0'', 0, 0)]"
    and "buildings (applySnapshot g rowSnapshot) = [(''b-1'', cottage\<lparr>originX := 2\<rparr>)]"
    and "width (applySnapshot g rowSnapshot) = 3" and "depth (applySnapshot g rowSnapshot) = 1"
    using assms
    by (simp_all add: applySnapshot_def rowSnapshot_def cottage_def Let_def clearTrees_def
        restoreTileTypes_def restoreTile_def elementAt_def repairWater_def restoreTrees_def
        addTree_def getTile_def inBounds_def index_def modifyTile_def truthy_def
        restoreBuilding_def footprintCoords_def claimTile_def removeTreeAt_def upt)
qed

lemma rowWorld_consistent: "consistent rowWorld"
proof -
  let ?g = "GridWorld_new rowConfig"
  have dims: "width ?g = 3" "depth ?g = 1" "length (tiles ?g) = 3"
    by (simp_all add: GridWorld_new_dims GridWorld_new_length rowConfig_def)
  note st = row_state [OF dims, folded rowWorld_def]
  have len: "length (tiles rowWorld) = 3"
    using st(1) by (metis length_map length_Cons list.size(3) numeral_3_eq_3)
  have t0: "tile_type (tiles rowWorld ! 0) = Grass" and t2: "tile_type (tiles rowWorld ! 2) = Foundation"
    using map_eq_nth [of tile_type "tiles rowWorld" "tiles rowWorld"] st(1) len
    by (metis nth_map nth_Cons_0 zero_less_numeral,
        metis nth_map nth_Cons_0 nth_Cons_Suc numeral_2_eq_2 lessI numeral_3_eq_3)
  obtain e where trees: "trees rowWorld = [e]" and e: "fst e = ''t-0-0''"
    "tree_id (snd e) = ''t-0-0''" "tree_x (snd e) = 0" "tree_z (snd e) = 0"
    using st(3,4) by (cases "trees rowWorld") auto
  have water: "Water \<in> set (map tile_type (tiles rowWorld))" by (simp add: st(1))
  have "treeOk rowWorld e"
    using st(2) t0 by (simp add: treeOk_def treeTile_def e inBounds_def index_def st(6,7))
  moreover have "buildingOk rowWorld (''b-1'', cottage\<lparr>originX := 2\<rparr>)"
    using t2 by (simp add: buildingOk_def footprint_def footprintCoords_def cottage_def
        inBounds_def index_def st(6,7))
  ultimately show ?thesis
    using water len by (simp add: consistent_def repairFree_def trees st(5,6,7) del: set_map)
qed

theorem C2_round_trip_witness:
  "consistent rowWorld \<and> trees rowWorld \<noteq> []
   \<and> map tile_type (tiles rowWorld) = [Grass, Water, Foundation]
   \<and> map tile_type (tiles (applySnapshot rowWorld (toSnapshot rowWorld))) = map tile_type (tiles rowWorld)
   \<and> buildings (applySnapshot rowWorld (toSnapshot rowWorld)) = buildings rowWorld
   \<and> trees (applySnapshot rowWorld (toSnapshot rowWorld)) = trees rowWorld"
proof -
  let ?g = "GridWorld_new rowConfig"
  have dims: "width ?g = 3" "depth ?g = 1" "length (tiles ?g) = 3"
    by (simp_all add: GridWorld_new_dims GridWorld_new_length rowConfig_def)
  note st = row_state [OF dims, folded rowWorld_def]
  have some: "trees rowWorld \<noteq> []" using st(3) by auto
  from C2_round_trip [OF rowWorld_consistent] rowWorld_consistent some st(1)
  show ?thesis by simp
qed

text \<open>The plot: what the restore of two buildings on one tile and the erase leave.\<close>

lemma overlap_state:
  assumes "width g = 1" and "depth g = 1" and "length (tiles g) = 1"
  shows "map tile_type (tiles (fst (snd (apply_tool (applySnapshot g overlapSnapshot, 0) Erase 0 0)))) = [Grass]"
    and "buildings (fst (snd (apply_tool (applySnapshot g overlapSnapshot, 0) Erase 0 0))) = [(''b-1'', cottage)]"
    and "width (fst (snd (apply_tool (applySnapshot g overlapSnapshot, 0) Erase 0 0))) = 1"
    and "depth (fst (snd (apply_tool (applySnapshot g overlapSnapshot, 0) Erase 0 0))) = 1"
  using assms
  by (simp_all add: applySnapshot_def overlapSnapshot_def cottage_def Let_def clearTrees_def
      restoreTileTypes_def restoreTile_def elementAt_def repairWater_def repairTile_def restoreTrees_def
      generateTrees_def tileCoords_def generateTreeAt_def
      getTile_def inBounds_def index_def modifyTile_def truthy_def
      restoreBuilding_def footprintCoords_def claimTile_def removeTreeAt_def
      apply_tool_def erase_def clearOccupant_def clearOccupantTile_def)

lemma overlapRun_reachable: "reachable anySnapshot overlapRun"
proof -
  let ?ws0 = "WeatherSystem_new (GridWorld_new plotConfig)"
  let ?ws1 = "?ws0\<lparr>world := applySnapshot (world ?ws0) overlapSnapshot\<rparr>"
  let ?a = "apply_tool (world ?ws1, 0) Erase 0 0"
  have "reachable anySnapshot (?ws0, 0)" by (rule reachable.fresh)
  then have "reachable anySnapshot (?ws1, 0)"
    by (rule reachable.restore) (simp add: anySnapshot_def)
  then have "reachable anySnapshot (?ws1\<lparr>world := fst (snd ?a)\<rparr>, snd (snd ?a))"
    by (rule reachable.placement [where res = "fst ?a"]) simp
  moreover have "overlapRun = (?ws1\<lparr>world := fst (snd ?a)\<rparr>, snd (snd ?a))"
    by (simp add: overlapRun_def Let_def case_prod_beta)
  ultimately show ?thesis by simp
qed

lemma overlapRun_state:
  "map tile_type (tiles (world (fst overlapRun))) = [Grass]"
  "buildings (world (fst overlapRun)) = [(''b-1'', cottage)]"
  "width (world (fst overlapRun)) = 1" "depth (world (fst overlapRun)) = 1"
proof -
  let ?g = "GridWorld_new plotConfig"
  have dims: "width ?g = 1" "depth ?g = 1" "length (tiles ?g) = 1"
    by (simp_all add: GridWorld_new_dims GridWorld_new_length plotConfig_def)
  have w: "world (fst overlapRun) = fst (snd (apply_tool (applySnapshot ?g overlapSnapshot, 0) Erase 0 0))"
    by (simp add: overlapRun_def Let_def case_prod_beta WeatherSystem_new_def)
  show "map tile_type (tiles (world (fst overlapRun))) = [Grass]"
    "buildings (world (fst overlapRun)) = [(''b-1'', cottage)]"
    "width (world (fst overlapRun)) = 1" "depth (world (fst overlapRun)) = 1"
    unfolding w by (rule overlap_state [OF dims])+
qed

text \<open>
  C2 as stated fails in a state that the operations reach. A fresh 1 by 1 world
  restores a snapshot with two buildings on its tile and erases at the tile: the
  tile is grass again and the first building is still registered. The round trip
  restores that building onto its footprint, and the tile becomes a foundation.
\<close>

theorem C2_stale_building_counterexample:
  "reachable anySnapshot overlapRun
   \<and> map tile_type (tiles (world (fst overlapRun))) = [Grass]
   \<and> map tile_type (tiles (applySnapshot (world (fst overlapRun)) (toSnapshot (world (fst overlapRun)))))
       = [Foundation]"
proof -
  let ?g = "world (fst overlapRun)"
  let ?r = "applySnapshot ?g (toSnapshot ?g)"
  note st = overlapRun_state
  have len: "length (tiles ?g) = 1"
    using st(1) by (metis length_map length_Cons list.size(3) One_nat_def)
  have dims: "snapshot_width (toSnapshot ?g) = width ?g" "snapshot_depth (toSnapshot ?g) = depth ?g"
    by (simp_all add: toSnapshot_def)
  have i: "0 < length (tiles ?g)" by (simp add: len)
  have cov: "coveredBy ?g (snapshot_buildings (toSnapshot ?g)) 0"
    by (simp add: coveredBy_def toSnapshot_def st(2) cottage_def footprintCoords_def
        inBounds_def index_def st(3,4))
  have t: "tile_type (tiles ?r ! 0) = Foundation"
    by (simp add: applySnapshot_tile_type [OF dims i] cov)
  have "length (tiles ?r) = 1"
    using frame_length [of ?r ?g] len by simp
  then have "map tile_type (tiles ?r) = [Foundation]"
    using t by (cases "tiles ?r") auto
  with overlapRun_reachable st(1) show ?thesis by simp
qed

end
